(* ===== verification/Eob_Prelude.thy ===== *)
theory Eob_Prelude
  imports Main "HOL-Library.Word"
begin

text \<open>
  Shared vocabulary of the development: machine words, the ways a C function can fail to
  return, sequencing of fallible steps, byte buffers (little-endian integers, \<open>memcpy\<close>
  into a buffer) and the theorem collections the component theories fill.

  A C function that may stop abnormally has a result of type \<open>fault + 'a\<close>: \<open>Inl Abort\<close> is
  a failed \<open>VERIFY\<close> or \<open>ASSERT\<close> (\<open>src/include/sys/eob_debug.h\<close>; the build type set in
  \<open>src/CMakeLists.txt\<close> is Debug, so \<open>ASSERT\<close> is \<open>VERIFY\<close>), \<open>Inl UB\<close> is undefined
  behaviour of C (access outside an object, dereference of a null pointer, a shift that
  overflows), \<open>Inl Hang\<close> is a loop that never ends, and \<open>Inr\<close> is a normal return.
\<close>

unbundle bit_operations_syntax

type_synonym u8 = "8 word"
type_synonym u32 = "32 word"
type_synonym u64 = "64 word"
type_synonym bytes = "u8 list"

named_theorems layout_simps "sizes and offsets of the on-disk structures"
named_theorems world_simps "how system calls and allocation act on the world"

section \<open>Abnormal ends\<close>

datatype fault = Abort | UB | Hang

definition bindr :: "fault + 'a \<Rightarrow> ('a \<Rightarrow> fault + 'b) \<Rightarrow> fault + 'b" where
  "bindr m k = (case m of Inl e \<Rightarrow> Inl e | Inr x \<Rightarrow> k x)"

lemma bindr_simps [simp]:
  "bindr (Inl e) k = Inl e"
  "bindr (Inr x) k = k x"
  by (simp_all add: bindr_def)

lemma bindr_assoc: "bindr (bindr m f) g = bindr m (\<lambda>x. bindr (f x) g)"
  by (cases m) simp_all

lemma bindr_Inr_iff: "bindr m k = Inr y \<longleftrightarrow> (\<exists>x. m = Inr x \<and> k x = Inr y)"
  by (cases m) simp_all

lemma bindr_cong [fundef_cong]:
  "m = m' \<Longrightarrow> (\<And>x. m' = Inr x \<Longrightarrow> k x = k' x) \<Longrightarrow> bindr m k = bindr m' k'"
  by (cases m') simp_all

text \<open>\<open>guard f c\<close> continues when \<open>c\<close> holds and ends with \<open>f\<close> otherwise.\<close>

definition guard :: "fault \<Rightarrow> bool \<Rightarrow> fault + unit" where
  "guard f c = (if c then Inr () else Inl f)"

lemma guard_simps [simp]:
  "c \<Longrightarrow> guard f c = Inr ()"
  "\<not> c \<Longrightarrow> guard f c = Inl f"
  by (simp_all add: guard_def)

lemma guard_Inr_iff: "guard f c = Inr u \<longleftrightarrow> c"
  by (simp add: guard_def)

lemma bindr_guard_Inr_iff: "bindr (guard f c) k = Inr y \<longleftrightarrow> c \<and> k () = Inr y"
  by (simp add: guard_def)

abbreviation verify :: "bool \<Rightarrow> fault + unit" where
  "verify \<equiv> guard Abort"

text \<open>The value of \<open>int\<close> arithmetic: undefined when it does not fit.\<close>

definition c_int :: "int \<Rightarrow> fault + int" where
  "c_int x = (if - (2 ^ 31) \<le> x \<and> x < 2 ^ 31 then Inr x else Inl UB)"

lemma c_int_ok [simp]: "- (2 ^ 31) \<le> x \<Longrightarrow> x < 2 ^ 31 \<Longrightarrow> c_int x = Inr x"
  by (simp add: c_int_def)

section \<open>Little-endian integers\<close>

primrec le_bytes :: "nat \<Rightarrow> nat \<Rightarrow> bytes" where
  "le_bytes 0 x = []"
| "le_bytes (Suc n) x = word_of_nat (x mod 256) # le_bytes n (x div 256)"

primrec le_val :: "bytes \<Rightarrow> nat" where
  "le_val [] = 0"
| "le_val (b # bs) = unat b + 256 * le_val bs"

lemma length_le_bytes [simp]: "length (le_bytes n x) = n"
  by (induction n arbitrary: x) simp_all

lemma unat_byte_lt: "unat (b :: u8) < 256"
  using unsigned_less [where ?'a = nat, of b] by simp

lemma unat_byte_of_nat [simp]: "unat (word_of_nat (x mod 256) :: u8) = x mod 256"
  by (simp add: unat_of_nat)

lemma le_val_le_bytes: "le_val (le_bytes n x) = x mod 256 ^ n"
proof (induction n arbitrary: x)
  case 0
  then show ?case by simp
next
  case (Suc n)
  then show ?case by (simp add: mod_mult2_eq)
qed

lemma le_bytes_le_val: "le_bytes (length bs) (le_val bs) = bs"
proof (induction bs)
  case Nil
  then show ?case by simp
next
  case (Cons b bs)
  have "(unat b + 256 * le_val bs) mod 256 = unat b"
    and "(unat b + 256 * le_val bs) div 256 = le_val bs"
    using unat_byte_lt [of b] by simp_all
  with Cons show ?case by simp
qed

lemma le_val_replicate [simp]: "le_val (replicate n 0) = 0"
  by (induction n) simp_all

lemma le_val_lt: "le_val bs < 256 ^ length bs"
proof (induction bs)
  case Nil
  then show ?case by simp
next
  case (Cons b bs)
  have "unat b + 256 * le_val bs < 256 + 256 * le_val bs"
    using unat_byte_lt [of b] by simp
  also have "\<dots> = 256 * Suc (le_val bs)" by simp
  also have "\<dots> \<le> 256 * 256 ^ length bs"
    using Cons by (intro mult_le_mono2) simp
  finally show ?case by simp
qed

lemma le_val_zeros [simp]: "le_val (replicate n 0) = 0"
  by (induction n) simp_all

definition le64 :: "u64 \<Rightarrow> bytes" where
  "le64 x = le_bytes 8 (unat x)"

definition un_le64 :: "bytes \<Rightarrow> u64" where
  "un_le64 bs = word_of_nat (le_val bs)"

definition le32 :: "u32 \<Rightarrow> bytes" where
  "le32 x = le_bytes 4 (unat x)"

definition un_le32 :: "bytes \<Rightarrow> u32" where
  "un_le32 bs = word_of_nat (le_val bs)"

lemma length_le64 [simp]: "length (le64 x) = 8"
  by (simp add: le64_def)

lemma length_le32 [simp]: "length (le32 x) = 4"
  by (simp add: le32_def)

lemma un_le64_le64 [simp]: "un_le64 (le64 x) = x"
proof -
  have "unat x < 256 ^ 8" using unsigned_less [where ?'a = nat, of x] by simp
  then show ?thesis by (simp add: un_le64_def le64_def le_val_le_bytes)
qed

lemma un_le32_le32 [simp]: "un_le32 (le32 x) = x"
proof -
  have "unat x < 256 ^ 4" using unsigned_less [where ?'a = nat, of x] by simp
  then show ?thesis by (simp add: un_le32_def le32_def le_val_le_bytes)
qed

lemma le64_un_le64: "length bs = 8 \<Longrightarrow> le64 (un_le64 bs) = bs"
  using le_val_lt [of bs] le_bytes_le_val [of bs]
  by (simp add: un_le64_def le64_def unat_of_nat)

lemma le32_un_le32: "length bs = 4 \<Longrightarrow> le32 (un_le32 bs) = bs"
  using le_val_lt [of bs] le_bytes_le_val [of bs]
  by (simp add: un_le32_def le32_def unat_of_nat)

lemma un_le64_zeros [simp]: "un_le64 (replicate n 0) = 0"
  by (simp add: un_le64_def)

lemma un_le32_zeros [simp]: "un_le32 (replicate n 0) = 0"
  by (simp add: un_le32_def)

section \<open>Byte buffers\<close>

text \<open>
  \<open>bslice off n bs\<close> reads \<open>n\<close> bytes at \<open>off\<close>; \<open>overlay off src dst\<close> writes \<open>src\<close> over \<open>dst\<close>
  at \<open>off\<close>, where \<open>dst\<close> is first extended with zeros when it is shorter than \<open>off\<close> (what a
  file does; a memory buffer is never written past its end in the model, the callers check).
\<close>

definition bslice :: "nat \<Rightarrow> nat \<Rightarrow> 'a list \<Rightarrow> 'a list" where
  "bslice off n bs = take n (drop off bs)"

definition overlay :: "nat \<Rightarrow> bytes \<Rightarrow> bytes \<Rightarrow> bytes" where
  "overlay off src dst =
     (if src = [] then dst
      else take off dst @ replicate (off - length dst) 0 @ src @ drop (off + length src) dst)"

lemma length_bslice [simp]: "length (bslice off n bs) = min n (length bs - off)"
  by (simp add: bslice_def min.commute)

lemma bslice_0_all: "length bs \<le> n \<Longrightarrow> bslice 0 n bs = bs"
  by (simp add: bslice_def)

lemma bslice_append_left: "off + n \<le> length xs \<Longrightarrow> bslice off n (xs @ ys) = bslice off n xs"
  by (simp add: bslice_def)

lemma bslice_append_right: "length xs \<le> off \<Longrightarrow> bslice off n (xs @ ys) = bslice (off - length xs) n ys"
  by (simp add: bslice_def)

lemma bslice_append_hit: "off = length xs \<Longrightarrow> n = length ys \<Longrightarrow> bslice off n (xs @ ys @ zs) = ys"
  by (simp add: bslice_def)

lemma length_overlay:
  "length (overlay off src dst) =
     (if src = [] then length dst else max (length dst) (off + length src))"
  by (auto simp: overlay_def)

lemma overlay_Nil [simp]: "overlay off [] dst = dst"
  by (simp add: overlay_def)

lemma overlay_0: "src \<noteq> [] \<Longrightarrow> overlay 0 src dst = src @ drop (length src) dst"
  by (simp add: overlay_def)

lemma overlay_all: "length dst \<le> length src \<Longrightarrow> dst = [] \<or> src \<noteq> [] \<Longrightarrow> overlay 0 src dst = src"
  by (auto simp: overlay_def)

lemma overlay_full: "length src = length dst \<Longrightarrow> overlay 0 src dst = src"
  by (auto simp: overlay_def)

lemma bslice_overlay_same: "n = length src \<Longrightarrow> bslice off n (overlay off src dst) = src"
  by (auto simp: bslice_def overlay_def)

lemma bslice_overlay_before:
  "off + n \<le> off' \<Longrightarrow> off + n \<le> length dst \<Longrightarrow> bslice off n (overlay off' src dst) = bslice off n dst"
  by (auto simp: bslice_def overlay_def take_drop min_def)

lemma bslice_overlay_after:
  assumes "off' + length src \<le> off"
  shows "bslice off n (overlay off' src dst) = bslice off n dst"
proof (cases "length dst \<le> off'")
  case True
  with assms show ?thesis by (auto simp: bslice_def overlay_def)
next
  case False
  then have "off - off' - length src + (off' + length src) = off" using assms by simp
  with False assms show ?thesis by (auto simp: bslice_def overlay_def min_def)
qed

lemma bslice_overlay_inside:
  "off' \<le> off \<Longrightarrow> off + n \<le> off' + length src \<Longrightarrow>
   bslice off n (overlay off' src dst) = bslice (off - off') n src"
  by (auto simp: bslice_def overlay_def min_def)

lemma bslice_bslice: "a + n \<le> m \<Longrightarrow> bslice a n (bslice b m xs) = bslice (b + a) n xs"
  by (simp add: bslice_def drop_take add.commute)

lemma bslice_replicate: "bslice off n (replicate m x) = replicate (min n (m - off)) x"
  by (simp add: bslice_def min.commute)

end
