(* ===== verification/Eob_Bits.thy ===== *)
theory Eob_Bits
  imports Eob_Prelude
begin

text \<open>
  The power-of-two macros and the bit search of \<open>src/include/eoblock_defs.h\<close>. The macros
  are untyped in C, so they are modelled at every word length, the one of their operands after
  promotion (32 bits or more); \<open>liboblock.c\<close> uses them at 64 bits (\<open>size_t\<close>) and, in \<open>eob_hdr_init\<close>,
  at 32 bits (\<open>int\<close>). The lemmas give their
  meaning on \<open>unat\<close> for an alignment that is a power of two.
\<close>

section \<open>The macros\<close>

definition P2ALIGN :: "'a::len word \<Rightarrow> 'a word \<Rightarrow> 'a word" where
  "P2ALIGN x align = x AND (- align)"

definition P2CROSS :: "'a::len word \<Rightarrow> 'a word \<Rightarrow> 'a word \<Rightarrow> bool" where
  "P2CROSS x y align \<longleftrightarrow> (x XOR y) > align - 1"

definition P2ROUNDUP :: "'a::len word \<Rightarrow> 'a word \<Rightarrow> 'a word" where
  "P2ROUNDUP x align = ((x - 1) OR (align - 1)) + 1"

definition P2PHASE :: "'a::len word \<Rightarrow> 'a word \<Rightarrow> 'a word" where
  "P2PHASE x align = x AND (align - 1)"

definition P2NPHASE :: "'a::len word \<Rightarrow> 'a word \<Rightarrow> 'a word" where
  "P2NPHASE x align = (- x) AND (align - 1)"

definition ISP2 :: "'a::len word \<Rightarrow> bool" where
  "ISP2 x \<longleftrightarrow> x AND (x - 1) = 0"

definition P2BOUNDARY :: "'a::len word \<Rightarrow> 'a word \<Rightarrow> 'a word \<Rightarrow> bool" where
  "P2BOUNDARY off len align \<longleftrightarrow> (off XOR (off + len - 1)) > align - 1"

text \<open>
  The typed variants convert their arguments to the unsigned type given as the last argument, here
  \<open>'t\<close>, before they compute. They compute in that type when it has at least the 32 bits of \<open>int\<close>; the
  operands of a narrower type are promoted to \<open>int\<close>, in which no result of two such operands leaves
  the range, so that nothing wraps. The value of an expression is an integer here; \<open>in_type\<close> is what
  an arithmetic operation of C makes of the mathematical result, \<open>conv\<close> the conversion of an argument.
\<close>

definition in_type :: "'t::len itself \<Rightarrow> int \<Rightarrow> int" where
  "in_type _ n = (if LENGTH('t) < 32 then n else take_bit LENGTH('t) n)"

definition conv :: "'t::len itself \<Rightarrow> 'a::len word \<Rightarrow> int" where
  "conv _ x = uint (ucast x :: 't word)"

definition P2ALIGN_TYPED :: "'t::len itself \<Rightarrow> 'a::len word \<Rightarrow> 'b::len word \<Rightarrow> int" where
  "P2ALIGN_TYPED t x align = conv t x AND in_type t (- conv t align)"

definition P2PHASE_TYPED :: "'t::len itself \<Rightarrow> 'a::len word \<Rightarrow> 'b::len word \<Rightarrow> int" where
  "P2PHASE_TYPED t x align = conv t x AND in_type t (conv t align - 1)"

definition P2NPHASE_TYPED :: "'t::len itself \<Rightarrow> 'a::len word \<Rightarrow> 'b::len word \<Rightarrow> int" where
  "P2NPHASE_TYPED t x align = in_type t (- conv t x) AND in_type t (conv t align - 1)"

definition P2ROUNDUP_TYPED :: "'t::len itself \<Rightarrow> 'a::len word \<Rightarrow> 'b::len word \<Rightarrow> int" where
  "P2ROUNDUP_TYPED t x align = in_type t ((in_type t (conv t x - 1) OR in_type t (conv t align - 1)) + 1)"

definition P2END_TYPED :: "'t::len itself \<Rightarrow> 'a::len word \<Rightarrow> 'b::len word \<Rightarrow> int" where
  "P2END_TYPED t x align = in_type t (- (in_type t (NOT (conv t x)) AND in_type t (- conv t align)))"

definition P2PHASEUP_TYPED :: "'t::len itself \<Rightarrow> 'a::len word \<Rightarrow> 'b::len word \<Rightarrow> 'c::len word \<Rightarrow> int" where
  "P2PHASEUP_TYPED t x align phase =
     in_type t (conv t phase - (in_type t (conv t phase - conv t x) AND in_type t (- conv t align)))"

definition P2CROSS_TYPED :: "'t::len itself \<Rightarrow> 'a::len word \<Rightarrow> 'b::len word \<Rightarrow> 'c::len word \<Rightarrow> bool" where
  "P2CROSS_TYPED t x y align \<longleftrightarrow> (conv t x XOR conv t y) > in_type t (conv t align - 1)"

definition P2SAMEHIGHBIT_TYPED :: "'t::len itself \<Rightarrow> 'a::len word \<Rightarrow> 'b::len word \<Rightarrow> bool" where
  "P2SAMEHIGHBIT_TYPED t x y \<longleftrightarrow> (conv t x XOR conv t y) < (conv t x AND conv t y)"

text \<open>\<open>__builtin_clzll\<close> of a non-zero argument: the zeros above its highest set bit.\<close>

definition clzll :: "u64 \<Rightarrow> nat" where
  "clzll x = length (takeWhile (\<lambda>i. \<not> bit x i) (rev [0..<64]))"

definition eob_fls64 :: "u64 \<Rightarrow> nat" where
  "eob_fls64 x = (if x \<noteq> 0 then 64 - clzll x else 0)"

definition highbit64 :: "u64 \<Rightarrow> nat" where
  "highbit64 x = (if x \<noteq> 0 then eob_fls64 x - 1 else 0)"

text \<open>
  The two macros take \<open>sizeof(x)\<close> of their argument: \<open>eob_fls64_at n\<close> is the macro on an argument
  whose type has \<open>n\<close> bytes, with the value, of type \<open>size_t\<close>, that the subtraction wraps to.
  \<open>eob_fls64\<close> and \<open>highbit64\<close> above are the case of eight bytes.
\<close>

definition eob_fls64_at :: "nat \<Rightarrow> u64 \<Rightarrow> u64" where
  "eob_fls64_at n x = (if x \<noteq> 0 then word_of_nat (n * 8) - word_of_nat (clzll x) else 0)"

definition highbit64_at :: "nat \<Rightarrow> u64 \<Rightarrow> u64" where
  "highbit64_at n x = (if x \<noteq> 0 then eob_fls64_at n x - 1 else 0)"

section \<open>Alignment to a power of two\<close>

lemma unat_pow2: "k < LENGTH('a) \<Longrightarrow> unat (2 ^ k :: 'a::len word) = 2 ^ k"
proof -
  assume "k < LENGTH('a)"
  then have "(2::nat) ^ k < 2 ^ LENGTH('a)" by simp
  then have "unat (word_of_nat (2 ^ k) :: 'a word) = 2 ^ k"
    by (simp only: unat_of_nat mod_less)
  then show ?thesis by simp
qed

lemma unat_pow2_m1:
  assumes "k < LENGTH('a)"
  shows "(2 ^ k - 1 :: 'a::len word) = mask k"
  using assms by (simp add: mask_eq_exp_minus_1)

lemma P2PHASE_mask:
  "k < LENGTH('a) \<Longrightarrow> P2PHASE x (2 ^ k) = take_bit k (x :: 'a::len word)"
  by (simp add: P2PHASE_def unat_pow2_m1 take_bit_eq_mask)

lemma unat_P2PHASE:
  "k < LENGTH('a) \<Longrightarrow> unat (P2PHASE x (2 ^ k)) = unat (x :: 'a::len word) mod 2 ^ k"
  by (simp only: P2PHASE_mask unsigned_take_bit_eq) (simp only: take_bit_eq_mod)

lemma minus_pow2_not_mask:
  "k < LENGTH('a) \<Longrightarrow> (- (2 ^ k) :: 'a::len word) = NOT (mask k)"
  by (simp add: minus_exp_eq_not_mask)

lemma word_split_mask: "(x AND NOT (mask k)) + (x AND mask k) = (x :: 'a::len word)"
proof -
  have "(x AND NOT (mask k)) AND (x AND mask k) = 0"
    by (rule bit_word_eqI) (auto simp: bit_simps)
  then have "(x AND NOT (mask k)) + (x AND mask k) = (x AND NOT (mask k)) OR (x AND mask k)"
    by (rule disjunctive_add_eq_or)
  also have "\<dots> = x"
    by (rule bit_word_eqI) (auto simp: bit_simps)
  finally show ?thesis .
qed

lemma word_or_mask: "x OR mask k = (x AND NOT (mask k)) + (mask k :: 'a::len word)"
proof -
  have "(x AND NOT (mask k)) AND mask k = 0"
    by (rule bit_word_eqI) (auto simp: bit_simps)
  then have "(x AND NOT (mask k)) + mask k = (x AND NOT (mask k)) OR mask k"
    by (rule disjunctive_add_eq_or)
  also have "\<dots> = x OR mask k"
    by (rule bit_word_eqI) (auto simp: bit_simps)
  finally show ?thesis by simp
qed

lemma unat_and_not_mask:
  fixes x :: "'a::len word"
  shows "unat (x AND NOT (mask k)) = unat x div 2 ^ k * 2 ^ k"
proof -
  have "x AND NOT (mask k) = push_bit k (drop_bit k x)"
    by (rule bit_word_eqI) (auto simp: bit_simps)
  then have "unat (x AND NOT (mask k)) = take_bit LENGTH('a) (push_bit k (drop_bit k (unat x)))"
    by (simp add: unsigned_push_bit_eq unsigned_drop_bit_eq take_bit_nat_eq_self)
  also have "\<dots> = unat x div 2 ^ k * 2 ^ k"
  proof -
    have "unat x div 2 ^ k * 2 ^ k \<le> unat x" by simp
    also have "unat x < 2 ^ LENGTH('a)" by (rule unsigned_less)
    finally show ?thesis by (simp add: push_bit_eq_mult drop_bit_eq_div take_bit_eq_mod)
  qed
  finally show ?thesis .
qed

lemma unat_P2ALIGN:
  "k < LENGTH('a) \<Longrightarrow> unat (P2ALIGN x (2 ^ k)) = unat (x :: 'a::len word) div 2 ^ k * 2 ^ k"
  by (simp add: P2ALIGN_def minus_pow2_not_mask unat_and_not_mask)

lemma P2ALIGN_P2PHASE:
  "k < LENGTH('a) \<Longrightarrow> P2ALIGN x (2 ^ k) + P2PHASE x (2 ^ k) = (x :: 'a::len word)"
  by (simp add: P2ALIGN_def P2PHASE_def minus_pow2_not_mask unat_pow2_m1 word_split_mask)

text \<open>The distance to the next multiple; with the phase it makes a multiple of the alignment.\<close>

lemma P2PHASE_P2NPHASE:
  fixes x :: "'a::len word"
  assumes "k < LENGTH('a)"
  shows "(unat (P2PHASE x (2 ^ k)) + unat (P2NPHASE x (2 ^ k))) mod 2 ^ k = 0"
proof -
  have "P2NPHASE x (2 ^ k) = P2PHASE (- x) (2 ^ k)"
    by (simp add: P2NPHASE_def P2PHASE_def)
  then have "unat (P2NPHASE x (2 ^ k)) = unat (- x) mod 2 ^ k"
    using assms by (simp add: unat_P2PHASE)
  moreover have "(unat x + unat (- x)) mod 2 ^ k = 0"
  proof -
    have "(unat x + unat (- x)) mod 2 ^ LENGTH('a) = unat (x + - x)"
      by (rule unat_word_ariths(1) [symmetric])
    then have "(2 ^ LENGTH('a) :: nat) dvd unat x + unat (- x)"
      by (simp add: dvd_eq_mod_eq_0)
    moreover have "(2 ^ k :: nat) dvd 2 ^ LENGTH('a)"
      using assms by (simp add: le_imp_power_dvd)
    ultimately show ?thesis
      using dvd_trans by (metis dvd_eq_mod_eq_0)
  qed
  ultimately show ?thesis
    using assms by (simp add: unat_P2PHASE mod_add_eq)
qed

lemma P2ROUNDUP_0: "P2ROUNDUP 0 a = (0 :: 'a::len word)"
  by (simp add: P2ROUNDUP_def)

lemma unat_P2ROUNDUP:
  fixes x :: "'a::len word"
  assumes k: "k < LENGTH('a)" and fits: "(unat x + 2 ^ k - 1) div 2 ^ k * 2 ^ k < 2 ^ LENGTH('a)"
  shows "unat (P2ROUNDUP x (2 ^ k)) = (unat x + 2 ^ k - 1) div 2 ^ k * 2 ^ k"
proof (cases "x = 0")
  case True
  then show ?thesis by (simp add: P2ROUNDUP_0)
next
  case False
  then have "0 < unat x" by (simp add: unat_gt_0)
  have m1: "unat (x - 1) = unat x - 1"
    using False by (simp add: unat_minus_one)
  have "P2ROUNDUP x (2 ^ k) = ((x - 1) OR mask k) + 1"
    using k by (simp add: P2ROUNDUP_def unat_pow2_m1)
  also have "\<dots> = ((x - 1) AND NOT (mask k)) + (mask k + 1)"
    by (simp only: word_or_mask add.assoc)
  also have "mask k + 1 = (2 ^ k :: 'a word)"
    by (simp add: mask_eq_exp_minus_1)
  finally have "P2ROUNDUP x (2 ^ k) = ((x - 1) AND NOT (mask k)) + 2 ^ k" .
  then have "unat (P2ROUNDUP x (2 ^ k)) =
      ((unat x - 1) div 2 ^ k * 2 ^ k + 2 ^ k) mod 2 ^ LENGTH('a)"
    using k by (simp add: unat_word_ariths unat_and_not_mask m1 unat_pow2)
  also have "(unat x - 1) div 2 ^ k * 2 ^ k + 2 ^ k = (unat x + 2 ^ k - 1) div 2 ^ k * 2 ^ k"
  proof -
    have "unat x + 2 ^ k - 1 = (unat x - 1) + 2 ^ k" using \<open>0 < unat x\<close> by simp
    moreover have "((unat x - 1) + 2 ^ k) div 2 ^ k = (unat x - 1) div 2 ^ k + 1"
      by (rule div_add_self2) simp
    ultimately show ?thesis by (simp only: add_mult_distrib mult_1)
  qed
  finally show ?thesis using fits by simp
qed

section \<open>The highest set bit\<close>

lemma clzll_bit:
  assumes "bit x n" and "n < 64" and "\<And>m. n < m \<Longrightarrow> m < 64 \<Longrightarrow> \<not> bit x m"
  shows "clzll x = 63 - n"
proof -
  have "[0..<64] = [0..<n] @ n # [Suc n..<64]"
    using assms(2) upt_add_eq_append [of 0 n "64 - n"] by (simp add: upt_conv_Cons)
  then have "rev [0..<64] = rev [Suc n..<64] @ n # rev [0..<n]" by simp
  then have "takeWhile (\<lambda>i. \<not> bit x i) (rev [0..<64]) =
      takeWhile (\<lambda>i. \<not> bit x i) (rev [Suc n..<64] @ n # rev [0..<n])"
    by (rule arg_cong)
  also have "\<dots> = rev [Suc n..<64] @ takeWhile (\<lambda>i. \<not> bit x i) (n # rev [0..<n])"
    by (rule takeWhile_append2) (use assms(3) in auto)
  also have "\<dots> = rev [Suc n..<64]"
    using assms(1) by simp
  finally have "takeWhile (\<lambda>i. \<not> bit x i) (rev [0..<64]) = rev [Suc n..<64]" .
  then show ?thesis by (simp add: clzll_def)
qed

text \<open>The code's \<open>highbit64\<close> is the integer logarithm.\<close>

lemma highbit64_log:
  assumes "x \<noteq> 0"
  shows "2 ^ highbit64 x \<le> unat x \<and> unat x < 2 ^ Suc (highbit64 x)"
proof -
  define n where "n = Max {i. bit x i}"
  have sub: "{i. bit x i} \<subseteq> {..<64}"
    using bit_imp_le_length [of x] by auto
  then have fin: "finite {i. bit x i}" by (rule finite_subset) simp
  have ne: "{i. bit x i} \<noteq> {}"
    using assms by (auto simp: bit_eq_iff)
  have n: "bit x n" using Max_in [OF fin ne] by (simp add: n_def)
  have above: "\<not> bit x m" if "n < m" for m
  proof
    assume "bit x m"
    then have "m \<le> n" using Max_ge [OF fin] by (simp add: n_def)
    with that show False by simp
  qed
  have n64: "n < 64" using n sub by auto
  then have h: "highbit64 x = n"
    using clzll_bit [OF n n64] above assms by (simp add: highbit64_def eob_fls64_def)
  have lo: "2 ^ n \<le> unat x"
  proof (rule ccontr)
    assume "\<not> 2 ^ n \<le> unat x"
    then have "unat x div 2 ^ n = 0" by simp
    moreover have "bit (unat x) n" using n by (simp add: bit_unsigned_iff)
    ultimately show False by (simp only: bit_iff_odd) simp
  qed
  have "take_bit (Suc n) x = x"
  proof (rule bit_word_eqI)
    fix m
    show "bit (take_bit (Suc n) x) m = bit x m"
      using above [of m] by (cases "n < m") (auto simp: bit_take_bit_iff)
  qed
  then have "unat x = unat x mod 2 ^ Suc n"
    by (metis take_bit_eq_mod unsigned_take_bit_eq)
  then have hi: "unat x < 2 ^ Suc n"
    by (metis mod_less_divisor zero_less_numeral zero_less_power)
  from lo hi h show ?thesis by simp
qed

lemma highbit64_pow2: "k < 64 \<Longrightarrow> highbit64 (2 ^ k) = k"
proof -
  assume k: "k < 64"
  then have nz: "(2 ^ k :: u64) \<noteq> 0" and u: "unat (2 ^ k :: u64) = 2 ^ k"
    by (simp_all add: unat_pow2)
  from highbit64_log [OF nz] u have "(2::nat) ^ highbit64 (2 ^ k) \<le> 2 ^ k"
    and "(2::nat) ^ k < 2 ^ Suc (highbit64 (2 ^ k))" by simp_all
  then have "highbit64 (2 ^ k) \<le> k" and "k < Suc (highbit64 (2 ^ k))"
    by (simp_all only: power_increasing_iff power_strict_increasing_iff one_less_numeral_iff
        semiring_norm)
  then show ?thesis by simp
qed

text \<open>On an argument of eight bytes the macro is the logarithm; on an \<open>int\<close> it is 32 less, wrapped.\<close>

lemma clzll_pow2: "k < 64 \<Longrightarrow> clzll (2 ^ k) = 63 - k"
proof (rule clzll_bit)
  assume k: "k < 64"
  then show "bit (2 ^ k :: u64) k" by (simp add: bit_exp_iff)
  show "\<not> bit (2 ^ k :: u64) m" if "k < m" for m using that by (simp add: bit_exp_iff)
qed

lemma highbit64_at_4: "highbit64_at 4 (4 * 4096) = - 18"
proof -
  have "clzll (4 * 4096) = 49" using clzll_pow2 [of 14] by simp
  then show ?thesis by (simp add: highbit64_at_def eob_fls64_at_def)
qed

lemma pow2_neq_0: "k < LENGTH('a) \<Longrightarrow> (2 ^ k :: 'a::len word) \<noteq> 0"
  using unat_pow2 [of k, where ?'a = 'a] by auto

lemma highbit64_at_8: "k < 64 \<Longrightarrow> highbit64_at 8 (2 ^ k) = word_of_nat k"
proof -
  assume k: "k < 64"
  then have nz: "(2 ^ k :: u64) \<noteq> 0" by (intro pow2_neq_0) simp
  have "(word_of_nat (63 - k) :: u64) + 1 + word_of_nat k = word_of_nat (63 - k + 1 + k)"
    by (simp only: of_nat_add of_nat_1)
  also have "63 - k + 1 + k = 8 * 8" using k by simp
  finally have e: "(word_of_nat (8 * 8) :: u64) = word_of_nat (63 - k) + 1 + word_of_nat k" ..
  have "highbit64_at 8 (2 ^ k) = word_of_nat (8 * 8) - word_of_nat (63 - k) - 1"
    using nz k by (simp only: highbit64_at_def eob_fls64_at_def clzll_pow2 if_True simp_thms)
  also have "\<dots> = word_of_nat k" unfolding e by (simp only: add_diff_cancel_left' add.assoc)
  finally show ?thesis .
qed

end
