(* ===== verification/Eob_Bits_Props.thy ===== *)
theory Eob_Bits_Props
  imports Eob_Bits
begin

text \<open>
  What the power-of-two macros of \<open>src/include/eoblock_defs.h\<close> compute for an alignment that is a
  power of two: at every width, with the wrap-around at the upper end of the type, and without it for
  types that C promotes to \<open>int\<close>.
\<close>

section \<open>The macros over masks\<close>

lemma align_mask: "k < LENGTH('a) \<Longrightarrow> P2ALIGN x (2 ^ k) = x AND NOT (mask k)" for x :: "'a::len word"
  by (simp add: P2ALIGN_def minus_pow2_not_mask)

lemma phase_mask: "k < LENGTH('a) \<Longrightarrow> P2PHASE x (2 ^ k) = x AND mask k" for x :: "'a::len word"
  by (simp add: P2PHASE_def unat_pow2_m1)

lemma mask_plus_1: "mask k + 1 = (2 ^ k :: 'a::len word)"
  by (simp add: mask_eq_exp_minus_1)

lemma roundup_align: "k < LENGTH('a) \<Longrightarrow> P2ROUNDUP x (2 ^ k) = P2ALIGN (x - 1) (2 ^ k) + 2 ^ k" for x :: "'a::len word"
  by (simp only: P2ROUNDUP_def unat_pow2_m1 word_or_mask align_mask add.assoc mask_plus_1)

lemma nphase_eq:
  fixes x :: "'a::len word"
  assumes k: "k < LENGTH('a)"
  shows "P2NPHASE x (2 ^ k) = mask k - ((x - 1) AND mask k)"
proof -
  have "- x = NOT (x - 1)" by (simp add: minus_eq_not_plus_1 not_diff_distrib)
  then have n: "P2NPHASE x (2 ^ k) = NOT (x - 1) AND mask k" using k by (simp add: P2NPHASE_def unat_pow2_m1)
  have "(NOT (x - 1) AND mask k) AND ((x - 1) AND mask k) = 0" by (rule bit_word_eqI) (auto simp: bit_simps)
  then have "(NOT (x - 1) AND mask k) + ((x - 1) AND mask k) = (NOT (x - 1) AND mask k) OR ((x - 1) AND mask k)"
    by (rule disjunctive_add_eq_or)
  also have "\<dots> = mask k" by (rule bit_word_eqI) (auto simp: bit_simps)
  finally have "NOT (x - 1) AND mask k = mask k - ((x - 1) AND mask k)"
    by (simp only: eq_diff_eq)
  with n show ?thesis by simp
qed

lemma roundup_nphase:
  fixes x :: "'a::len word"
  assumes k: "k < LENGTH('a)"
  shows "P2ROUNDUP x (2 ^ k) = x + P2NPHASE x (2 ^ k)"
proof -
  have "P2ALIGN (x - 1) (2 ^ k) = x - 1 - ((x - 1) AND mask k)"
    using P2ALIGN_P2PHASE [OF k, of "x - 1"] k by (simp only: phase_mask eq_diff_eq)
  then have "P2ROUNDUP x (2 ^ k) = x - 1 - ((x - 1) AND mask k) + (mask k + 1)"
    using k by (simp only: roundup_align mask_plus_1)
  then show ?thesis using k by (simp only: nphase_eq) (simp add: algebra_simps)
qed

lemma unat_roundup:
  fixes x :: "'a::len word"
  assumes k: "k < LENGTH('a)"
  shows "unat (P2ROUNDUP x (2 ^ k)) = (if unat x + 2 ^ k \<le> 2 ^ LENGTH('a) then (unat x + 2 ^ k - 1) div 2 ^ k * 2 ^ k else 0)"
proof (cases "unat x + 2 ^ k \<le> 2 ^ LENGTH('a)")
  case True
  have "(unat x + 2 ^ k - 1) div 2 ^ k * 2 ^ k \<le> unat x + 2 ^ k - 1" by simp
  then have "(unat x + 2 ^ k - 1) div 2 ^ k * 2 ^ k < 2 ^ LENGTH('a)"
    using True zero_less_power [of "2 :: nat" k] by linarith
  then show ?thesis using True k by (simp add: unat_P2ROUNDUP)
next
  case False
  let ?n = "LENGTH('a)"
  have nz: "x \<noteq> 0" using False k by (auto simp: not_le power_increasing dest: less_imp_le)
  then have m1: "unat (x - 1) = unat x - 1" by (simp add: unat_minus_one)
  have e: "(2 :: nat) ^ ?n = 2 ^ (?n - k) * 2 ^ k" using k by (simp flip: power_add)
  have "(2 ^ (?n - k) - 1) * 2 ^ k \<le> unat x - 1" using False e by (simp add: diff_mult_distrib)
  moreover have "unat x - 1 < 2 ^ (?n - k) * 2 ^ k" using unsigned_less [where ?'a = nat, of x] e by simp
  ultimately have "(unat x - 1) div 2 ^ k = 2 ^ (?n - k) - 1" by (intro div_nat_eqI) (simp_all add: algebra_simps)
  then have "unat (P2ALIGN (x - 1) (2 ^ k)) = 2 ^ ?n - 2 ^ k"
    using k e by (simp add: unat_P2ALIGN m1 diff_mult_distrib)
  then have "unat (P2ROUNDUP x (2 ^ k)) = 0"
    using k e by (simp add: roundup_align unat_word_ariths unat_pow2)
  then show ?thesis using False by simp
qed

section \<open>Comparisons\<close>

lemma unat_drop_bit: "unat (drop_bit k w) = unat w div 2 ^ k" for w :: "'a::len word"
  by (simp only: unsigned_drop_bit_eq) (simp add: drop_bit_eq_div take_bit_nat_eq_self)

lemma xor_eq_0: "x XOR y = 0 \<longleftrightarrow> x = y" for x y :: "'a::len word"
  by (auto simp: bit_eq_iff bit_simps)

lemma le_mask_iff: "k < LENGTH('a) \<Longrightarrow> w \<le> mask k \<longleftrightarrow> drop_bit k w = 0" for w :: "'a::len word"
proof -
  assume k: "k < LENGTH('a)"
  have "unat (mask k :: 'a word) = 2 ^ k - 1"
    using k unat_minus_one [of "2 ^ k :: 'a word"] pow2_neq_0 [OF k] by (simp add: unat_pow2 mask_eq_exp_minus_1)
  moreover have "a \<le> b - 1 \<longleftrightarrow> a < b" if "0 < b" for a b :: nat using that by auto
  ultimately have "w \<le> mask k \<longleftrightarrow> unat w < 2 ^ k" by (simp only: word_le_nat_alt) simp
  also have "\<dots> \<longleftrightarrow> unat (drop_bit k w) = 0"
    by (simp only: unat_drop_bit div_eq_0_iff) simp
  finally show ?thesis by (simp add: unat_eq_zero)
qed

lemma xor_mask_iff: "k < LENGTH('a) \<Longrightarrow> (x XOR y) \<le> mask k \<longleftrightarrow> drop_bit k x = drop_bit k y" for x y :: "'a::len word"
proof -
  assume k: "k < LENGTH('a)"
  have "drop_bit k (x XOR y) = drop_bit k x XOR drop_bit k y"
    by (rule bit_word_eqI) (auto simp: bit_simps)
  then show ?thesis using le_mask_iff [OF k, of "x XOR y"] by (simp add: xor_eq_0)
qed

lemma cross_iff:
  "k < LENGTH('a) \<Longrightarrow> P2CROSS x y (2 ^ k) \<longleftrightarrow> unat x div 2 ^ k \<noteq> unat y div 2 ^ k" for x y :: "'a::len word"
proof -
  assume k: "k < LENGTH('a)"
  have "P2CROSS x y (2 ^ k) \<longleftrightarrow> drop_bit k x \<noteq> drop_bit k y"
    using xor_mask_iff [OF k, of x y] by (simp add: P2CROSS_def unat_pow2_m1 [OF k] not_le [symmetric])
  then show ?thesis by (simp only: word_unat_eq_iff unat_drop_bit)
qed

text \<open>Comparing the two bit patterns tells whether the highest bits are at one place.\<close>

lemma same_high_bit_le:
  fixes x y :: u64
  assumes nz: "x \<noteq> 0" "y \<noteq> 0" and le: "highbit64 x \<le> highbit64 y"
  shows "(x XOR y) < (x AND y) \<longleftrightarrow> highbit64 x = highbit64 y"
proof -
  let ?n = "highbit64 y"
  note x = highbit64_log [OF nz(1)] and y = highbit64_log [OF nz(2)]
  have one: "drop_bit ?n z = 1" if "2 ^ ?n \<le> unat z" "unat z < 2 ^ Suc ?n" for z :: u64
  proof -
    have "unat z div 2 ^ ?n = 1" using that by (intro div_nat_eqI) simp_all
    then show ?thesis by (simp only: word_unat_eq_iff unat_drop_bit unat_1)
  qed
  have low: "unat z < 2 ^ ?n" if "drop_bit ?n z = 0" for z :: u64
    using that unat_drop_bit [of ?n z] by (simp add: div_eq_0_iff)
  have high: "2 ^ ?n \<le> unat z" if "drop_bit ?n z = 1" for z :: u64
    using that unat_drop_bit [of ?n z] by (metis div_less not_le unat_1 zero_neq_one)
  have d: "drop_bit ?n (x XOR y) = drop_bit ?n x XOR drop_bit ?n y" "drop_bit ?n (x AND y) = drop_bit ?n x AND drop_bit ?n y"
    by (rule bit_word_eqI, auto simp: bit_simps)+
  show ?thesis
  proof (cases "highbit64 x = ?n")
    case True
    then have "drop_bit ?n x = 1" using one [of x] x by simp
    then have "drop_bit ?n (x XOR y) = 0" "drop_bit ?n (x AND y) = 1" using d one [of y] y by simp_all
    then have "unat (x XOR y) < unat (x AND y)" using low [of "x XOR y"] high [of "x AND y"] by simp
    then show ?thesis using True by (simp add: word_less_nat_alt)
  next
    case False
    then have "Suc (highbit64 x) \<le> ?n" using le by simp
    then have "unat x < 2 ^ ?n" using x power_increasing [of "Suc (highbit64 x)" ?n "2 :: nat"] by linarith
    then have "drop_bit ?n x = 0" using unat_drop_bit [of ?n x] by (simp add: unat_eq_zero)
    then have "drop_bit ?n (x XOR y) = 1" "drop_bit ?n (x AND y) = 0" using d one [of y] y by simp_all
    then have "unat (x AND y) < unat (x XOR y)" using low [of "x AND y"] high [of "x XOR y"] by simp
    then show ?thesis using False by (simp add: word_less_nat_alt)
  qed
qed

lemma same_high_bit: "x \<noteq> 0 \<Longrightarrow> y \<noteq> 0 \<Longrightarrow> (x XOR y) < (x AND y) \<longleftrightarrow> highbit64 x = highbit64 y" for x y :: u64
proof (cases "highbit64 x \<le> highbit64 y")
  case False
  assume "x \<noteq> 0" "y \<noteq> 0"
  from same_high_bit_le [OF this(2,1)] False show ?thesis by (simp add: xor.commute and.commute eq_commute)
qed (rule same_high_bit_le)

section \<open>The typed macros\<close>

text \<open>Rounding of integers, negative ones included, by masks.\<close>

lemma int_mask_parts:
  fixes n :: int
  shows "n AND 2 ^ k - 1 = n mod 2 ^ k" and "n AND - (2 ^ k) = n div 2 ^ k * 2 ^ k"
    and "n OR 2 ^ k - 1 = n div 2 ^ k * 2 ^ k + (2 ^ k - 1)"
proof -
  have m: "2 ^ k - 1 = (mask k :: int)" "- (2 ^ k) = (NOT (mask k) :: int)"
    by (simp_all add: mask_eq_exp_minus_1 minus_exp_eq_not_mask)
  show "n AND 2 ^ k - 1 = n mod 2 ^ k" unfolding m take_bit_eq_mask [symmetric] take_bit_eq_mod ..
  have "n AND NOT (mask k) = push_bit k (drop_bit k n)" by (rule bit_eqI) (auto simp: bit_simps)
  then show a: "n AND - (2 ^ k) = n div 2 ^ k * 2 ^ k" unfolding m by (simp add: push_bit_eq_mult drop_bit_eq_div)
  have "(n AND NOT (mask k)) AND mask k = 0" by (rule bit_eqI) (auto simp: bit_simps)
  then have "(n AND NOT (mask k)) + mask k = (n AND NOT (mask k)) OR mask k" by (rule disjunctive_add_eq_or)
  also have "\<dots> = n OR mask k" by (rule bit_eqI) (auto simp: bit_simps)
  finally show "n OR 2 ^ k - 1 = n div 2 ^ k * 2 ^ k + (2 ^ k - 1)" using a unfolding m by simp
qed

text \<open>The wrapping of the intermediate results does not matter, only that of the last.\<close>

lemma in_type_arith:
  fixes m n :: int
  shows "in_type t (in_type t m + n) = in_type t (m + n)" and "in_type t (n - in_type t m) = in_type t (n - m)"
    and "in_type t (- in_type t m) = in_type t (- m)"
  by (simp_all add: in_type_def take_bit_eq_mod mod_simps)

lemma in_type_bits:
  fixes m n :: int
  shows "in_type t m AND in_type t n = in_type t (m AND n)" and "in_type t m OR in_type t n = in_type t (m OR n)"
  by (simp_all add: in_type_def)

lemma in_type_conv: "in_type t (conv t x) = conv t x"
  by (simp add: in_type_def conv_def take_bit_int_eq_self)

lemma in_type_conv_and: "conv t x AND in_type t n = in_type t (conv t x AND n)"
  using in_type_bits(1) [of t "conv t x" n] by (simp add: in_type_conv)

lemma in_type_small: "0 \<le> n \<Longrightarrow> n < 2 ^ LENGTH('t) \<Longrightarrow> in_type TYPE('t::len) n = n"
  by (simp add: in_type_def take_bit_int_eq_self)

lemma in_type_next:
  assumes "0 \<le> n" and "n < 2 * 2 ^ LENGTH('t)"
  shows "in_type TYPE('t::len) n = (if 32 \<le> LENGTH('t) \<and> 2 ^ LENGTH('t) \<le> n then n - 2 ^ LENGTH('t) else n)"
proof (cases "2 ^ LENGTH('t) \<le> n")
  case True
  then have "n mod 2 ^ LENGTH('t) = n - 2 ^ LENGTH('t)" using assms by (intro int_mod_pos_eq [where q = 1]) simp_all
  then show ?thesis by (simp add: in_type_def take_bit_eq_mod True)
qed (use assms in_type_small [of n, where 't = 't] in simp)

lemma conv_range: "0 \<le> conv TYPE('t::len) x" "conv TYPE('t) x < 2 ^ LENGTH('t)"
  by (simp_all add: conv_def)

text \<open>Multiples of a power of two, and where the type ends.\<close>

lemma next_multiple:
  fixes x m :: int
  assumes "0 < m"
  shows "(x - 1) div m * m + m = (x + m - 1) div m * m" and "(- x) mod m = (x + m - 1) div m * m - x"
    and "(- x - 1) div m * m = - (x div m * m + m)"
proof -
  have "(x - 1 + 1 * m) div m = 1 + (x - 1) div m" using assms by (intro div_mult_self1) simp
  then have s: "(x + m - 1) div m = (x - 1) div m + 1" by (simp add: algebra_simps)
  then show n: "(x - 1) div m * m + m = (x + m - 1) div m * m" by (simp add: algebra_simps)
  have e: "x - 1 = m * ((x - 1) div m) + (x - 1) mod m" by simp
  have r: "0 \<le> (x - 1) mod m" "(x - 1) mod m < m" using assms by simp_all
  have "(- x) mod m = m - 1 - (x - 1) mod m"
    by (rule int_mod_pos_eq [where q = "- ((x - 1) div m) - 1"]) (use e r in \<open>simp_all add: algebra_simps\<close>)
  moreover have "(x - 1) mod m = x - 1 - (x - 1) div m * m" by (rule minus_div_mult_eq_mod [symmetric])
  ultimately show "(- x) mod m = (x + m - 1) div m * m - x" unfolding n [symmetric] by linarith
  have e': "x = m * (x div m) + x mod m" and r': "0 \<le> x mod m" "x mod m < m" using assms by simp_all
  have "(- x - 1) div m = - (x div m) - 1"
    by (rule int_div_pos_eq [where r = "m - 1 - x mod m"]) (use e' r' in \<open>simp_all add: algebra_simps\<close>)
  then show "(- x - 1) div m * m = - (x div m * m + m)" by (simp only:) (simp add: algebra_simps)
qed

lemma multiple_le:
  fixes x :: int
  assumes "x < 2 ^ n" and "k \<le> n"
  shows "x div 2 ^ k * 2 ^ k + 2 ^ k \<le> 2 ^ n"
proof -
  have e: "(2 :: int) ^ n = 2 ^ (n - k) * 2 ^ k" using assms(2) by (simp flip: power_add)
  have "x div 2 ^ k * 2 ^ k \<le> x" by (simp add: minus_mod_eq_div_mult [symmetric])
  then have "x div 2 ^ k * 2 ^ k < 2 ^ (n - k) * 2 ^ k" using assms(1) e by linarith
  then have "x div 2 ^ k < 2 ^ (n - k)" by simp
  then have "(x div 2 ^ k + 1) * 2 ^ k \<le> 2 ^ (n - k) * 2 ^ k" by (intro mult_right_mono) simp_all
  then show ?thesis using e by (simp add: distrib_right)
qed

section \<open>Properties\<close>

text \<open>
  C39. The rounding macros on any unsigned type, with an alignment that is a power of two:
  \<open>P2ALIGN\<close> and \<open>P2PHASE\<close> split a number into multiple and remainder, \<open>P2ROUNDUP\<close> is the next
  multiple, \<open>P2NPHASE\<close> its distance, \<open>P2END\<close> the end of the block the number is in, and \<open>P2PHASEUP\<close>
  the next number with the phase of a third. At the upper end of a type of 32 bits or more the three
  that round up wrap around (the first two to 0); for a narrower type they do not, because C
  computes in \<open>int\<close>, and the value may lie beyond the type: 65536 for the 16 bits of \<open>0xFFF9\<close>.
\<close>

theorem p2_rounding:
  fixes x :: "'a::len word" and align :: "'b::len word" and phase :: "'c::len word"
  defines "L \<equiv> LENGTH('t::len)" and "X \<equiv> conv TYPE('t) x" and "P \<equiv> conv TYPE('t) phase"
  assumes k: "k < L" and a: "conv TYPE('t) align = 2 ^ k"
  shows "P2ALIGN_TYPED TYPE('t) x align = X div 2 ^ k * 2 ^ k \<and>
    P2PHASE_TYPED TYPE('t) x align = X mod 2 ^ k \<and>
    P2NPHASE_TYPED TYPE('t) x align = (X + 2 ^ k - 1) div 2 ^ k * 2 ^ k - X \<and>
    P2ROUNDUP_TYPED TYPE('t) x align = (let n = (X + 2 ^ k - 1) div 2 ^ k * 2 ^ k in if 32 \<le> L \<and> n = 2 ^ L then 0 else n) \<and>
    P2END_TYPED TYPE('t) x align = (let n = X div 2 ^ k * 2 ^ k + 2 ^ k in if 32 \<le> L \<and> n = 2 ^ L then 0 else n) \<and>
    P2PHASEUP_TYPED TYPE('t) x align phase = (let n = X + (P - X) mod 2 ^ k in if 32 \<le> L \<and> 2 ^ L \<le> n then n - 2 ^ L else n)"
proof -
  let ?t = "TYPE('t)" and ?m = "2 ^ k :: int"
  have m: "0 < ?m" by simp
  have X: "0 \<le> X" "X < 2 ^ L" unfolding X_def L_def by (rule conv_range)+
  have mL: "?m < 2 ^ L" using k by simp
  note N = next_multiple [OF m, of X]
  have top: "X div ?m * ?m + ?m \<le> 2 ^ L" "(X + ?m - 1) div ?m * ?m \<le> 2 ^ L"
    using multiple_le [OF X(2), of k] multiple_le [of "X - 1" L k] X(2) k N(1) by simp_all
  have low: "0 \<le> X div ?m * ?m" "0 \<le> (X + ?m - 1) div ?m * ?m"
    using X(1) m by (intro mult_nonneg_nonneg pos_imp_zdiv_nonneg_iff [THEN iffD2]; linarith)+
  have wrap: "in_type ?t n = (if 32 \<le> L \<and> n = 2 ^ L then 0 else n)" if "0 \<le> n" "n \<le> 2 ^ L" for n
  proof -
    have "(0 :: int) < 2 ^ L" by simp
    then have "n < 2 * 2 ^ L" using that by linarith
    then show ?thesis using in_type_next [of n, where 't = 't] that unfolding L_def by auto
  qed
  have "P2ALIGN_TYPED ?t x align = in_type ?t (X div ?m * ?m)"
    unfolding P2ALIGN_TYPED_def a in_type_conv_and X_def int_mask_parts ..
  moreover have "X div ?m * ?m < 2 ^ L" using top(1) m by linarith
  ultimately have 1: "P2ALIGN_TYPED ?t x align = X div ?m * ?m" using in_type_small [of _, where 't = 't] low(1) unfolding L_def by simp
  have "P2PHASE_TYPED ?t x align = in_type ?t (X mod ?m)"
    unfolding P2PHASE_TYPED_def a in_type_conv_and X_def int_mask_parts ..
  moreover have "0 \<le> X mod ?m" "X mod ?m < 2 ^ L" using pos_mod_bound [OF m, of X] mL by (simp, linarith)
  ultimately have 2: "P2PHASE_TYPED ?t x align = X mod ?m" using in_type_small [of "X mod ?m", where 't = 't] unfolding L_def by simp
  have "P2NPHASE_TYPED ?t x align = in_type ?t ((- X) mod ?m)"
    unfolding P2NPHASE_TYPED_def a in_type_bits X_def int_mask_parts ..
  moreover have "0 \<le> (- X) mod ?m" "(- X) mod ?m < 2 ^ L" using pos_mod_bound [OF m, of "- X"] mL by (simp, linarith)
  ultimately have 3: "P2NPHASE_TYPED ?t x align = (X + ?m - 1) div ?m * ?m - X"
    using in_type_small [of "(- X) mod ?m", where 't = 't] N(2) unfolding L_def by simp
  have "P2ROUNDUP_TYPED ?t x align = in_type ?t ((X - 1) div ?m * ?m + (?m - 1) + 1)"
    unfolding P2ROUNDUP_TYPED_def a in_type_bits in_type_arith X_def int_mask_parts ..
  then have 4: "P2ROUNDUP_TYPED ?t x align = in_type ?t ((X + ?m - 1) div ?m * ?m)" using N(1) by (simp add: algebra_simps)
  have "NOT X = - X - 1" by (simp add: not_eq_complement)
  then have 5: "P2END_TYPED ?t x align = in_type ?t (X div ?m * ?m + ?m)"
    unfolding P2END_TYPED_def a in_type_bits in_type_arith X_def [symmetric] int_mask_parts by (simp only: N(3) minus_minus)
  have "P2PHASEUP_TYPED ?t x align phase = in_type ?t (P - (P - X) div ?m * ?m)"
    unfolding P2PHASEUP_TYPED_def a in_type_bits in_type_arith X_def P_def int_mask_parts ..
  moreover have "P - (P - X) div ?m * ?m = X + (P - X) mod ?m" using minus_div_mult_eq_mod [of "P - X" ?m] by linarith
  ultimately have 6: "P2PHASEUP_TYPED ?t x align phase = in_type ?t (X + (P - X) mod ?m)" by simp
  have "0 \<le> (P - X) mod ?m" "(P - X) mod ?m < 2 ^ L" using pos_mod_bound [OF m, of "P - X"] mL by (simp, linarith)
  then have u: "0 \<le> X + (P - X) mod ?m" "X + (P - X) mod ?m < 2 * 2 ^ L" using X by linarith+
  show ?thesis
    unfolding Let_def using 1 2 3 4 5 6 wrap [OF low(2) top(2)] wrap [OF _ top(1)] low(1) m in_type_next [where 't = 't, folded L_def, OF u]
    by simp
qed

theorem p2_rounding_witness:
  "P2ROUNDUP_TYPED TYPE(64) (4097 :: u32) (4096 :: u32) = 8192 \<and>
   P2ROUNDUP_TYPED TYPE(32) (0xFFFFF001 :: u32) (4096 :: u32) = 0 \<and>
   P2ROUNDUP_TYPED TYPE(16) (0xFFF9 :: u32) (8 :: u32) = 65536 \<and>
   P2END_TYPED TYPE(16) (0xFFF9 :: u32) (8 :: u32) = 65536"
proof -
  have c: "conv TYPE(64) (4097 :: u32) = 4097" "conv TYPE(64) (4096 :: u32) = 2 ^ 12" "conv TYPE(32) (0xFFFFF001 :: u32) = 0xFFFFF001"
    "conv TYPE(32) (4096 :: u32) = 2 ^ 12" "conv TYPE(16) (0xFFF9 :: u32) = 0xFFF9" "conv TYPE(16) (8 :: u32) = 2 ^ 3"
    by (simp_all add: conv_def)
  show ?thesis
    using p2_rounding [where 't = 64, OF _ c(2), of "4097 :: u32" "0 :: u32"] p2_rounding [where 't = 32, OF _ c(4), of "0xFFFFF001 :: u32" "0 :: u32"]
      p2_rounding [where 't = 16, OF _ c(6), of "0xFFF9 :: u32" "0 :: u32"]
    by (simp add: c Let_def)
qed

text \<open>
  The comparing macros: \<open>P2CROSS\<close> and \<open>P2BOUNDARY\<close> tell whether two numbers, or the two ends of
  a range, lie in different aligned blocks, \<open>P2SAMEHIGHBIT\<close> whether the integer logarithms of two
  numbers that are not 0 are the same.
\<close>

lemma p2_comparisons:
  fixes x y :: u64
  assumes "k < 64" and "x \<noteq> 0" and "y \<noteq> 0"
  shows "(P2CROSS x y (2 ^ k) \<longleftrightarrow> unat x div 2 ^ k \<noteq> unat y div 2 ^ k) \<and>
    (P2BOUNDARY x y (2 ^ k) \<longleftrightarrow> unat x div 2 ^ k \<noteq> unat (x + y - 1) div 2 ^ k) \<and>
    P2CROSS_TYPED TYPE(64) x y (2 ^ k :: u64) = P2CROSS x y (2 ^ k) \<and>
    (P2SAMEHIGHBIT_TYPED TYPE(64) x y \<longleftrightarrow> highbit64 x = highbit64 y)"
proof -
  have "in_type TYPE(64) (conv TYPE(64) (2 ^ k :: u64) - 1) = uint (2 ^ k - 1 :: u64)"
    by (simp add: in_type_def conv_def uint_word_ariths take_bit_eq_mod)
  then have "P2CROSS_TYPED TYPE(64) x y (2 ^ k :: u64) = P2CROSS x y (2 ^ k)"
    by (simp add: P2CROSS_TYPED_def P2CROSS_def conv_def word_less_alt uint_xor)
  moreover have "P2SAMEHIGHBIT_TYPED TYPE(64) x y \<longleftrightarrow> (x XOR y) < (x AND y)"
    by (simp add: P2SAMEHIGHBIT_TYPED_def conv_def word_less_alt uint_xor uint_and)
  ultimately show ?thesis
    using assms cross_iff [of k x y] cross_iff [of k x "x + y - 1"] same_high_bit by (simp add: P2BOUNDARY_def P2CROSS_def)
qed

end
