(* ===== verification/Eob_Errors.thy ===== *)
theory Eob_Errors
  imports Eob_Prelude
begin

text \<open>
  Return codes (\<open>eob_err_type\<close> of \<open>src/include/eoblock_defs.h\<close>), the two-valued
  \<open>boolean_t\<close> of \<open>src/include/sys/eob_types.h\<close>, and the text tables of \<open>src/lib/eob_log.c\<close>.
  A return code is an \<open>int\<close>: the code also returns values that are no \<open>eob_err_type\<close>.
\<close>

section \<open>Return codes\<close>

definition EOB_OK :: int where [simp]: "EOB_OK = 0"
definition EOB_NOMEM :: int where [simp]: "EOB_NOMEM = 3000"
definition EOB_NODEV :: int where [simp]: "EOB_NODEV = 3001"
definition EOB_EALREADY :: int where [simp]: "EOB_EALREADY = 3002"
definition EOB_IO :: int where [simp]: "EOB_IO = 3003"
definition EOB_CHKSUM :: int where [simp]: "EOB_CHKSUM = 3004"
definition EOB_INVAL :: int where [simp]: "EOB_INVAL = 3005"
definition EOB_VER_MISM :: int where [simp]: "EOB_VER_MISM = 3006"
definition EOB_NALIGN :: int where [simp]: "EOB_NALIGN = 3007"
definition EOB_2BIG :: int where [simp]: "EOB_2BIG = 3008"
definition EOB_BADUSAGE :: int where [simp]: "EOB_BADUSAGE = 3009"

text \<open>\<open>ENOMEM\<close> of \<open>errno.h\<close>, which \<open>liboblock.c\<close> passes to \<open>SET_ERR\<close> in two places.\<close>

definition ENOMEM :: int where [simp]: "ENOMEM = 12"

definition eob_codes :: "int list" where
  "eob_codes = [EOB_OK, EOB_NOMEM, EOB_NODEV, EOB_EALREADY, EOB_IO, EOB_CHKSUM, EOB_INVAL,
     EOB_VER_MISM, EOB_NALIGN, EOB_2BIG, EOB_BADUSAGE]"

text \<open>The enumeration gives \<open>B_TRUE\<close> the value 0 and \<open>B_FALSE\<close> the value 1.\<close>

datatype boolean_t = B_TRUE | B_FALSE

fun boolean_val :: "boolean_t \<Rightarrow> int" where
  "boolean_val B_TRUE = 0"
| "boolean_val B_FALSE = 1"

text \<open>A \<open>boolean_t\<close> used as a C condition, and a C comparison returned as a \<open>boolean_t\<close>.\<close>

definition c_truth :: "boolean_t \<Rightarrow> bool" where
  "c_truth b \<longleftrightarrow> boolean_val b \<noteq> 0"

definition c_boolean :: "bool \<Rightarrow> boolean_t" where
  "c_boolean p = (if p then B_FALSE else B_TRUE)"

lemma boolean_val_c_boolean: "boolean_val (c_boolean p) = of_bool p"
  by (simp add: c_boolean_def)

lemma c_truth_simps [simp]: "\<not> c_truth B_TRUE" "c_truth B_FALSE"
  by (simp_all add: c_truth_def)

section \<open>Messages\<close>

definition eob_strerror :: "int \<Rightarrow> fault + string" where
  "eob_strerror err =
     (if err = EOB_OK then Inr ''success''
      else if err = EOB_NODEV then Inr ''nodevice''
      else if err = EOB_NOMEM then Inr ''oom''
      else if err = EOB_IO then Inr ''io error''
      else if err = EOB_INVAL then Inr ''invalid argument''
      else if err = EOB_EALREADY then Inr ''already''
      else if err = EOB_CHKSUM then Inr ''checksumm mismatch''
      else if err = EOB_VER_MISM then Inr ''version mismatch''
      else if err = EOB_NALIGN then Inr ''wrong align''
      else if err = EOB_2BIG then Inr ''to big message''
      else if err = EOB_BADUSAGE then Inr ''invalid cmdline''
      else Inl Abort)"

text \<open>Log levels in the order of \<open>eob_log_lvl\<close>.\<close>

datatype eob_log_lvl = EOB_ERR | EOB_DEBUG | EOB_INFO | EOB_CRIT | EOB_WARNING

fun eob_log_lvl_to_str :: "eob_log_lvl \<Rightarrow> string" where
  "eob_log_lvl_to_str EOB_CRIT = ''CRIT''"
| "eob_log_lvl_to_str EOB_INFO = ''INFO''"
| "eob_log_lvl_to_str EOB_DEBUG = ''DEBUG''"
| "eob_log_lvl_to_str EOB_WARNING = ''WARNING''"
| "eob_log_lvl_to_str EOB_ERR = ''ERROR''"

text \<open>
  \<open>SET_ERR(code)\<close> (and \<open>SET_ERR_TRACE\<close>, \<open>no_memory_trace\<close>) logs \<open>eob_strerror(code)\<close> and
  has the value \<open>code\<close>; the log call evaluates \<open>eob_strerror\<close>, so a code outside the
  enumeration aborts. \<open>SET_IO_ERR()\<close> logs \<open>strerror(errno)\<close> and has the value \<open>EOB_IO\<close>.
\<close>

definition SET_ERR :: "int \<Rightarrow> fault + int" where
  "SET_ERR code = bindr (eob_strerror code) (\<lambda>_. Inr code)"

definition SET_IO_ERR :: int where [simp]: "SET_IO_ERR = EOB_IO"

lemma SET_ERR_known: "code \<in> set eob_codes \<Longrightarrow> SET_ERR code = Inr code"
  by (auto simp: eob_codes_def SET_ERR_def eob_strerror_def)

lemma SET_ERR_simps [simp]:
  "SET_ERR 0 = Inr 0" "SET_ERR 3000 = Inr 3000" "SET_ERR 3001 = Inr 3001"
  "SET_ERR 3002 = Inr 3002" "SET_ERR 3003 = Inr 3003" "SET_ERR 3004 = Inr 3004"
  "SET_ERR 3005 = Inr 3005" "SET_ERR 3006 = Inr 3006" "SET_ERR 3008 = Inr 3008"
  "SET_ERR 12 = Inl Abort"
  by (simp_all add: SET_ERR_def eob_strerror_def)

lemma eob_strerror_defined: "(\<exists>s. eob_strerror err = Inr s) \<longleftrightarrow> err \<in> set eob_codes"
  by (auto simp: eob_strerror_def eob_codes_def)

end
