(* ===== verification/Eob_Log.thy ===== *)
theory Eob_Log
  imports Eob_Errors
begin

text \<open>
  Log output: \<open>src/lib/eob_log.c\<close> of the library and \<open>src/modules/kmod/eoblock_debug.c\<close> of the
  kernel module. The expansion of a format by \<open>vasprintf\<close> is an argument (nothing when memory is
  short); the kernel's \<open>vprintk\<close> gets the format and its arguments, \<open>vprintk_rv\<close> is what it returns.
\<close>

section \<open>Levels as integers\<close>

fun log_lvl_val :: "eob_log_lvl \<Rightarrow> int" where
  "log_lvl_val EOB_ERR = 0"
| "log_lvl_val EOB_DEBUG = 1"
| "log_lvl_val EOB_INFO = 2"
| "log_lvl_val EOB_CRIT = 3"
| "log_lvl_val EOB_WARNING = 4"

definition log_lvl_of :: "int \<Rightarrow> eob_log_lvl option" where
  "log_lvl_of n =
     (if n = 0 then Some EOB_ERR else if n = 1 then Some EOB_DEBUG else if n = 2 then Some EOB_INFO
      else if n = 3 then Some EOB_CRIT else if n = 4 then Some EOB_WARNING else None)"

lemma log_lvl_of_val [simp]: "log_lvl_of (log_lvl_val l) = Some l"
  by (cases l) (simp_all add: log_lvl_of_def)

section \<open>The library\<close>

record log_state =
  eob_log_verbose :: bool
  log_ident :: "string option"
  log_stderr :: "string list"
  log_syslog :: "string list"

definition eob_log_init :: "log_state \<Rightarrow> int \<times> log_state" where
  "eob_log_init l = (0, l\<lparr>log_ident := Some ''eob''\<rparr>)"

definition eob_log_exit :: "log_state \<Rightarrow> log_state" where
  "eob_log_exit l = l"

definition eob_log_set_verbose :: "log_state \<Rightarrow> log_state" where
  "eob_log_set_verbose l = l\<lparr>eob_log_verbose := True\<rparr>"

definition liboblock_init :: "log_state \<Rightarrow> int \<times> log_state" where
  "liboblock_init l = eob_log_init l"

definition liboblock_exit :: "log_state \<Rightarrow> log_state" where
  "liboblock_exit l = eob_log_exit l"

text \<open>The log when a process starts.\<close>

definition log_start :: log_state where
  "log_start = \<lparr>eob_log_verbose = False, log_ident = None, log_stderr = [], log_syslog = []\<rparr>"

text \<open>
  \<open>msg\<close> is the text of \<open>vasprintf\<close>, \<open>mem\<close> tells whether \<open>asprintf\<close> has memory for the line. A
  length of 0 is taken for a failure.
\<close>

definition v_eob_log_write_console :: "int \<Rightarrow> string \<Rightarrow> string option \<Rightarrow> bool \<Rightarrow> log_state \<Rightarrow> fault + int \<times> log_state" where
  "v_eob_log_write_console lvl module msg mem l =
     bindr (case msg of None \<Rightarrow> Inl Abort | Some s \<Rightarrow> if s = [] then Inl Abort else Inr s) (\<lambda>s.
     bindr (case log_lvl_of lvl of None \<Rightarrow> Inl Abort | Some lv \<Rightarrow> Inr (eob_log_lvl_to_str lv)) (\<lambda>t.
     bindr (guard Abort mem) (\<lambda>_.
     let sn = t @ '': '' @ module @ s in
     Inr (0, l\<lparr>log_stderr := log_stderr l @ (if eob_log_verbose l then [sn @ [CHR 0x0A]] else []),
               log_syslog := log_syslog l @ [sn]\<rparr>))))"

definition eob_log_write :: "int \<Rightarrow> string \<Rightarrow> string option \<Rightarrow> bool \<Rightarrow> log_state \<Rightarrow> fault + int \<times> log_state" where
  "eob_log_write lvl module msg mem l = v_eob_log_write_console lvl module msg mem l"

definition eob_log_write_console :: "int \<Rightarrow> string \<Rightarrow> string option \<Rightarrow> bool \<Rightarrow> log_state \<Rightarrow> fault + int \<times> log_state" where
  "eob_log_write_console lvl module msg mem l = v_eob_log_write_console lvl module msg mem l"

lemma eob_log_write_ok:
  "s \<noteq> [] \<Longrightarrow> \<exists>l'. eob_log_write (log_lvl_val lv) module (Some s) True l = Inr (0, l') \<and>
    log_syslog l' = log_syslog l @ [eob_log_lvl_to_str lv @ '': '' @ module @ s] \<and>
    (\<not> eob_log_verbose l \<longrightarrow> log_stderr l' = log_stderr l)"
  by (simp add: eob_log_write_def v_eob_log_write_console_def Let_def)

section \<open>The kernel module\<close>

text \<open>
  \<open>strcpy\<close> and \<open>strcat\<close> into the buffer of 256 characters. For a level that is none of the
  enumeration the prefix is the single character \<open>v\<close>: a string only if that character is the null.
\<close>

definition klog_prefix :: "(eob_log_lvl \<Rightarrow> string) \<Rightarrow> int \<Rightarrow> fault + string" where
  "klog_prefix kern prio =
     (case log_lvl_of prio of Some l \<Rightarrow> Inr (kern l) | None \<Rightarrow> if prio mod 256 = 0 then Inr [] else Inl UB)"

definition buf_strcat :: "string \<Rightarrow> string \<Rightarrow> fault + string" where
  "buf_strcat buf s = bindr (guard UB (length buf + length s < 256)) (\<lambda>_. Inr (buf @ s))"

definition eoblock_vklog ::
    "(eob_log_lvl \<Rightarrow> string) \<Rightarrow> (string \<Rightarrow> 'a \<Rightarrow> int) \<Rightarrow> int \<Rightarrow> string \<Rightarrow> string \<Rightarrow> 'a \<Rightarrow> (string \<times> 'a) list \<Rightarrow>
      fault + int \<times> (string \<times> 'a) list" where
  "eoblock_vklog kern vprintk_rv prio module fmt args klog =
     bindr (klog_prefix kern prio) (\<lambda>p.
     bindr (buf_strcat [] p) (\<lambda>buf. bindr (buf_strcat buf module) (\<lambda>buf. bindr (buf_strcat buf fmt) (\<lambda>buf.
     Inr (vprintk_rv buf args, klog @ [(buf, args)])))))"

text \<open>\<open>(int) prio[0]\<close>; \<open>char\<close> is signed.\<close>

definition first_char :: "string \<Rightarrow> int" where
  "first_char s = (case s of [] \<Rightarrow> 0 | c # _ \<Rightarrow> let n = of_char c in if n < 128 then n else n - 256)"

definition eoblock_printk ::
    "(eob_log_lvl \<Rightarrow> string) \<Rightarrow> (string \<Rightarrow> 'a \<Rightarrow> int) \<Rightarrow> string \<Rightarrow> string \<Rightarrow> string \<Rightarrow> 'a \<Rightarrow> (string \<times> 'a) list \<Rightarrow>
      fault + int \<times> (string \<times> 'a) list" where
  "eoblock_printk kern vprintk_rv prio module fmt args klog =
     eoblock_vklog kern vprintk_rv (first_char prio) module fmt args klog"

definition eoblock_klog ::
    "(eob_log_lvl \<Rightarrow> string) \<Rightarrow> (string \<Rightarrow> 'a \<Rightarrow> int) \<Rightarrow> int \<Rightarrow> string \<Rightarrow> string \<Rightarrow> 'a \<Rightarrow> (string \<times> 'a) list \<Rightarrow>
      fault + int \<times> (string \<times> 'a) list" where
  "eoblock_klog kern vprintk_rv prio module fmt args klog =
     eoblock_vklog kern vprintk_rv prio module fmt args klog"

lemma vklog_fits:
  "klog_prefix kern prio = Inr p \<Longrightarrow>
    eoblock_vklog kern vprintk_rv prio module fmt args klog =
      (if length (p @ module @ fmt) < 256
       then Inr (vprintk_rv (p @ module @ fmt) args, klog @ [(p @ module @ fmt, args)]) else Inl UB)"
  by (auto simp: eoblock_vklog_def buf_strcat_def guard_def)

section \<open>Property\<close>

text \<open>
  C40. \<open>eoblock_klog\<close> puts out exactly one record with the prefix of its level when prefix, module
  and format fit into 255 characters, and overruns its buffer otherwise. \<open>eoblock_printk\<close> takes
  the first character of the kernel's prefix for the level: that character is the same for all
  prefixes, 1, so every message given to it, errors included, comes out at the debug level.
\<close>

theorem klog_levels:
  assumes soh: "kern l = CHR 0x01 # k"
  shows "eoblock_klog kern vprintk_rv (log_lvl_val l) module fmt args klog =
      (if length (kern l @ module @ fmt) < 256
       then Inr (vprintk_rv (kern l @ module @ fmt) args, klog @ [(kern l @ module @ fmt, args)]) else Inl UB) \<and>
    eoblock_printk kern vprintk_rv (kern l) module fmt args klog =
      eoblock_klog kern vprintk_rv (log_lvl_val EOB_DEBUG) module fmt args klog"
proof
  have "klog_prefix kern (log_lvl_val l) = Inr (kern l)" by (simp add: klog_prefix_def)
  then show "eoblock_klog kern vprintk_rv (log_lvl_val l) module fmt args klog =
      (if length (kern l @ module @ fmt) < 256
       then Inr (vprintk_rv (kern l @ module @ fmt) args, klog @ [(kern l @ module @ fmt, args)]) else Inl UB)"
    unfolding eoblock_klog_def by (rule vklog_fits)
  have "first_char (kern l) = log_lvl_val EOB_DEBUG" by (simp add: soh first_char_def)
  then show "eoblock_printk kern vprintk_rv (kern l) module fmt args klog =
      eoblock_klog kern vprintk_rv (log_lvl_val EOB_DEBUG) module fmt args klog"
    by (simp add: eoblock_printk_def eoblock_klog_def)
qed

text \<open>The prefixes of the kernel: the character 1 and the digit of the level.\<close>

fun demo_kern :: "eob_log_lvl \<Rightarrow> string" where
  "demo_kern EOB_CRIT = [CHR 0x01, CHR ''2'']"
| "demo_kern EOB_ERR = [CHR 0x01, CHR ''3'']"
| "demo_kern EOB_WARNING = [CHR 0x01, CHR ''4'']"
| "demo_kern EOB_INFO = [CHR 0x01, CHR ''6'']"
| "demo_kern EOB_DEBUG = [CHR 0x01, CHR ''7'']"

theorem klog_levels_witness:
  "eoblock_printk demo_kern (\<lambda>buf _. int (length buf)) (demo_kern EOB_ERR) ''eob: '' ''%s'' [''x''] [] =
      Inr (9, [([CHR 0x01, CHR ''7''] @ ''eob: %s'', [''x''])])"
  using klog_levels [of demo_kern EOB_ERR "''3''" "\<lambda>buf _. int (length buf)" "''eob: ''" "''%s''" "[''x'']" "[]"]
    klog_levels [of demo_kern EOB_DEBUG "''7''" "\<lambda>buf _. int (length buf)" "''eob: ''" "''%s''" "[''x'']" "[]"]
  by simp

end
