(* ===== verification/Eob_Layout.thy ===== *)
theory Eob_Layout
  imports Eob_Errors
begin

text \<open>
  The packed structures of \<open>src/include/eoblock.h\<close> as records, and their byte images on the
  device (x86-64: little endian, \<open>size_t\<close> and \<open>uint64_t\<close> of 8 bytes). Every structure has an
  encoder, a decoder and a well-formedness condition (the array lengths C fixes in the type);
  the locale \<open>codec\<close> states what a fixed-size layout promises, and each structure is an
  interpretation of it.
\<close>

section \<open>Fixed-size layouts\<close>

locale codec =
  fixes enc :: "'a \<Rightarrow> bytes" and dec :: "bytes \<Rightarrow> 'a" and wf :: "'a \<Rightarrow> bool" and size_of :: nat
  assumes length_enc: "wf x \<Longrightarrow> length (enc x) = size_of"
    and dec_enc: "wf x \<Longrightarrow> dec (enc x) = x"
    and enc_dec: "length bs = size_of \<Longrightarrow> enc (dec bs) = bs"
    and wf_dec: "length bs = size_of \<Longrightarrow> wf (dec bs)"
begin

lemma enc_inj: "wf x \<Longrightarrow> wf y \<Longrightarrow> enc x = enc y \<Longrightarrow> x = y"
  by (metis dec_enc)

lemma dec_inj: "length a = size_of \<Longrightarrow> length b = size_of \<Longrightarrow> dec a = dec b \<Longrightarrow> a = b"
  by (metis enc_dec)

text \<open>A structure written to a store at \<open>off\<close> is read back from there ...\<close>

lemma read_back: "wf x \<Longrightarrow> dec (bslice off size_of (overlay off (enc x) d)) = x"
  by (simp add: bslice_overlay_same length_enc dec_enc)

text \<open>... and survives writes that end before it or start behind it.\<close>

lemma read_other_before:
  "off' + length bs \<le> off \<Longrightarrow>
   dec (bslice off size_of (overlay off' bs d)) = dec (bslice off size_of d)"
  by (simp add: bslice_overlay_after)

lemma read_other_after:
  "off + size_of \<le> off' \<Longrightarrow> off + size_of \<le> length d \<Longrightarrow>
   dec (bslice off size_of (overlay off' bs d)) = dec (bslice off size_of d)"
  by (simp add: bslice_overlay_before)

text \<open>Arrays: the concatenated images of a list of elements.\<close>

lemma length_concat_enc:
  "list_all wf xs \<Longrightarrow> length (concat (map enc xs)) = length xs * size_of"
  by (induction xs) (simp_all add: length_enc)

end

fun chunks :: "nat \<Rightarrow> nat \<Rightarrow> 'a list \<Rightarrow> 'a list list" where
  "chunks w 0 bs = []"
| "chunks w (Suc n) bs = take w bs # chunks w n (drop w bs)"

lemma length_chunks [simp]: "length (chunks w n bs) = n"
  by (induction w n bs rule: chunks.induct) simp_all

lemma chunks_lengths: "length bs = n * w \<Longrightarrow> list_all (\<lambda>c. length c = w) (chunks w n bs)"
  by (induction w n bs rule: chunks.induct) simp_all

lemma concat_chunks: "length bs = n * w \<Longrightarrow> concat (chunks w n bs) = bs"
  by (induction w n bs rule: chunks.induct) simp_all

context codec
begin

lemma dec_chunks_enc:
  "list_all wf xs \<Longrightarrow> length xs = n \<Longrightarrow> map dec (chunks size_of n (concat (map enc xs))) = xs"
proof (induction xs arbitrary: n)
  case Nil
  then show ?case by simp
next
  case (Cons x xs)
  then show ?case by (cases n) (simp_all add: length_enc dec_enc)
qed

lemma enc_dec_chunks:
  "length bs = n * size_of \<Longrightarrow> concat (map enc (map dec (chunks size_of n bs))) = bs"
proof (induction n arbitrary: bs)
  case 0
  then show ?case by simp
next
  case (Suc n)
  then show ?case by (simp add: enc_dec)
qed

lemma wf_dec_chunks: "length bs = n * size_of \<Longrightarrow> list_all wf (map dec (chunks size_of n bs))"
  by (induction n arbitrary: bs) (simp_all add: wf_dec)

end

interpretation le64: codec le64 un_le64 "\<lambda>_. True" 8
  by unfold_locales (simp_all add: le64_un_le64)

interpretation le32: codec le32 un_le32 "\<lambda>_. True" 4
  by unfold_locales (simp_all add: le32_un_le32)


section \<open>Node table entries\<close>

record eob_node_data_phys =
  nd_flags :: u32
  nd_ip_addr :: u32

definition EOB_NODE_PRESENT :: u32 where
  "EOB_NODE_PRESENT = 1"

definition EOB_NODE_IS_PRESENT :: "eob_node_data_phys \<Rightarrow> bool" where
  "EOB_NODE_IS_PRESENT n \<longleftrightarrow> nd_flags n AND EOB_NODE_PRESENT \<noteq> 0"

definition empty_node :: eob_node_data_phys where
  "empty_node = \<lparr>nd_flags = 0, nd_ip_addr = 0\<rparr>"

definition node_bytes :: "eob_node_data_phys \<Rightarrow> bytes" where
  "node_bytes n = le32 (nd_flags n) @ le32 (nd_ip_addr n)"

definition node_of_bytes :: "bytes \<Rightarrow> eob_node_data_phys" where
  "node_of_bytes bs =
     \<lparr>nd_flags = un_le32 (bslice 0 4 bs), nd_ip_addr = un_le32 (bslice 4 4 bs)\<rparr>"

interpretation node: codec node_bytes node_of_bytes "\<lambda>_. True" 8
proof
  fix bs :: bytes
  assume "length bs = 8"
  then have "bs = take 4 bs @ drop 4 bs" and "length (take 4 bs) = 4" and "length (drop 4 bs) = 4"
    by simp_all
  then show "node_bytes (node_of_bytes bs) = bs"
    by (simp add: node_bytes_def node_of_bytes_def bslice_def le32_un_le32)
qed (simp_all add: node_bytes_def node_of_bytes_def bslice_def)

lemma empty_node_absent [simp]: "\<not> EOB_NODE_IS_PRESENT empty_node"
  by (simp add: EOB_NODE_IS_PRESENT_def empty_node_def)

section \<open>Hardware addresses\<close>

text \<open>
  \<open>struct eob_hw_addr\<close> is a union whose largest member \<open>idx\<close> has 10 bytes and whose
  alignment is that of \<open>uint64_t\<close>, so it has 16 bytes; \<open>hw_pad\<close> holds the bytes behind the four
  fields of \<open>idx\<close> (its \<open>__padding\<close> and the padding of the union).
\<close>

record eob_hw_addr =
  hw_node_id :: u8
  hw_nodes_count :: u8
  hw_virt_blk_shift :: u8
  hw_phys_blk_shift :: u8
  hw_pad :: bytes

definition hw_addr_bytes :: "eob_hw_addr \<Rightarrow> bytes" where
  "hw_addr_bytes a =
     [hw_node_id a, hw_nodes_count a, hw_virt_blk_shift a, hw_phys_blk_shift a] @ hw_pad a"

definition hw_addr_of_bytes :: "bytes \<Rightarrow> eob_hw_addr" where
  "hw_addr_of_bytes bs =
     \<lparr>hw_node_id = bs ! 0, hw_nodes_count = bs ! 1, hw_virt_blk_shift = bs ! 2,
      hw_phys_blk_shift = bs ! 3, hw_pad = drop 4 bs\<rparr>"

definition wf_hw_addr :: "eob_hw_addr \<Rightarrow> bool" where
  "wf_hw_addr a \<longleftrightarrow> length (hw_pad a) = 12"

text \<open>\<open>EOB_HW_ADDR_INIT\<close> stores its \<open>int\<close> arguments in bytes; the rest is zero.\<close>

definition EOB_HW_ADDR_INIT :: "int \<Rightarrow> int \<Rightarrow> int \<Rightarrow> int \<Rightarrow> eob_hw_addr" where
  "EOB_HW_ADDR_INIT node_id nodes_count vshift pshift =
     \<lparr>hw_node_id = word_of_int node_id, hw_nodes_count = word_of_int nodes_count,
      hw_virt_blk_shift = word_of_int vshift, hw_phys_blk_shift = word_of_int pshift,
      hw_pad = replicate 12 0\<rparr>"

definition EOB_HW_ADDR_INIT_DEFAULT :: "int \<Rightarrow> int \<Rightarrow> eob_hw_addr" where
  "EOB_HW_ADDR_INIT_DEFAULT node_id nodes_count = EOB_HW_ADDR_INIT node_id nodes_count 9 9"

text \<open>The \<open>int\<close> expression \<open>1 << shift\<close>: undefined when the result does not fit.\<close>

definition int_shl1 :: "u8 \<Rightarrow> fault + int" where
  "int_shl1 s = (if unat s < 31 then Inr (2 ^ unat s) else Inl UB)"

definition EOB_HW_VIRT_BLK_SIZE :: "eob_hw_addr \<Rightarrow> fault + int" where
  "EOB_HW_VIRT_BLK_SIZE hw = int_shl1 (hw_virt_blk_shift hw)"

lemma wf_hw_addr_init [simp]: "wf_hw_addr (EOB_HW_ADDR_INIT n c v p)"
  by (simp add: wf_hw_addr_def EOB_HW_ADDR_INIT_def)

lemma list_4_drop: "4 \<le> length bs \<Longrightarrow> bs ! 0 # bs ! Suc 0 # bs ! 2 # bs ! 3 # drop 4 bs = bs"
  by (auto simp: numeral_eq_Suc Suc_le_length_iff)

interpretation hw: codec hw_addr_bytes hw_addr_of_bytes wf_hw_addr 16
proof
  fix bs :: bytes
  assume len: "length bs = 16"
  then show "hw_addr_bytes (hw_addr_of_bytes bs) = bs"
    by (simp add: hw_addr_bytes_def hw_addr_of_bytes_def list_4_drop)
  from len show "wf_hw_addr (hw_addr_of_bytes bs)"
    by (simp add: wf_hw_addr_def hw_addr_of_bytes_def)
qed (simp_all add: hw_addr_bytes_def hw_addr_of_bytes_def wf_hw_addr_def)

section \<open>The device header\<close>

text \<open>
  \<open>MAX_CLUSTER_SIZE\<close> entries of 8 bytes behind five 64-bit fields: the preamble has 296
  bytes, the padding 208, and the checksum closes the 512 bytes of \<open>struct eob_header\<close>.
\<close>

definition MAX_CLUSTER_SIZE :: nat where [layout_simps]: "MAX_CLUSTER_SIZE = 32"
definition EOB_DEFAULT_BLK_SIZE :: nat where [layout_simps]: "EOB_DEFAULT_BLK_SIZE = 4096"
definition EOB_HDR_SIZE :: nat where [layout_simps]: "EOB_HDR_SIZE = 512"
definition PEAMB_SIZE :: nat where [layout_simps]: "PEAMB_SIZE = 296"

record eob_header =
  h_magic :: u64
  h_version :: u64
  h_phys_blk_size :: u64
  h_virt_blk_size :: u64
  h_nodes_count :: u64
  h_nodes :: "eob_node_data_phys list"
  h_padding :: bytes
  h_chksum :: u64

definition wf_header :: "eob_header \<Rightarrow> bool" where
  "wf_header h \<longleftrightarrow> length (h_nodes h) = 32 \<and> length (h_padding h) = 208"

text \<open>The initializer \<open>{{0}}\<close>.\<close>

definition zero_header :: eob_header where
  "zero_header = \<lparr>h_magic = 0, h_version = 0, h_phys_blk_size = 0, h_virt_blk_size = 0,
     h_nodes_count = 0, h_nodes = replicate 32 empty_node, h_padding = replicate 208 0, h_chksum = 0\<rparr>"

definition peamb_bytes :: "eob_header \<Rightarrow> bytes" where
  "peamb_bytes h =
     le64 (h_magic h) @ le64 (h_version h) @ le64 (h_phys_blk_size h) @ le64 (h_virt_blk_size h) @
     le64 (h_nodes_count h) @ concat (map node_bytes (h_nodes h))"

definition header_bytes :: "eob_header \<Rightarrow> bytes" where
  "header_bytes h = peamb_bytes h @ h_padding h @ le64 (h_chksum h)"

definition header_of_bytes :: "bytes \<Rightarrow> eob_header" where
  "header_of_bytes bs =
     \<lparr>h_magic = un_le64 (bslice 0 8 bs), h_version = un_le64 (bslice 8 8 bs),
      h_phys_blk_size = un_le64 (bslice 16 8 bs), h_virt_blk_size = un_le64 (bslice 24 8 bs),
      h_nodes_count = un_le64 (bslice 32 8 bs),
      h_nodes = map node_of_bytes (chunks 8 32 (bslice 40 256 bs)),
      h_padding = bslice 296 208 bs, h_chksum = un_le64 (bslice 504 8 bs)\<rparr>"

lemma length_concat_node_bytes [simp]: "length (concat (map node_bytes ns)) = 8 * length ns"
  using node.length_concat_enc [of ns] by (simp add: list_all_iff)

lemma length_peamb_bytes: "wf_header h \<Longrightarrow> length (peamb_bytes h) = PEAMB_SIZE"
  by (simp add: peamb_bytes_def wf_header_def layout_simps)

lemma wf_zero_header [simp]: "wf_header zero_header"
  by (simp add: zero_header_def wf_header_def)

lemma header_of_bytes_enc:
  assumes "wf_header h"
  shows "header_of_bytes (header_bytes h) = h"
proof -
  let ?ns = "concat (map node_bytes (h_nodes h))"
  have ns: "map node_of_bytes (chunks 8 32 ?ns) = h_nodes h"
    using assms node.dec_chunks_enc [of "h_nodes h" 32] by (simp add: wf_header_def list_all_iff)
  have len: "length (h_nodes h) = 32" using assms by (simp add: wf_header_def)
  have pad: "length (h_padding h) = 208" using assms by (simp add: wf_header_def)
  show ?thesis
    by (rule eob_header.equality)
      (simp_all add: header_of_bytes_def header_bytes_def peamb_bytes_def bslice_def len pad ns)
qed

lemma bslice_split: "a + b \<le> length bs \<Longrightarrow> bslice 0 a bs @ bslice a b bs = bslice 0 (a + b) bs"
  by (simp add: bslice_def take_add)

lemma bslice_app: "bslice o1 a bs @ bslice (o1 + a) b bs = bslice o1 (a + b) bs"
  by (simp add: bslice_def take_add add.commute)

lemma header_bytes_dec:
  assumes "length bs = 512"
  shows "header_bytes (header_of_bytes bs) = bs"
proof -
  have ns: "concat (map node_bytes (map node_of_bytes (chunks 8 32 (bslice 40 256 bs)))) =
      bslice 40 256 bs"
    using assms by (intro node.enc_dec_chunks) simp
  have "header_bytes (header_of_bytes bs) =
      bslice 0 8 bs @ bslice 8 8 bs @ bslice 16 8 bs @ bslice 24 8 bs @ bslice 32 8 bs @
      bslice 40 256 bs @ bslice 296 208 bs @ bslice 504 8 bs"
    using assms ns by (simp add: header_bytes_def peamb_bytes_def header_of_bytes_def le64_un_le64 o_def)
  also have "\<dots> = bslice 0 512 bs"
    using bslice_app [of 296 208 bs 8] bslice_app [of 40 256 bs 216] bslice_app [of 32 8 bs 472]
      bslice_app [of 24 8 bs 480] bslice_app [of 16 8 bs 488] bslice_app [of 8 8 bs 496]
      bslice_app [of 0 8 bs 504] by simp
  finally show ?thesis using assms by (simp add: bslice_0_all)
qed

interpretation header: codec header_bytes header_of_bytes wf_header EOB_HDR_SIZE
proof
  fix h assume "wf_header h"
  then show "length (header_bytes h) = EOB_HDR_SIZE"
    by (simp add: header_bytes_def length_peamb_bytes wf_header_def layout_simps)
qed (simp_all add: header_of_bytes_enc header_bytes_dec layout_simps,
     simp add: header_of_bytes_def wf_header_def)

section \<open>Packets\<close>

text \<open>
  Head (source address and data length, 24 bytes), data, tail (checksum, 8 bytes); the data
  array of \<open>struct eob_packet_512\<close>, \<open>_4k\<close>, \<open>_8k\<close> and \<open>_16k\<close> fills the packet to its block size.
\<close>

record eob_packet_head =
  ph_src_addr :: eob_hw_addr
  ph_data_len :: u64

definition wf_packet_head :: "eob_packet_head \<Rightarrow> bool" where
  "wf_packet_head p \<longleftrightarrow> wf_hw_addr (ph_src_addr p)"

definition packet_head_bytes :: "eob_packet_head \<Rightarrow> bytes" where
  "packet_head_bytes p = hw_addr_bytes (ph_src_addr p) @ le64 (ph_data_len p)"

definition packet_head_of_bytes :: "bytes \<Rightarrow> eob_packet_head" where
  "packet_head_of_bytes bs =
     \<lparr>ph_src_addr = hw_addr_of_bytes (bslice 0 16 bs), ph_data_len = un_le64 (bslice 16 8 bs)\<rparr>"

interpretation packet_head: codec packet_head_bytes packet_head_of_bytes wf_packet_head 24
proof
  fix bs :: bytes
  assume len: "length bs = 24"
  then have "packet_head_bytes (packet_head_of_bytes bs) = bslice 0 16 bs @ bslice 16 8 bs"
    by (simp add: packet_head_bytes_def packet_head_of_bytes_def hw.enc_dec le64_un_le64)
  then show "packet_head_bytes (packet_head_of_bytes bs) = bs"
    using len by (simp add: bslice_split bslice_0_all)
  from len show "wf_packet_head (packet_head_of_bytes bs)"
    by (simp add: wf_packet_head_def packet_head_of_bytes_def hw.wf_dec)
next
  fix p assume "wf_packet_head p"
  then have wf: "wf_hw_addr (ph_src_addr p)" by (simp add: wf_packet_head_def)
  then show "length (packet_head_bytes p) = 24"
    by (simp add: packet_head_bytes_def hw.length_enc)
  show "packet_head_of_bytes (packet_head_bytes p) = p"
    using wf by (simp add: packet_head_of_bytes_def packet_head_bytes_def bslice_append_left
        bslice_append_right hw.length_enc hw.dec_enc bslice_0_all)
qed

definition EOB_PKT_NDATA_LEN :: nat where [layout_simps]: "EOB_PKT_NDATA_LEN = 32"

record eob_packet_blk =
  pk_head :: eob_packet_head
  pk_data :: bytes
  pk_chksum :: u64

definition pkt_data_size :: "nat \<Rightarrow> nat" where
  "pkt_data_size blk = blk - EOB_PKT_NDATA_LEN"

definition wf_packet :: "nat \<Rightarrow> eob_packet_blk \<Rightarrow> bool" where
  "wf_packet blk p \<longleftrightarrow> wf_packet_head (pk_head p) \<and> length (pk_data p) = pkt_data_size blk"

definition packet_bytes :: "eob_packet_blk \<Rightarrow> bytes" where
  "packet_bytes p = packet_head_bytes (pk_head p) @ pk_data p @ le64 (pk_chksum p)"

definition packet_of_bytes :: "nat \<Rightarrow> bytes \<Rightarrow> eob_packet_blk" where
  "packet_of_bytes blk bs =
     \<lparr>pk_head = packet_head_of_bytes (bslice 0 24 bs), pk_data = bslice 24 (pkt_data_size blk) bs,
      pk_chksum = un_le64 (bslice (blk - 8) 8 bs)\<rparr>"

lemma packet_codec:
  assumes "EOB_PKT_NDATA_LEN \<le> blk"
  shows "codec packet_bytes (packet_of_bytes blk) (wf_packet blk) blk"
proof
  fix p assume "wf_packet blk p"
  then have h: "length (packet_head_bytes (pk_head p)) = 24" "wf_packet_head (pk_head p)"
    and d: "length (pk_data p) = blk - 32"
    by (simp_all add: wf_packet_def pkt_data_size_def layout_simps packet_head.length_enc)
  show "length (packet_bytes p) = blk"
    using assms by (simp add: packet_bytes_def h d layout_simps)
  show "packet_of_bytes blk (packet_bytes p) = p"
    using assms h d by (simp add: packet_of_bytes_def packet_bytes_def bslice_def pkt_data_size_def
        layout_simps packet_head.dec_enc)
next
  fix bs :: bytes
  assume len: "length bs = blk"
  have "packet_bytes (packet_of_bytes blk bs) = bslice 0 24 bs @ bslice 24 (blk - 32) bs @ bslice (blk - 8) 8 bs"
    using assms len by (simp add: packet_bytes_def packet_of_bytes_def pkt_data_size_def layout_simps
        packet_head.enc_dec le64_un_le64)
  also have "\<dots> = bs"
    using assms len bslice_app [of 24 "blk - 32" bs 8] bslice_app [of 0 24 bs "blk - 24"]
    by (simp add: layout_simps bslice_0_all)
  finally show "packet_bytes (packet_of_bytes blk bs) = bs" .
  show "wf_packet blk (packet_of_bytes blk bs)"
    using assms len by (simp add: wf_packet_def packet_of_bytes_def pkt_data_size_def layout_simps
        packet_head.wf_dec)
qed

interpretation packet_512: codec packet_bytes "packet_of_bytes 512" "wf_packet 512" 512
  by (rule packet_codec) (simp add: layout_simps)

interpretation packet_4k: codec packet_bytes "packet_of_bytes 4096" "wf_packet 4096" 4096
  by (rule packet_codec) (simp add: layout_simps)

interpretation packet_8k: codec packet_bytes "packet_of_bytes 8192" "wf_packet 8192" 8192
  by (rule packet_codec) (simp add: layout_simps)

interpretation packet_16k: codec packet_bytes "packet_of_bytes 16384" "wf_packet 16384" 16384
  by (rule packet_codec) (simp add: layout_simps)

end
