(* ===== verification/Eob_Chksum.thy ===== *)
theory Eob_Chksum
  imports Eob_Layout
begin

text \<open>
  \<open>src/lib/chksum.c\<close>. zlib's \<open>crc32(0, data, len)\<close> is not part of the repository: it is the
  parameter \<open>crc\<close> of every definition that uses it, a function from the bytes to 32 bits.
\<close>

type_synonym crc_fn = "bytes \<Rightarrow> u32"

definition eob_header_chksum_is_ok :: "crc_fn \<Rightarrow> eob_header \<Rightarrow> boolean_t" where
  "eob_header_chksum_is_ok crc hdr =
     (if (ucast (crc (peamb_bytes hdr)) :: u64) = h_chksum hdr then B_TRUE else B_FALSE)"

definition eob_header_chksum_calc :: "crc_fn \<Rightarrow> eob_header \<Rightarrow> eob_header" where
  "eob_header_chksum_calc crc hdr = hdr\<lparr>h_chksum := ucast (crc (peamb_bytes hdr))\<rparr>"

definition eob_chcksum_calc :: "crc_fn \<Rightarrow> bytes \<Rightarrow> u64" where
  "eob_chcksum_calc crc data = ucast (crc data)"

lemma peamb_bytes_chksum [simp]: "peamb_bytes (h\<lparr>h_chksum := c\<rparr>) = peamb_bytes h"
  by (simp add: peamb_bytes_def)

lemma chksum_calc_ok [simp]: "eob_header_chksum_is_ok crc (eob_header_chksum_calc crc h) = B_TRUE"
  by (simp add: eob_header_chksum_is_ok_def eob_header_chksum_calc_def)

lemma wf_chksum_calc [simp]: "wf_header (eob_header_chksum_calc crc h) = wf_header h"
  by (simp add: eob_header_chksum_calc_def wf_header_def)

lemma chksum_calc_fields [simp]:
  "h_magic (eob_header_chksum_calc crc h) = h_magic h"
  "h_version (eob_header_chksum_calc crc h) = h_version h"
  "h_phys_blk_size (eob_header_chksum_calc crc h) = h_phys_blk_size h"
  "h_virt_blk_size (eob_header_chksum_calc crc h) = h_virt_blk_size h"
  "h_nodes_count (eob_header_chksum_calc crc h) = h_nodes_count h"
  "h_nodes (eob_header_chksum_calc crc h) = h_nodes h"
  "h_padding (eob_header_chksum_calc crc h) = h_padding h"
  by (simp_all add: eob_header_chksum_calc_def)

lemma chksum_is_ok_iff:
  "eob_header_chksum_is_ok crc h = B_TRUE \<longleftrightarrow> h_chksum h = ucast (crc (peamb_bytes h))"
  by (auto simp: eob_header_chksum_is_ok_def)

end
