(* ===== verification/Eob_World.thy ===== *)
theory Eob_World
  imports Eob_Layout
begin

text \<open>
  What the library uses of the C library and the kernel: the shared device, allocation and
  \<open>memcpy\<close>; and the \<open>struct iovec\<close> helpers of \<open>src/lib/liboblock.c\<close> built on them.

  The world holds the bytes of the shared device (or file) and two oracles. \<open>w_sched\<close> lists
  what happens at the successive system calls on the device: \<open>Quiet\<close> lets the call act alone,
  \<open>Io_error\<close> makes it return -1, \<open>Short k\<close> transfers at most \<open>k\<close> bytes, \<open>Peer_write\<close> has
  another node of the cluster write to the device just before. \<open>w_mallocs\<close> lists which
  allocations succeed. An exhausted oracle means \<open>Quiet\<close> and success, so every theorem about
  an arbitrary world covers every finite behaviour of the environment. Fresh memory from
  \<open>malloc\<close> has the arbitrary content \<open>w_junk\<close>.
\<close>

section \<open>The device and the allocator\<close>

datatype io_event = Quiet | Io_error | Short nat | Peer_write nat bytes

record eob_world =
  w_disk :: bytes
  w_sched :: "io_event list"
  w_mallocs :: "bool list"
  w_junk :: "nat \<Rightarrow> u8"

fun next_event :: "eob_world \<Rightarrow> io_event \<times> eob_world" where
  "next_event w = (case w_sched w of [] \<Rightarrow> (Quiet, w) | e # es \<Rightarrow> (e, w\<lparr>w_sched := es\<rparr>))"

text \<open>\<open>pread\<close>, \<open>preadv\<close>: the bytes transferred, or \<open>None\<close> for -1. A negative \<open>off_t\<close> is an error.\<close>

definition sys_pread :: "nat \<Rightarrow> u64 \<Rightarrow> eob_world \<Rightarrow> bytes option \<times> eob_world" where
  "sys_pread n off w =
     (let (e, w) = next_event w in
      if sint off < 0 then (None, w)
      else case e of
        Quiet \<Rightarrow> (Some (bslice (unat off) n (w_disk w)), w)
      | Io_error \<Rightarrow> (None, w)
      | Short k \<Rightarrow> (Some (bslice (unat off) (min k n) (w_disk w)), w)
      | Peer_write o' bs \<Rightarrow>
          (let w = w\<lparr>w_disk := overlay o' bs (w_disk w)\<rparr>
           in (Some (bslice (unat off) n (w_disk w)), w)))"

text \<open>\<open>pwrite\<close>, \<open>pwritev\<close>: the number of bytes written, or \<open>None\<close> for -1.\<close>

definition sys_pwrite :: "bytes \<Rightarrow> u64 \<Rightarrow> eob_world \<Rightarrow> nat option \<times> eob_world" where
  "sys_pwrite bs off w =
     (let (e, w) = next_event w in
      if sint off < 0 then (None, w)
      else case e of
        Quiet \<Rightarrow> (Some (length bs), w\<lparr>w_disk := overlay (unat off) bs (w_disk w)\<rparr>)
      | Io_error \<Rightarrow> (None, w)
      | Short k \<Rightarrow> (Some (min k (length bs)), w\<lparr>w_disk := overlay (unat off) (take k bs) (w_disk w)\<rparr>)
      | Peer_write o' bs' \<Rightarrow>
          (Some (length bs), w\<lparr>w_disk := overlay (unat off) bs (overlay o' bs' (w_disk w))\<rparr>))"

text \<open>\<open>malloc\<close> and \<open>calloc\<close>.\<close>

fun malloc_ok :: "eob_world \<Rightarrow> bool \<times> eob_world" where
  "malloc_ok w = (case w_mallocs w of [] \<Rightarrow> (True, w) | b # bs \<Rightarrow> (b, w\<lparr>w_mallocs := bs\<rparr>))"

definition junk_bytes :: "nat \<Rightarrow> eob_world \<Rightarrow> bytes" where
  "junk_bytes n w = map (w_junk w) [0..<n]"

definition sys_malloc :: "nat \<Rightarrow> eob_world \<Rightarrow> bytes option \<times> eob_world" where
  "sys_malloc n w = (let (ok, w) = malloc_ok w in (if ok then Some (junk_bytes n w) else None, w))"

text \<open>Retrying until an allocation succeeds consumes the failures at the front of the oracle.\<close>

fun malloc_retry :: "bool list \<Rightarrow> bool list" where
  "malloc_retry [] = []"
| "malloc_retry (True # bs) = bs"
| "malloc_retry (False # bs) = malloc_retry bs"

definition malloc_until_ok :: "eob_world \<Rightarrow> eob_world" where
  "malloc_until_ok w = w\<lparr>w_mallocs := malloc_retry (w_mallocs w)\<rparr>"

text \<open>Dereference of a pointer that may be null, and \<open>memcpy(dst + off, src, n)\<close>.\<close>

definition c_deref :: "'a option \<Rightarrow> fault + 'a" where
  "c_deref p = (case p of None \<Rightarrow> Inl UB | Some x \<Rightarrow> Inr x)"

definition c_memcpy :: "bytes \<Rightarrow> nat \<Rightarrow> bytes \<Rightarrow> nat \<Rightarrow> fault + bytes" where
  "c_memcpy dst off src n =
     bindr (guard UB (off + n \<le> length dst \<and> n \<le> length src)) (\<lambda>_.
     Inr (overlay off (take n src) dst))"

lemma c_deref_simps [simp]: "c_deref None = Inl UB" "c_deref (Some x) = Inr x"
  by (simp_all add: c_deref_def)

section \<open>struct iovec\<close>

text \<open>
  \<open>iov_base\<close> is null or points to a buffer, of which the list holds all the bytes that may be
  accessed; \<open>iov_len\<close> is the length field, which may differ from the size of the buffer.
\<close>

record iovec =
  iov_base :: "bytes option"
  iov_len :: nat

definition eob_iovec_alloc :: "iovec \<Rightarrow> eob_world \<Rightarrow> fault + int \<times> iovec \<times> eob_world" where
  "eob_iovec_alloc v w =
     (let (p, w) = sys_malloc (iov_len v) w; v = v\<lparr>iov_base := p\<rparr>
      in if p = None then bindr (SET_ERR EOB_NOMEM) (\<lambda>rv. Inr (rv, v, w)) else Inr (0, v, w))"

definition eob_iovec_copy :: "iovec \<Rightarrow> iovec \<Rightarrow> eob_world \<Rightarrow> fault + int \<times> iovec \<times> eob_world" where
  "eob_iovec_copy to from w =
     bindr (eob_iovec_alloc (to\<lparr>iov_len := iov_len from\<rparr>) w) (\<lambda>(rv, to, w).
     if rv \<noteq> 0 then bindr (SET_ERR EOB_NOMEM) (\<lambda>rv. Inr (rv, to, w))
     else
       bindr (c_deref (iov_base to)) (\<lambda>dst.
       bindr (c_deref (iov_base from)) (\<lambda>src.
       bindr (c_memcpy dst 0 src (iov_len to)) (\<lambda>dst.
       Inr (0, to\<lparr>iov_base := Some dst\<rparr>, w)))))"

definition memdup :: "bytes \<Rightarrow> eob_world \<Rightarrow> bytes option \<times> eob_world" where
  "memdup data w =
     (let (r, w) = sys_malloc (length data) w in (if r = None then None else Some data, w))"

text \<open>
  \<open>eob_iovec_alloc_wait\<close> retries until \<open>malloc\<close> succeeds. No allocation above
  \<open>PTRDIFF_MAX\<close> ever succeeds, so for such a length the loop does not end.
\<close>

definition alloc_wait :: "bytes \<Rightarrow> iovec \<Rightarrow> eob_world \<Rightarrow> fault + iovec \<times> eob_world" where
  "alloc_wait content v w =
     bindr (verify (iov_len v > 0)) (\<lambda>_.
     bindr (guard Hang (iov_len v < 2 ^ 63)) (\<lambda>_.
     Inr (v\<lparr>iov_base := Some content\<rparr>, malloc_until_ok w)))"

definition eob_iovec_alloc_wait :: "iovec \<Rightarrow> eob_world \<Rightarrow> fault + iovec \<times> eob_world" where
  "eob_iovec_alloc_wait v w = alloc_wait (junk_bytes (iov_len v) w) v w"

definition eob_iovec_calloc_wait :: "iovec \<Rightarrow> eob_world \<Rightarrow> fault + iovec \<times> eob_world" where
  "eob_iovec_calloc_wait v w = alloc_wait (replicate (iov_len v) 0) v w"

definition eob_iovec_free :: "iovec \<Rightarrow> iovec" where
  "eob_iovec_free v = v\<lparr>iov_base := None, iov_len := 0\<rparr>"

section \<open>How the steps act\<close>

lemma length_junk_bytes [simp]: "length (junk_bytes n w) = n"
  by (simp add: junk_bytes_def)

text \<open>A world in which no further system call on the device is disturbed.\<close>

definition quiet :: "eob_world \<Rightarrow> bool" where
  "quiet w \<longleftrightarrow> set (w_sched w) \<subseteq> {Quiet}"

lemma quiet_next_event: "quiet w \<Longrightarrow> \<exists>w'. next_event w = (Quiet, w') \<and> w_disk w' = w_disk w \<and>
    w_mallocs w' = w_mallocs w \<and> w_junk w' = w_junk w \<and> quiet w'"
  by (auto simp: quiet_def split: list.splits)

lemma quiet_pread:
  assumes "quiet w" and "0 \<le> sint off"
  obtains w' where "sys_pread n off w = (Some (bslice (unat off) n (w_disk w)), w')"
    and "w_disk w' = w_disk w" and "w_mallocs w' = w_mallocs w" and "w_junk w' = w_junk w" and "quiet w'"
  using quiet_next_event [OF assms(1)] assms(2)
  by (auto simp: sys_pread_def simp del: next_event.simps)

lemma quiet_pwrite:
  assumes "quiet w" and "0 \<le> sint off"
  obtains w' where "sys_pwrite bs off w = (Some (length bs), w')"
    and "w_disk w' = overlay (unat off) bs (w_disk w)" and "w_mallocs w' = w_mallocs w"
    and "w_junk w' = w_junk w" and "quiet w'"
proof -
  obtain w1 where w1: "next_event w = (Quiet, w1)" "w_disk w1 = w_disk w"
    "w_mallocs w1 = w_mallocs w" "w_junk w1 = w_junk w" "quiet w1"
    using quiet_next_event [OF assms(1)] by blast
  show thesis
    by (rule that [of "w1\<lparr>w_disk := overlay (unat off) bs (w_disk w)\<rparr>"])
      (use w1 assms(2) in \<open>simp_all add: sys_pwrite_def quiet_def del: next_event.simps\<close>)
qed

lemma malloc_until_ok_simps [simp]:
  "w_disk (malloc_until_ok w) = w_disk w"
  "w_sched (malloc_until_ok w) = w_sched w"
  "w_junk (malloc_until_ok w) = w_junk w"
  "quiet (malloc_until_ok w) = quiet w"
  by (simp_all add: malloc_until_ok_def quiet_def)

lemma malloc_until_ok_none [simp]: "w_mallocs w = [] \<Longrightarrow> malloc_until_ok w = w"
  by (simp add: malloc_until_ok_def)

text \<open>The retry loop, written as the loop it is: it stops at the first success.\<close>

lemma malloc_until_ok_unfold:
  "malloc_until_ok w = (let (ok, w') = malloc_ok w in if ok then w' else malloc_until_ok w')"
  by (cases "w_mallocs w" rule: malloc_retry.cases) (auto simp: malloc_until_ok_def)

lemma eob_iovec_alloc_wait_ok [simp]:
  "0 < iov_len v \<Longrightarrow> iov_len v < 2 ^ 63 \<Longrightarrow>
   eob_iovec_alloc_wait v w = Inr (v\<lparr>iov_base := Some (junk_bytes (iov_len v) w)\<rparr>, malloc_until_ok w)"
  by (simp add: eob_iovec_alloc_wait_def alloc_wait_def)

lemma eob_iovec_calloc_wait_ok [simp]:
  "0 < iov_len v \<Longrightarrow> iov_len v < 2 ^ 63 \<Longrightarrow>
   eob_iovec_calloc_wait v w = Inr (v\<lparr>iov_base := Some (replicate (iov_len v) 0)\<rparr>, malloc_until_ok w)"
  by (simp add: eob_iovec_calloc_wait_def alloc_wait_def)

lemma c_memcpy_ok [simp]:
  "off + n \<le> length dst \<Longrightarrow> n \<le> length src \<Longrightarrow>
   c_memcpy dst off src n = Inr (overlay off (take n src) dst)"
  by (simp add: c_memcpy_def)

lemma c_memcpy_over [simp]: "length dst < off + n \<Longrightarrow> c_memcpy dst off src n = Inl UB"
  by (simp add: c_memcpy_def)

lemma sys_malloc_ok [simp]: "w_mallocs w = [] \<Longrightarrow> sys_malloc n w = (Some (junk_bytes n w), w)"
  by (simp add: sys_malloc_def)

end
