(* ===== verification/Eob_Header.thy ===== *)
theory Eob_Header
  imports Eob_Chksum Eob_World Eob_Bits
begin

text \<open>
  Reading and writing the device header, and the header operations behind
  \<open>iface init\<close>, \<open>deinit\<close>, \<open>add\<close> and \<open>remove\<close>: \<open>eob_write_header\<close>, \<open>eob_read_header\<close>, their
  twins on \<open>struct eob_device\<close>, and \<open>eob_hdr_init\<close>, \<open>eob_hdr_deinit\<close>, \<open>eob_hdr_add_device\<close>,
  \<open>eob_hdr_rem_device\<close> of \<open>src/lib/liboblock.c\<close>. An operation takes the world and gives the
  return code and the world after it.
\<close>

definition EOB_HDR_VERSION :: u64 where [layout_simps]: "EOB_HDR_VERSION = 2"
definition EOB_HDR_MAGIC :: u64 where [layout_simps]: "EOB_HDR_MAGIC = 0xe0b10c3003"
definition eob_header_offset :: u64 where [layout_simps]: "eob_header_offset = 0"

section \<open>Plain descriptors\<close>

definition eob_write_header :: "int \<Rightarrow> eob_header \<Rightarrow> eob_world \<Rightarrow> fault + int \<times> eob_world" where
  "eob_write_header fd hdr w =
     bindr (verify (fd > 0)) (\<lambda>_.
     bindr (verify (unat (h_phys_blk_size hdr) \<ge> EOB_HDR_SIZE)) (\<lambda>_.
     bindr (eob_iovec_calloc_wait \<lparr>iov_base = None, iov_len = unat (h_phys_blk_size hdr)\<rparr> w) (\<lambda>(buf, w).
     bindr (c_deref (iov_base buf)) (\<lambda>dst.
     bindr (c_memcpy dst 0 (header_bytes hdr) EOB_HDR_SIZE) (\<lambda>dst.
     let (rv, w) = sys_pwrite dst eob_header_offset w in
     if rv = None then Inr (SET_IO_ERR, w) else Inr (0, w))))))"

text \<open>
  One pass of the read loop: \<open>Some\<close> is a \<open>return\<close>, \<open>None\<close> goes on to the next pass. A read
  replaces the bytes it got and leaves the rest of \<open>*hdr\<close> as it was.
\<close>

definition read_header_pass ::
    "crc_fn \<Rightarrow> eob_header \<Rightarrow> eob_world \<Rightarrow> int option \<times> eob_header \<times> eob_world" where
  "read_header_pass crc hdr w =
     (let (rv, w) = sys_pread EOB_HDR_SIZE eob_header_offset w in
      case rv of
        None \<Rightarrow> (Some SET_IO_ERR, hdr, w)
      | Some bs \<Rightarrow>
          (let hdr = header_of_bytes (overlay 0 bs (header_bytes hdr)) in
           if eob_header_chksum_is_ok crc hdr = B_TRUE then
             if h_magic hdr = EOB_HDR_MAGIC then
               if h_version hdr \<noteq> EOB_HDR_VERSION then (Some EOB_VER_MISM, hdr, w)
               else (Some EOB_OK, hdr, w)
             else (None, hdr, w)
           else (None, hdr, w)))"

fun read_header_loop ::
    "crc_fn \<Rightarrow> nat \<Rightarrow> eob_header \<Rightarrow> eob_world \<Rightarrow> int \<times> eob_header \<times> eob_world" where
  "read_header_loop crc 0 hdr w = (EOB_CHKSUM, hdr, w)"
| "read_header_loop crc (Suc n) hdr w =
     (case read_header_pass crc hdr w of
        (Some rv, hdr, w) \<Rightarrow> (rv, hdr, w)
      | (None, hdr, w) \<Rightarrow> read_header_loop crc n hdr w)"

definition max_pass :: nat where "max_pass = 10"

definition eob_read_header ::
    "crc_fn \<Rightarrow> int \<Rightarrow> eob_header \<Rightarrow> eob_world \<Rightarrow> fault + int \<times> eob_header \<times> eob_world" where
  "eob_read_header crc fd hdr w =
     bindr (verify (fd > 0)) (\<lambda>_. Inr (read_header_loop crc max_pass hdr w))"

section \<open>Devices\<close>

record eob_device =
  d_addr :: eob_hw_addr
  d_path :: string
  d_fd :: int
  d_hdr :: eob_header
  d_phys_buff :: iovec

definition eob_device_write_header ::
    "eob_device \<Rightarrow> eob_header \<Rightarrow> eob_world \<Rightarrow> fault + int \<times> eob_device \<times> eob_world" where
  "eob_device_write_header dev hdr w =
     bindr (verify (d_fd dev > 0)) (\<lambda>_.
     bindr (verify (iov_len (d_phys_buff dev) = unat (h_phys_blk_size hdr))) (\<lambda>_.
     bindr (c_deref (iov_base (d_phys_buff dev))) (\<lambda>buf.
     let buf = (if unat (h_phys_blk_size (d_hdr dev)) > EOB_HDR_SIZE
                then replicate (length buf) 0 else buf) in
     bindr (c_memcpy buf 0 (header_bytes hdr) EOB_HDR_SIZE) (\<lambda>buf.
     let dev = dev\<lparr>d_phys_buff := (d_phys_buff dev)\<lparr>iov_base := Some buf\<rparr>\<rparr>;
         (rv, w) = sys_pwrite buf eob_header_offset w in
     if rv = None then Inr (SET_IO_ERR, dev, w) else Inr (0, dev, w)))))"

definition eob_device_read_header ::
    "crc_fn \<Rightarrow> eob_device \<Rightarrow> eob_header \<Rightarrow> eob_world \<Rightarrow> fault + int \<times> eob_header \<times> eob_world" where
  "eob_device_read_header crc dev hdr w =
     bindr (verify (d_fd dev > 0)) (\<lambda>_. Inr (read_header_loop crc max_pass hdr w))"

section \<open>Header operations\<close>

text \<open>
  The \<open>int\<close> arguments are 32-bit words; converting one to \<open>uint64_t\<close> sign-extends it
  (\<open>scast\<close>). \<open>P2PHASE(virt, phys)\<close> is computed at \<open>int\<close>, so \<open>phys - 1\<close> must not underflow.
\<close>

definition eob_hdr_init ::
    "crc_fn \<Rightarrow> int \<Rightarrow> u32 \<Rightarrow> u32 \<Rightarrow> u32 \<Rightarrow> int \<Rightarrow> eob_world \<Rightarrow> fault + int \<times> eob_world" where
  "eob_hdr_init crc fd nodes_count virt_blk_size phys_blk_size force w =
     (let nodes_count = (if nodes_count = 0 then word_of_nat MAX_CLUSTER_SIZE else nodes_count);
          virt_blk_size = (if virt_blk_size = 0 then word_of_nat EOB_DEFAULT_BLK_SIZE else virt_blk_size);
          phys_blk_size = (if phys_blk_size = 0 then word_of_nat EOB_DEFAULT_BLK_SIZE else phys_blk_size)
      in
      bindr (verify ((scast phys_blk_size :: u64) \<le> scast virt_blk_size)) (\<lambda>_.
      bindr (guard UB (phys_blk_size \<noteq> 0x80000000)) (\<lambda>_.
      bindr (verify (P2PHASE virt_blk_size phys_blk_size = 0)) (\<lambda>_.
      let hdr = zero_header\<lparr>h_nodes_count := scast nodes_count, h_virt_blk_size := scast virt_blk_size,
                  h_phys_blk_size := scast phys_blk_size, h_version := EOB_HDR_VERSION,
                  h_magic := EOB_HDR_MAGIC\<rparr>;
          hdr = eob_header_chksum_calc crc hdr in
      bindr (eob_write_header fd hdr w) (\<lambda>(rv, w).
      if rv \<noteq> 0 then bindr (SET_ERR rv) (\<lambda>rv. Inr (rv, w)) else Inr (0, w))))))"

definition eob_hdr_deinit :: "int \<Rightarrow> eob_world \<Rightarrow> fault + int \<times> eob_world" where
  "eob_hdr_deinit fd w =
     (let (rv, w) = sys_pwrite (header_bytes zero_header) eob_header_offset w in
      if rv = None then Inr (SET_IO_ERR, w) else Inr (0, w))"

text \<open>\<open>hdr.h.nodes[i]\<close>: an index outside the array is undefined behaviour.\<close>

definition node_get :: "eob_header \<Rightarrow> u64 \<Rightarrow> fault + eob_node_data_phys" where
  "node_get hdr i = (if unat i < MAX_CLUSTER_SIZE then Inr (h_nodes hdr ! unat i) else Inl UB)"

definition node_set :: "eob_header \<Rightarrow> u64 \<Rightarrow> eob_node_data_phys \<Rightarrow> fault + eob_header" where
  "node_set hdr i n =
     (if unat i < MAX_CLUSTER_SIZE then Inr (hdr\<lparr>h_nodes := (h_nodes hdr)[unat i := n]\<rparr>) else Inl UB)"

definition eob_hdr_add_device ::
    "crc_fn \<Rightarrow> int \<Rightarrow> u32 \<Rightarrow> eob_node_data_phys \<Rightarrow> int \<Rightarrow> eob_world \<Rightarrow> fault + int \<times> eob_world" where
  "eob_hdr_add_device crc fd node_id data force w =
     bindr (eob_read_header crc fd zero_header w) (\<lambda>(rv, hdr, w).
     if rv \<noteq> 0 then bindr (SET_ERR rv) (\<lambda>rv. Inr (rv, w))
     else if (scast node_id :: u64) \<ge> h_nodes_count hdr then
       bindr (SET_ERR EOB_INVAL) (\<lambda>rv. Inr (rv, w))
     else
       bindr (if force = 0 then bindr (node_get hdr (scast node_id)) (\<lambda>n. Inr (EOB_NODE_IS_PRESENT n))
              else Inr False) (\<lambda>present.
       if present then bindr (SET_ERR EOB_INVAL) (\<lambda>rv. Inr (rv, w))
       else
         bindr (node_set hdr (scast node_id) data) (\<lambda>hdr.
         let hdr = eob_header_chksum_calc crc hdr in
         bindr (eob_write_header fd hdr w) (\<lambda>(rv, w).
         if rv \<noteq> 0 then bindr (SET_ERR rv) (\<lambda>rv. Inr (rv, w)) else Inr (0, w)))))"

definition eob_hdr_rem_device :: "crc_fn \<Rightarrow> int \<Rightarrow> u32 \<Rightarrow> eob_world \<Rightarrow> fault + int \<times> eob_world" where
  "eob_hdr_rem_device crc fd node_id w =
     bindr (eob_read_header crc fd zero_header w) (\<lambda>(rv, hdr, w).
     if rv \<noteq> 0 then bindr (SET_ERR rv) (\<lambda>rv. Inr (rv, w))
     else
       bindr (node_get hdr (scast node_id)) (\<lambda>n.
       if \<not> EOB_NODE_IS_PRESENT n then Inr (0, w)
       else
         bindr (node_set hdr (scast node_id) empty_node) (\<lambda>hdr.
         let hdr = eob_header_chksum_calc crc hdr in
         bindr (eob_write_header fd hdr w) (\<lambda>(rv, w).
         if rv \<noteq> 0 then bindr (SET_ERR rv) (\<lambda>rv. Inr (rv, w)) else Inr (0, w)))))"

end
