(* ===== verification/Eob_Header_Spec.thy ===== *)
theory Eob_Header_Spec
  imports Eob_Header
begin

text \<open>
  What the header operations promise. \<open>hdr_state\<close> is the abstract state of a device: the
  header its first 512 bytes hold, when checksum, magic and version are right. The locale
  \<open>header_store\<close> is the contract between the reading and writing primitives and the
  read-modify-write operations; both families of primitives (on a descriptor and on a
  \<open>struct eob_device\<close>) are interpretations of it.
\<close>

section \<open>The abstract header\<close>

definition good_header :: "crc_fn \<Rightarrow> eob_header \<Rightarrow> bool" where
  "good_header crc h \<longleftrightarrow> eob_header_chksum_is_ok crc h = B_TRUE \<and>
     h_magic h = EOB_HDR_MAGIC \<and> h_version h = EOB_HDR_VERSION"

definition hdr_state :: "crc_fn \<Rightarrow> bytes \<Rightarrow> eob_header option" where
  "hdr_state crc d =
     (let h = header_of_bytes (bslice 0 EOB_HDR_SIZE d) in
      if EOB_HDR_SIZE \<le> length d \<and> good_header crc h then Some h else None)"

lemma hdr_state_Some_iff:
  "hdr_state crc d = Some h \<longleftrightarrow>
     EOB_HDR_SIZE \<le> length d \<and> h = header_of_bytes (bslice 0 EOB_HDR_SIZE d) \<and> good_header crc h"
  by (auto simp: hdr_state_def Let_def)

lemma hdr_state_good: "hdr_state crc d = Some h \<Longrightarrow> good_header crc h"
  unfolding hdr_state_Some_iff by blast

lemma hdr_state_wf: "hdr_state crc d = Some h \<Longrightarrow> wf_header h"
  by (auto simp: hdr_state_Some_iff header.wf_dec)

lemma hdr_state_bytes: "hdr_state crc d = Some h \<Longrightarrow> bslice 0 EOB_HDR_SIZE d = header_bytes h"
  by (auto simp: hdr_state_Some_iff header.enc_dec)

lemma hdr_state_overlay:
  assumes "wf_header h" and "good_header crc h"
  shows "hdr_state crc (overlay 0 (header_bytes h @ rest) d) = Some h"
proof -
  have len: "length (header_bytes h) = EOB_HDR_SIZE" using assms(1) by (rule header.length_enc)
  have "bslice 0 EOB_HDR_SIZE (overlay 0 (header_bytes h @ rest) d) = header_bytes h"
    using len by (simp add: bslice_overlay_inside bslice_append_left bslice_0_all)
  moreover have "EOB_HDR_SIZE \<le> length (overlay 0 (header_bytes h @ rest) d)"
    using len by (auto simp: length_overlay layout_simps)
  ultimately show ?thesis
    using assms by (simp add: hdr_state_Some_iff header.dec_enc)
qed

lemma good_header_calc:
  "good_header crc (eob_header_chksum_calc crc h) \<longleftrightarrow>
     h_magic h = EOB_HDR_MAGIC \<and> h_version h = EOB_HDR_VERSION"
  by (simp add: good_header_def)

section \<open>Reading\<close>

lemma header_offset_simps [simp]:
  "0 \<le> sint eob_header_offset" "unat eob_header_offset = 0" "sint eob_header_offset = 0"
  by (simp_all add: eob_header_offset_def)

text \<open>A successful read delivers a header that passed all three checks, whatever the device does.\<close>

lemma read_header_pass_Some:
  "read_header_pass crc h w = (Some rv, h', w') \<Longrightarrow>
   rv \<in> {EOB_OK, EOB_IO, EOB_VER_MISM} \<and> (rv = EOB_OK \<longrightarrow> good_header crc h')"
  by (auto simp: read_header_pass_def good_header_def Let_def split: prod.splits option.splits if_splits)

lemma read_header_loop_sound:
  "read_header_loop crc n h w = (rv, h', w') \<Longrightarrow>
   rv \<in> {EOB_OK, EOB_IO, EOB_VER_MISM, EOB_CHKSUM} \<and> (rv = EOB_OK \<longrightarrow> good_header crc h')"
proof (induction n arbitrary: h w)
  case 0
  then show ?case by auto
next
  case (Suc n)
  then show ?case
    by (auto split: prod.splits option.splits dest: read_header_pass_Some)
qed

text \<open>A pass that reads 512 bytes judges exactly those.\<close>

lemma read_header_pass_full:
  assumes rd: "sys_pread EOB_HDR_SIZE eob_header_offset w = (Some bs, w')"
    and len: "length bs = EOB_HDR_SIZE" and wf: "wf_header h"
  shows "read_header_pass crc h w =
     (let h' = header_of_bytes bs in
      (if good_header crc h' then Some EOB_OK
       else if eob_header_chksum_is_ok crc h' = B_TRUE \<and> h_magic h' = EOB_HDR_MAGIC then Some EOB_VER_MISM
       else None, h', w'))"
proof -
  have "overlay 0 bs (header_bytes h) = bs"
    using len wf by (intro overlay_all) (auto simp: header.length_enc layout_simps)
  then show ?thesis
    using rd by (simp add: read_header_pass_def Let_def good_header_def)
qed

lemma read_header_loop_good:
  assumes "quiet w" and "hdr_state crc (w_disk w) = Some h" and "wf_header h0" and "0 < n"
  obtains w' where "read_header_loop crc n h0 w = (EOB_OK, h, w')"
    and "w_disk w' = w_disk w" and "w_mallocs w' = w_mallocs w" and "w_junk w' = w_junk w" and "quiet w'"
proof -
  obtain w' where rd: "sys_pread EOB_HDR_SIZE eob_header_offset w =
      (Some (bslice 0 EOB_HDR_SIZE (w_disk w)), w')"
    and w': "w_disk w' = w_disk w" "w_mallocs w' = w_mallocs w" "w_junk w' = w_junk w" "quiet w'"
    using quiet_pread [OF assms(1) header_offset_simps(1)] by (metis header_offset_simps(2))
  have "EOB_HDR_SIZE \<le> length (w_disk w)" and h: "h = header_of_bytes (bslice 0 EOB_HDR_SIZE (w_disk w))"
    and "good_header crc h"
    using assms(2) unfolding hdr_state_Some_iff by blast+
  then have "read_header_pass crc h0 w = (Some EOB_OK, h, w')"
    using read_header_pass_full [OF rd _ assms(3)] by (simp add: Let_def)
  then have "read_header_loop crc n h0 w = (EOB_OK, h, w')"
    using assms(4) by (cases n) simp_all
  then show thesis using w' by (rule that)
qed

text \<open>Passes that see a torn header are repeated.\<close>

definition torn_header :: "crc_fn \<Rightarrow> bytes \<Rightarrow> bool" where
  "torn_header crc img \<longleftrightarrow> length img = EOB_HDR_SIZE \<and>
     (let h = header_of_bytes img in
      \<not> (eob_header_chksum_is_ok crc h = B_TRUE \<and> h_magic h = EOB_HDR_MAGIC))"

lemma peer_pread:
  assumes "w_sched w = Peer_write 0 img # es" and "length img = EOB_HDR_SIZE"
  shows "\<exists>w'. sys_pread EOB_HDR_SIZE eob_header_offset w = (Some img, w') \<and> w_sched w' = es \<and>
     w_disk w' = overlay 0 img (w_disk w)"
  using assms by (simp add: sys_pread_def Let_def bslice_overlay_same)

lemma read_header_loop_torn:
  assumes "w_sched w = map (Peer_write 0) imgs @ Peer_write 0 img # es"
    and "list_all (torn_header crc) imgs" and "length imgs < n"
    and "length img = EOB_HDR_SIZE" and "good_header crc (header_of_bytes img)" and "wf_header h0"
  shows "\<exists>w'. read_header_loop crc n h0 w = (EOB_OK, header_of_bytes img, w') \<and> w_sched w' = es"
  using assms
proof (induction imgs arbitrary: n h0 w)
  case Nil
  then obtain w' where "sys_pread EOB_HDR_SIZE eob_header_offset w = (Some img, w')" "w_sched w' = es"
    using peer_pread [of w img es] by auto
  moreover obtain m where "n = Suc m" using Nil.prems(3) by (cases n) auto
  ultimately show ?case
    using read_header_pass_full [of w img w' h0 crc] Nil.prems by (simp add: Let_def)
next
  case (Cons i imgs)
  then have len: "length i = EOB_HDR_SIZE" by (simp add: torn_header_def)
  obtain w' where rd: "sys_pread EOB_HDR_SIZE eob_header_offset w = (Some i, w')"
    and w': "w_sched w' = map (Peer_write 0) imgs @ Peer_write 0 img # es"
    using peer_pread [of w i] Cons.prems(1) len by auto
  obtain m where m: "n = Suc m" "length imgs < m" using Cons.prems(3) by (cases n) auto
  have "read_header_pass crc h0 w = (None, header_of_bytes i, w')"
    using read_header_pass_full [OF rd len Cons.prems(6), of crc] Cons.prems(2)
    by (auto simp: torn_header_def good_header_def Let_def)
  moreover have "\<exists>w''. read_header_loop crc m (header_of_bytes i) w' = (EOB_OK, header_of_bytes img, w'')
      \<and> w_sched w'' = es"
    using w' Cons.prems m(2) len by (intro Cons.IH) (simp_all add: header.wf_dec)
  ultimately show ?case using m(1) by simp
qed

text \<open>On a quiet device a header that is not good is reported, and nothing is changed.\<close>

lemma read_header_loop_bad:
  assumes "quiet w" and "EOB_HDR_SIZE \<le> length (w_disk w)" and "wf_header h0"
    and "torn_header crc (bslice 0 EOB_HDR_SIZE (w_disk w))"
  shows "\<exists>h' w'. read_header_loop crc n h0 w = (EOB_CHKSUM, h', w') \<and> w_disk w' = w_disk w \<and>
     quiet w' \<and> w_mallocs w' = w_mallocs w \<and> w_junk w' = w_junk w \<and> wf_header h' \<and>
     (0 < n \<longrightarrow> h' = header_of_bytes (bslice 0 EOB_HDR_SIZE (w_disk w)))"
  using assms
proof (induction n arbitrary: h0 w)
  case 0
  then show ?case by auto
next
  case (Suc n)
  let ?img = "bslice 0 EOB_HDR_SIZE (w_disk w)"
  obtain w' where rd: "sys_pread EOB_HDR_SIZE eob_header_offset w = (Some ?img, w')"
    and w': "w_disk w' = w_disk w" "quiet w'" "w_mallocs w' = w_mallocs w" "w_junk w' = w_junk w"
    using quiet_pread [OF Suc.prems(1) header_offset_simps(1)] by (metis header_offset_simps(2))
  have len: "length ?img = EOB_HDR_SIZE" using Suc.prems(2) by simp
  have "read_header_pass crc h0 w = (None, header_of_bytes ?img, w')"
    using read_header_pass_full [OF rd len Suc.prems(3), of crc] Suc.prems(4)
    by (auto simp: torn_header_def good_header_def Let_def)
  moreover have "wf_header (header_of_bytes ?img)" using len by (rule header.wf_dec)
  ultimately show ?case
    using Suc.IH [of w' "header_of_bytes ?img"] Suc.prems w' by (cases n) auto
qed

section \<open>Writing\<close>

definition header_image :: "eob_header \<Rightarrow> bytes" where
  "header_image h = header_bytes h @ replicate (unat (h_phys_blk_size h) - EOB_HDR_SIZE) 0"

lemma length_header_image:
  "wf_header h \<Longrightarrow> EOB_HDR_SIZE \<le> unat (h_phys_blk_size h) \<Longrightarrow>
   length (header_image h) = unat (h_phys_blk_size h)"
  by (simp add: header_image_def header.length_enc)

lemma overlay_header_zeros:
  assumes "wf_header h" and "EOB_HDR_SIZE \<le> n"
  shows "overlay 0 (header_bytes h) (replicate n 0) =
    header_bytes h @ replicate (n - EOB_HDR_SIZE) 0"
  using header.length_enc [OF assms(1)] assms(2)
  by (subst overlay_0) (auto simp: layout_simps)

lemma eob_write_header_quiet:
  assumes "quiet w" and "0 < fd" and "wf_header h"
    and "EOB_HDR_SIZE \<le> unat (h_phys_blk_size h)" and "unat (h_phys_blk_size h) < 2 ^ 63"
  obtains w' where "eob_write_header fd h w = Inr (0, w')"
    and "w_disk w' = overlay 0 (header_image h) (w_disk w)" and "quiet w'" and "w_junk w' = w_junk w"
proof -
  have "quiet (malloc_until_ok w)" using assms(1) by simp
  from quiet_pwrite [OF this header_offset_simps(1), of "header_image h"]
  obtain w' where "sys_pwrite (header_image h) eob_header_offset (malloc_until_ok w) =
      (Some (length (header_image h)), w')"
    and "w_disk w' = overlay 0 (header_image h) (w_disk w)" and "quiet w'" and "w_junk w' = w_junk w"
    by (metis header_offset_simps(2) malloc_until_ok_simps(1,3))
  moreover have "0 < unat (h_phys_blk_size h)" using assms(4) by (simp add: layout_simps)
  ultimately show thesis
    using assms that by (simp add: eob_write_header_def overlay_header_zeros header.length_enc
        flip: header_image_def)
qed

text \<open>In every world a header write ends with success or an I/O error once its checks pass.\<close>

lemma eob_write_header_codes:
  assumes "0 < fd" and "wf_header h" and "EOB_HDR_SIZE \<le> unat (h_phys_blk_size h)"
    and "unat (h_phys_blk_size h) < 2 ^ 63"
  shows "\<exists>rv w'. eob_write_header fd h w = Inr (rv, w') \<and> rv \<in> {EOB_OK, EOB_IO}"
proof -
  have "0 < unat (h_phys_blk_size h)" using assms(3) by (simp add: layout_simps)
  then show ?thesis
    using assms by (simp add: eob_write_header_def header.length_enc Let_def split: prod.split)
qed

section \<open>The contract of the primitives\<close>

text \<open>
  Reading delivers the header of the store and leaves the store alone; writing replaces the
  first physical block: the header, then \<open>rest\<close> up to the size the header records.
\<close>

locale header_store =
  fixes crc :: crc_fn
    and store :: "'w \<Rightarrow> bytes"
    and ready :: "'w \<Rightarrow> bool"
    and fits :: "'w \<Rightarrow> eob_header \<Rightarrow> bool"
    and rest_ok :: "bytes \<Rightarrow> bool"
    and rd :: "'w \<Rightarrow> fault + int \<times> eob_header \<times> 'w"
    and wr :: "eob_header \<Rightarrow> 'w \<Rightarrow> fault + int \<times> 'w"
  assumes fits_wf: "fits w h \<Longrightarrow> wf_header h"
    and rd_store: "ready w \<Longrightarrow> hdr_state crc (store w) = Some h \<Longrightarrow>
      \<exists>w'. rd w = Inr (EOB_OK, h, w') \<and> store w' = store w \<and> ready w' \<and> fits w' = fits w"
    and wr_store: "ready w \<Longrightarrow> fits w h \<Longrightarrow>
      \<exists>w' rest. wr h w = Inr (EOB_OK, w') \<and> store w' = overlay 0 (header_bytes h @ rest) (store w) \<and>
        rest_ok rest \<and> EOB_HDR_SIZE + length rest = unat (h_phys_blk_size h) \<and>
        ready w' \<and> fits w' = fits w"
begin

definition written :: "eob_header \<Rightarrow> 'w \<Rightarrow> 'w \<Rightarrow> bool" where
  "written h w w' \<longleftrightarrow> ready w' \<and> fits w' = fits w \<and>
     (\<exists>rest. store w' = overlay 0 (header_bytes h @ rest) (store w) \<and> rest_ok rest \<and>
        EOB_HDR_SIZE + length rest = unat (h_phys_blk_size h))"

lemma written_state:
  "written h w w' \<Longrightarrow> fits w h \<Longrightarrow> good_header crc h \<Longrightarrow> hdr_state crc (store w') = Some h"
  unfolding written_def using fits_wf hdr_state_overlay by metis

lemma written_frame:
  assumes "written h w w'" and "fits w h" and "unat (h_phys_blk_size h) \<le> off"
  shows "bslice off n (store w') = bslice off n (store w)"
  using assms header.length_enc [OF fits_wf [OF assms(2)]]
  by (auto simp: written_def bslice_overlay_after)

lemma write_ok:
  assumes "ready w" and "fits w h"
  obtains w' where "wr h w = Inr (EOB_OK, w')" and "written h w w'"
  using wr_store [OF assms] unfolding written_def by blast

lemma update:
  assumes "ready w" and "hdr_state crc (store w) = Some h" and "fits w (f h)"
  obtains w1 w' where "rd w = Inr (EOB_OK, h, w1)" and "store w1 = store w"
    and "wr (f h) w1 = Inr (EOB_OK, w')" and "written (f h) w w'"
proof -
  obtain w1 where rd: "rd w = Inr (EOB_OK, h, w1)"
    and w1: "ready w1" "fits w1 = fits w" "store w1 = store w"
    using rd_store [OF assms(1,2)] by blast
  then have "fits w1 (f h)" using assms(3) by simp
  with w1(1) obtain w' where "wr (f h) w1 = Inr (EOB_OK, w')" and "written (f h) w1 w'"
    by (rule write_ok)
  with rd w1 show thesis
    by (intro that) (simp_all add: written_def)
qed

lemma write_read:
  assumes "ready w" and "fits w h" and "good_header crc h"
  shows "\<exists>w' w''. wr h w = Inr (EOB_OK, w') \<and> rd w' = Inr (EOB_OK, h, w'') \<and> store w'' = store w'"
proof -
  obtain w' where wr: "wr h w = Inr (EOB_OK, w')" and w': "written h w w'"
    using assms(1,2) by (rule write_ok)
  have "ready w'" using w' by (simp add: written_def)
  from rd_store [OF this written_state [OF w' assms(2,3)]] wr show ?thesis by blast
qed

end

definition fd_fits :: "eob_header \<Rightarrow> bool" where
  "fd_fits h \<longleftrightarrow> wf_header h \<and> EOB_HDR_SIZE \<le> unat (h_phys_blk_size h) \<and> unat (h_phys_blk_size h) < 2 ^ 63"

text \<open>A descriptor with a quiet device.\<close>

definition all_zero :: "bytes \<Rightarrow> bool" where
  "all_zero bs \<longleftrightarrow> set bs \<subseteq> {0}"

interpretation fd_store: header_store crc w_disk "\<lambda>w. quiet w \<and> 0 < fd"
    "\<lambda>_. fd_fits" all_zero "eob_read_header crc fd zero_header" "eob_write_header fd" for crc fd
proof
  fix w :: eob_world and h
  show "wf_header h" if "fd_fits h"
    using that by (simp add: fd_fits_def)
  assume rdy: "quiet w \<and> 0 < fd"
  show "\<exists>w'. eob_read_header crc fd zero_header w = Inr (EOB_OK, h, w') \<and> w_disk w' = w_disk w \<and>
      (quiet w' \<and> 0 < fd) \<and> fd_fits = fd_fits"
    if v: "hdr_state crc (w_disk w) = Some h"
  proof -
    have "0 < max_pass" by (simp add: max_pass_def)
    from read_header_loop_good [OF _ v wf_zero_header this]
    obtain w' where "read_header_loop crc max_pass zero_header w = (EOB_OK, h, w')"
      and "w_disk w' = w_disk w" and "quiet w'"
      using rdy by metis
    then show ?thesis using rdy by (simp add: eob_read_header_def)
  qed
  show "\<exists>w' rest. eob_write_header fd h w = Inr (EOB_OK, w') \<and>
      w_disk w' = overlay 0 (header_bytes h @ rest) (w_disk w) \<and> all_zero rest \<and>
      EOB_HDR_SIZE + length rest = unat (h_phys_blk_size h) \<and> (quiet w' \<and> 0 < fd) \<and> fd_fits = fd_fits"
    if f: "fd_fits h"
  proof -
    obtain w' where "eob_write_header fd h w = Inr (0, w')"
      and "w_disk w' = overlay 0 (header_image h) (w_disk w)" and "quiet w'"
      using eob_write_header_quiet [of w fd h] rdy f by (metis fd_fits_def)
    then show ?thesis
      using rdy f by (auto simp: header_image_def all_zero_def fd_fits_def)
  qed
qed

text \<open>An open device: the block buffer has the size of the header's physical block.\<close>

definition dev_wr :: "eob_header \<Rightarrow> eob_device \<times> eob_world \<Rightarrow> fault + int \<times> eob_device \<times> eob_world" where
  "dev_wr h = (\<lambda>(dev, w). eob_device_write_header dev h w)"

definition dev_rd :: "crc_fn \<Rightarrow> eob_device \<times> eob_world \<Rightarrow> fault + int \<times> eob_header \<times> eob_device \<times> eob_world" where
  "dev_rd crc = (\<lambda>(dev, w). bindr (eob_device_read_header crc dev zero_header w)
     (\<lambda>(rv, h, w). Inr (rv, h, dev, w)))"

definition dev_ready :: "eob_device \<times> eob_world \<Rightarrow> bool" where
  "dev_ready = (\<lambda>(dev, w). quiet w \<and> 0 < d_fd dev \<and>
     (\<exists>buf. iov_base (d_phys_buff dev) = Some buf \<and> length buf = iov_len (d_phys_buff dev)))"

definition dev_fits :: "eob_device \<times> eob_world \<Rightarrow> eob_header \<Rightarrow> bool" where
  "dev_fits = (\<lambda>(dev, w) h. wf_header h \<and> EOB_HDR_SIZE \<le> unat (h_phys_blk_size h) \<and>
     iov_len (d_phys_buff dev) = unat (h_phys_blk_size h))"

lemma overlay_header_tail:
  assumes "wf_header h" and "EOB_HDR_SIZE \<le> length buf"
  shows "\<exists>rest. overlay 0 (header_bytes h) buf = header_bytes h @ rest"
  using header.length_enc [OF assms(1)] by (subst overlay_0) (auto simp: layout_simps)

lemma eob_device_write_header_quiet:
  assumes rdy: "dev_ready (dev, w)" and fits: "dev_fits (dev, w) h"
  obtains dev' w' rest where "eob_device_write_header dev h w = Inr (0, dev', w')"
    and "w_disk w' = overlay 0 (header_bytes h @ rest) (w_disk w)"
    and "dev' = dev\<lparr>d_phys_buff := \<lparr>iov_base = Some (header_bytes h @ rest),
                                     iov_len = iov_len (d_phys_buff dev)\<rparr>\<rparr>"
    and "EOB_HDR_SIZE + length rest = iov_len (d_phys_buff dev)" and "quiet w'"
proof -
  obtain buf where buf: "iov_base (d_phys_buff dev) = Some buf" "length buf = iov_len (d_phys_buff dev)"
    and q: "quiet w" "0 < d_fd dev"
    using rdy by (auto simp: dev_ready_def)
  have f: "wf_header h" "EOB_HDR_SIZE \<le> length buf" "iov_len (d_phys_buff dev) = unat (h_phys_blk_size h)"
    using fits buf(2) by (auto simp: dev_fits_def)
  define buf1 where "buf1 = (if unat (h_phys_blk_size (d_hdr dev)) > EOB_HDR_SIZE
    then replicate (length buf) 0 else buf)"
  have len1: "length buf1 = length buf" by (simp add: buf1_def)
  then obtain rest where rest: "overlay 0 (header_bytes h) buf1 = header_bytes h @ rest"
    using overlay_header_tail [OF f(1)] f(2) by metis
  have "length (overlay 0 (header_bytes h) buf1) = length buf"
    using f(1,2) len1 by (auto simp: length_overlay header.length_enc)
  then have lr: "EOB_HDR_SIZE + length rest = iov_len (d_phys_buff dev)"
    using rest buf(2) f(1) by (simp add: header.length_enc)
  obtain w' where "sys_pwrite (header_bytes h @ rest) eob_header_offset w =
      (Some (length (header_bytes h @ rest)), w')"
    and "w_disk w' = overlay 0 (header_bytes h @ rest) (w_disk w)" and "quiet w'"
    using quiet_pwrite [OF q(1) header_offset_simps(1)] by (metis header_offset_simps(2))
  moreover have "eob_device_write_header dev h w =
    (let dev = dev\<lparr>d_phys_buff := (d_phys_buff dev)\<lparr>iov_base := Some (header_bytes h @ rest)\<rparr>\<rparr>;
         (rv, w) = sys_pwrite (header_bytes h @ rest) eob_header_offset w in
     if rv = None then Inr (SET_IO_ERR, dev, w) else Inr (0, dev, w))"
    using buf q f len1 rest
    by (simp add: eob_device_write_header_def header.length_enc Let_def flip: buf1_def)
  ultimately show thesis
    by (intro that [of "dev\<lparr>d_phys_buff := \<lparr>iov_base = Some (header_bytes h @ rest),
          iov_len = iov_len (d_phys_buff dev)\<rparr>\<rparr>" w' rest]) (simp_all add: lr)
qed

interpretation dev_store: header_store crc "\<lambda>(dev, w). w_disk w" dev_ready dev_fits
    "\<lambda>_. True" "dev_rd crc" dev_wr for crc
proof
  fix x :: "eob_device \<times> eob_world" and h
  obtain dev w where x: "x = (dev, w)" by (cases x)
  show "wf_header h" if "dev_fits x h"
    using that by (simp add: x dev_fits_def)
  assume rdy: "dev_ready x"
  show "\<exists>x'. dev_rd crc x = Inr (EOB_OK, h, x') \<and>
      (case x' of (dev, w) \<Rightarrow> w_disk w) = (case x of (dev, w) \<Rightarrow> w_disk w) \<and>
      dev_ready x' \<and> dev_fits x' = dev_fits x"
    if "hdr_state crc (case x of (dev, w) \<Rightarrow> w_disk w) = Some h"
  proof -
    have v: "hdr_state crc (w_disk w) = Some h" and q: "quiet w" using that rdy by (simp_all add: x dev_ready_def)
    have "0 < max_pass" by (simp add: max_pass_def)
    from read_header_loop_good [OF q v wf_zero_header this]
    obtain w' where "read_header_loop crc max_pass zero_header w = (EOB_OK, h, w')"
      and "w_disk w' = w_disk w" and "quiet w'"
      by metis
    then show ?thesis using rdy
      by (intro exI [of _ "(dev, w')"]) (auto simp: x dev_rd_def eob_device_read_header_def dev_ready_def dev_fits_def)
  qed
  show "\<exists>x' rest. dev_wr h x = Inr (EOB_OK, x') \<and>
      (case x' of (dev, w) \<Rightarrow> w_disk w) = overlay 0 (header_bytes h @ rest) (case x of (dev, w) \<Rightarrow> w_disk w) \<and>
      True \<and> EOB_HDR_SIZE + length rest = unat (h_phys_blk_size h) \<and>
      dev_ready x' \<and> dev_fits x' = dev_fits x" if f: "dev_fits x h"
  proof -
    have wf: "wf_header h" and sz: "iov_len (d_phys_buff dev) = unat (h_phys_blk_size h)"
      using f by (simp_all add: x dev_fits_def)
    from eob_device_write_header_quiet [OF rdy [unfolded x] f [unfolded x]]
    obtain dev' w' rest where wr: "eob_device_write_header dev h w = Inr (0, dev', w')"
      and d: "w_disk w' = overlay 0 (header_bytes h @ rest) (w_disk w)"
      and dev': "dev' = dev\<lparr>d_phys_buff := \<lparr>iov_base = Some (header_bytes h @ rest),
                                     iov_len = iov_len (d_phys_buff dev)\<rparr>\<rparr>"
      and len: "EOB_HDR_SIZE + length rest = iov_len (d_phys_buff dev)" and q: "quiet w'"
      by metis
    have "dev_ready (dev', w')"
      using rdy q len wf by (simp add: dev' x dev_ready_def header.length_enc)
    moreover have "dev_fits (dev', w') = dev_fits x"
      by (simp add: dev' x dev_fits_def)
    ultimately show ?thesis
      using wr len sz by (intro exI [of _ "(dev', w')"] exI [of _ rest]) (simp add: x dev_wr_def d)
  qed
qed

end
