(* ===== verification/Eob_Header_Ops.thy ===== *)
theory Eob_Header_Ops
  imports Eob_Header_Spec
begin

text \<open>
  Functional correctness of \<open>eob_hdr_init\<close>, \<open>eob_hdr_deinit\<close>, \<open>eob_hdr_add_device\<close> and
  \<open>eob_hdr_rem_device\<close> over the contract \<open>header_store\<close> of the primitives, on every branch:
  success, refusal, and the indices the code does not check.
\<close>

section \<open>Converting int to uint64\<close>

lemma uint_scast: "uint (scast (n :: u32) :: u64) = sint n mod 2 ^ 64"
proof -
  have "uint (word_of_int (sint n) :: u64) = sint n mod 2 ^ 64"
    unfolding uint_word_of_int by simp
  moreover have "word_of_int (sint n) = (scast n :: u64)"
    by simp
  ultimately show ?thesis by (simp only:)
qed

lemma unat_scast_nonneg: "0 \<le> sint n \<Longrightarrow> unat (scast (n :: u32) :: u64) = nat (sint n)"
  using sint_lt [of n] by (simp add: unat_eq_nat_uint uint_scast)

lemma unat_scast_neg:
  assumes "sint n < 0"
  shows "2 ^ 63 \<le> unat (scast (n :: u32) :: u64)"
proof -
  have "- (2 ^ 31) \<le> sint n" using sint_ge [of n] by simp
  then have lo: "2 ^ 63 \<le> sint n + 2 ^ 64" by simp
  have "sint n mod 2 ^ 64 = (sint n + 2 ^ 64) mod 2 ^ 64" by simp
  also have "\<dots> = sint n + 2 ^ 64"
    by (rule mod_pos_pos_trivial) (use assms lo in simp_all)
  finally have "2 ^ 63 \<le> sint n mod 2 ^ 64" using lo by simp
  then show ?thesis by (simp add: unat_eq_nat_uint uint_scast nat_le_iff le_nat_iff)
qed

section \<open>Node table access\<close>

definition node_index :: "u32 \<Rightarrow> nat" where
  "node_index node_id = unat (scast node_id :: u64)"

lemma node_get_in: "node_index i < MAX_CLUSTER_SIZE \<Longrightarrow> node_get h (scast i) = Inr (h_nodes h ! node_index i)"
  by (simp add: node_get_def node_index_def)

lemma node_get_out: "MAX_CLUSTER_SIZE \<le> node_index i \<Longrightarrow> node_get h (scast i) = Inl UB"
  by (simp add: node_get_def node_index_def)

lemma node_set_in:
  "node_index i < MAX_CLUSTER_SIZE \<Longrightarrow>
   node_set h (scast i) n = Inr (h\<lparr>h_nodes := (h_nodes h)[node_index i := n]\<rparr>)"
  by (simp add: node_set_def node_index_def)

lemma node_set_out: "MAX_CLUSTER_SIZE \<le> node_index i \<Longrightarrow> node_set h (scast i) n = Inl UB"
  by (simp add: node_set_def node_index_def)

text \<open>The header after storing \<open>n\<close> in entry \<open>i\<close> and renewing the checksum.\<close>

definition with_node :: "crc_fn \<Rightarrow> nat \<Rightarrow> eob_node_data_phys \<Rightarrow> eob_header \<Rightarrow> eob_header" where
  "with_node crc i n h = eob_header_chksum_calc crc (h\<lparr>h_nodes := (h_nodes h)[i := n]\<rparr>)"

lemma with_node_fits: "fd_fits h \<Longrightarrow> fd_fits (with_node crc i n h)"
  by (simp add: fd_fits_def with_node_def wf_header_def)

lemma with_node_good: "good_header crc h \<Longrightarrow> good_header crc (with_node crc i n h)"
  by (simp add: with_node_def good_header_def)

lemma with_node_simps [simp]:
  "h_phys_blk_size (with_node crc i n h) = h_phys_blk_size h"
  "h_virt_blk_size (with_node crc i n h) = h_virt_blk_size h"
  "h_nodes_count (with_node crc i n h) = h_nodes_count h"
  "h_nodes (with_node crc i n h) = (h_nodes h)[i := n]"
  by (simp_all add: with_node_def)

section \<open>add\<close>

definition add_allowed :: "u32 \<Rightarrow> int \<Rightarrow> eob_header \<Rightarrow> bool" where
  "add_allowed node_id force h \<longleftrightarrow> node_index node_id < unat (h_nodes_count h) \<and>
     (force \<noteq> 0 \<or> \<not> EOB_NODE_IS_PRESENT (h_nodes h ! node_index node_id))"

lemma hdr_add_written:
  assumes rdy: "quiet w" "0 < fd" and v: "hdr_state crc (w_disk w) = Some h" and f: "fd_fits h"
    and i: "node_index node_id < MAX_CLUSTER_SIZE" and al: "add_allowed node_id force h"
  shows "\<exists>w'. eob_hdr_add_device crc fd node_id data force w = Inr (EOB_OK, w') \<and>
    fd_store.written fd (with_node crc (node_index node_id) data h) w w'"
proof -
  let ?h = "with_node crc (node_index node_id) data h"
  obtain w1 w' where rd: "eob_read_header crc fd zero_header w = Inr (EOB_OK, h, w1)"
    and "w_disk w1 = w_disk w" and wr: "eob_write_header fd ?h w1 = Inr (EOB_OK, w')"
    and w': "fd_store.written fd ?h w w'"
    by (rule fd_store.update [where f = "with_node crc (node_index node_id) data",
        OF conjI [OF rdy] v with_node_fits [OF f]])
  have "\<not> (scast node_id :: u64) \<ge> h_nodes_count h"
    using al by (simp add: add_allowed_def node_index_def word_le_nat_alt)
  then have "eob_hdr_add_device crc fd node_id data force w = Inr (EOB_OK, w')"
    using rd wr al i by (auto simp: eob_hdr_add_device_def node_get_in node_set_in add_allowed_def
        with_node_def Let_def)
  with w' show ?thesis by blast
qed

lemma hdr_add_refused:
  assumes rdy: "quiet w" "0 < fd" and v: "hdr_state crc (w_disk w) = Some h"
    and i: "unat (h_nodes_count h) \<le> node_index node_id \<or> node_index node_id < MAX_CLUSTER_SIZE"
    and al: "\<not> add_allowed node_id force h"
  shows "\<exists>w'. eob_hdr_add_device crc fd node_id data force w = Inr (EOB_INVAL, w') \<and>
    w_disk w' = w_disk w"
proof -
  obtain w1 where rd: "eob_read_header crc fd zero_header w = Inr (EOB_OK, h, w1)" "w_disk w1 = w_disk w"
    using fd_store.rd_store [of w fd crc h] rdy v by blast
  have "(scast node_id :: u64) \<ge> h_nodes_count h \<longleftrightarrow> unat (h_nodes_count h) \<le> node_index node_id"
    by (simp add: node_index_def word_le_nat_alt)
  then show ?thesis
    using rd al i by (auto simp: eob_hdr_add_device_def add_allowed_def node_get_in)
qed

lemma hdr_add_overflow:
  assumes rdy: "quiet w" "0 < fd" and v: "hdr_state crc (w_disk w) = Some h"
    and i: "MAX_CLUSTER_SIZE \<le> node_index node_id" and c: "node_index node_id < unat (h_nodes_count h)"
  shows "eob_hdr_add_device crc fd node_id data force w = Inl UB"
proof -
  obtain w1 where rd: "eob_read_header crc fd zero_header w = Inr (EOB_OK, h, w1)"
    using fd_store.rd_store [of w fd crc h] rdy v by blast
  have "\<not> (scast node_id :: u64) \<ge> h_nodes_count h"
    using c by (simp add: node_index_def word_le_nat_alt)
  then show ?thesis
    using rd i by (simp add: eob_hdr_add_device_def node_get_out node_set_out)
qed

section \<open>remove\<close>

lemma hdr_rem_written:
  assumes rdy: "quiet w" "0 < fd" and v: "hdr_state crc (w_disk w) = Some h" and f: "fd_fits h"
    and i: "node_index node_id < MAX_CLUSTER_SIZE"
    and p: "EOB_NODE_IS_PRESENT (h_nodes h ! node_index node_id)"
  shows "\<exists>w'. eob_hdr_rem_device crc fd node_id w = Inr (EOB_OK, w') \<and>
    fd_store.written fd (with_node crc (node_index node_id) empty_node h) w w'"
proof -
  let ?h = "with_node crc (node_index node_id) empty_node h"
  obtain w1 w' where rd: "eob_read_header crc fd zero_header w = Inr (EOB_OK, h, w1)"
    and "w_disk w1 = w_disk w" and wr: "eob_write_header fd ?h w1 = Inr (EOB_OK, w')"
    and w': "fd_store.written fd ?h w w'"
    by (rule fd_store.update [where f = "with_node crc (node_index node_id) empty_node",
        OF conjI [OF rdy] v with_node_fits [OF f]])
  then have "eob_hdr_rem_device crc fd node_id w = Inr (EOB_OK, w')"
    using rd wr p i by (auto simp: eob_hdr_rem_device_def node_get_in node_set_in with_node_def Let_def)
  with w' show ?thesis by blast
qed

lemma hdr_rem_absent:
  assumes rdy: "quiet w" "0 < fd" and v: "hdr_state crc (w_disk w) = Some h"
    and i: "node_index node_id < MAX_CLUSTER_SIZE"
    and p: "\<not> EOB_NODE_IS_PRESENT (h_nodes h ! node_index node_id)"
  shows "\<exists>w'. eob_hdr_rem_device crc fd node_id w = Inr (EOB_OK, w') \<and> w_disk w' = w_disk w"
proof -
  obtain w1 where rd: "eob_read_header crc fd zero_header w = Inr (EOB_OK, h, w1)" "w_disk w1 = w_disk w"
    using fd_store.rd_store [of w fd crc h] rdy v by blast
  then show ?thesis
    using p i by (auto simp: eob_hdr_rem_device_def node_get_in)
qed

lemma hdr_rem_overflow:
  assumes rdy: "quiet w" "0 < fd" and v: "hdr_state crc (w_disk w) = Some h"
    and i: "MAX_CLUSTER_SIZE \<le> node_index node_id"
  shows "eob_hdr_rem_device crc fd node_id w = Inl UB"
proof -
  obtain w1 where rd: "eob_read_header crc fd zero_header w = Inr (EOB_OK, h, w1)"
    using fd_store.rd_store [of w fd crc h] rdy v by blast
  then show ?thesis
    using i by (simp add: eob_hdr_rem_device_def node_get_out)
qed

section \<open>init and deinit\<close>

text \<open>The header \<open>eob_hdr_init\<close> writes, from its three arguments with the defaults filled in.\<close>

definition dflt :: "u32 \<Rightarrow> nat \<Rightarrow> u32" where
  "dflt x d = (if x = 0 then word_of_nat d else x)"

definition init_header :: "crc_fn \<Rightarrow> u32 \<Rightarrow> u32 \<Rightarrow> u32 \<Rightarrow> eob_header" where
  "init_header crc nodes virt phys = eob_header_chksum_calc crc
     (zero_header\<lparr>h_nodes_count := scast (dflt nodes MAX_CLUSTER_SIZE),
        h_virt_blk_size := scast (dflt virt EOB_DEFAULT_BLK_SIZE),
        h_phys_blk_size := scast (dflt phys EOB_DEFAULT_BLK_SIZE),
        h_version := EOB_HDR_VERSION, h_magic := EOB_HDR_MAGIC\<rparr>)"

definition init_sizes_ok :: "u32 \<Rightarrow> u32 \<Rightarrow> bool" where
  "init_sizes_ok virt phys \<longleftrightarrow>
     512 \<le> sint (dflt phys EOB_DEFAULT_BLK_SIZE) \<and>
     sint (dflt phys EOB_DEFAULT_BLK_SIZE) \<le> sint (dflt virt EOB_DEFAULT_BLK_SIZE) \<and>
     P2PHASE (dflt virt EOB_DEFAULT_BLK_SIZE) (dflt phys EOB_DEFAULT_BLK_SIZE) = 0"

lemma init_header_good: "good_header crc (init_header crc nodes virt phys)"
  by (simp add: init_header_def good_header_def)

lemma init_header_fits:
  assumes "init_sizes_ok virt phys"
  shows "fd_fits (init_header crc nodes virt phys)"
proof -
  let ?p = "dflt phys EOB_DEFAULT_BLK_SIZE"
  have "512 \<le> sint ?p" using assms by (simp add: init_sizes_ok_def)
  moreover have "sint ?p < 2 ^ 31" using sint_lt [of ?p] by simp
  ultimately have "unat (scast ?p :: u64) = nat (sint ?p)" and "512 \<le> nat (sint ?p)" and "nat (sint ?p) < 2 ^ 63"
    by (simp_all add: unat_scast_nonneg)
  then show ?thesis
    by (simp add: fd_fits_def init_header_def wf_header_def zero_header_def layout_simps)
qed

lemma hdr_init_written:
  assumes rdy: "quiet w" "0 < fd" and sz: "init_sizes_ok virt phys"
  shows "\<exists>w'. eob_hdr_init crc fd nodes virt phys force w = Inr (EOB_OK, w') \<and>
    fd_store.written fd (init_header crc nodes virt phys) w w'"
proof -
  let ?p = "dflt phys EOB_DEFAULT_BLK_SIZE" and ?v = "dflt virt EOB_DEFAULT_BLK_SIZE"
  let ?h = "init_header crc nodes virt phys"
  obtain w' where wr: "eob_write_header fd ?h w = Inr (EOB_OK, w')" and w': "fd_store.written fd ?h w w'"
    by (rule fd_store.write_ok [OF conjI [OF rdy] init_header_fits [OF sz]])
  have pv: "512 \<le> sint ?p" "sint ?p \<le> sint ?v" "P2PHASE ?v ?p = 0"
    using sz by (simp_all add: init_sizes_ok_def)
  have "(scast ?p :: u64) \<le> scast ?v"
    using pv by (simp add: word_le_nat_alt unat_scast_nonneg nat_mono)
  moreover have "?p \<noteq> 0x80000000" using pv(1) by auto
  ultimately have "eob_hdr_init crc fd nodes virt phys force w = Inr (EOB_OK, w')"
    using pv(3) wr by (simp add: eob_hdr_init_def Let_def init_header_def flip: dflt_def)
  with w' show ?thesis by blast
qed

lemma hdr_deinit_quiet:
  assumes "quiet w"
  shows "\<exists>w'. eob_hdr_deinit fd w = Inr (EOB_OK, w') \<and> quiet w' \<and>
    w_disk w' = overlay 0 (header_bytes zero_header) (w_disk w)"
proof -
  obtain w' where "sys_pwrite (header_bytes zero_header) eob_header_offset w =
      (Some (length (header_bytes zero_header)), w')"
    and "w_disk w' = overlay 0 (header_bytes zero_header) (w_disk w)" and "quiet w'"
    using quiet_pwrite [OF assms header_offset_simps(1)] by (metis header_offset_simps(2))
  then show ?thesis by (simp add: eob_hdr_deinit_def)
qed

text \<open>A wiped header is torn whatever the checksum of zeros is: its magic is 0.\<close>

lemma torn_zero: "torn_header crc (header_bytes zero_header)"
proof -
  have "header_of_bytes (header_bytes zero_header) = zero_header"
    by (simp add: header.dec_enc)
  moreover have "h_magic zero_header \<noteq> EOB_HDR_MAGIC"
    by (simp add: zero_header_def layout_simps)
  ultimately show ?thesis
    by (simp add: torn_header_def header.length_enc Let_def)
qed

section \<open>A concrete device\<close>

text \<open>A checksum function and a device with an initialised header, for the closed instances.\<close>

definition demo_crc :: crc_fn where
  "demo_crc bs = foldl (\<lambda>a b. 31 * a + ucast b) 1 bs"

definition demo_header :: eob_header where
  "demo_header = init_header demo_crc 2 512 512"

definition demo_world :: "eob_header \<Rightarrow> eob_world" where
  "demo_world h = \<lparr>w_disk = header_bytes h, w_sched = [], w_mallocs = [], w_junk = (\<lambda>_. 0xAA)\<rparr>"

definition demo_node :: eob_node_data_phys where
  "demo_node = \<lparr>nd_flags = 1, nd_ip_addr = 0x0100A8C0\<rparr>"

lemma demo_sizes: "init_sizes_ok 512 512"
  by (simp add: init_sizes_ok_def dflt_def P2PHASE_def)

lemma demo_fits: "fd_fits demo_header"
  unfolding demo_header_def by (rule init_header_fits [OF demo_sizes])

lemma demo_good: "good_header demo_crc demo_header"
  unfolding demo_header_def by (rule init_header_good)

lemma demo_counts: "unat (h_nodes_count demo_header) = 2" "unat (h_phys_blk_size demo_header) = 512"
  by (simp_all add: demo_header_def init_header_def dflt_def)

lemma demo_nodes: "h_nodes demo_header = replicate 32 empty_node"
  by (simp add: demo_header_def init_header_def zero_header_def)

lemma demo_quiet: "quiet (demo_world h)"
  by (simp add: demo_world_def quiet_def)

lemma demo_state: "wf_header h \<Longrightarrow> good_header crc h \<Longrightarrow> hdr_state crc (w_disk (demo_world h)) = Some h"
  using hdr_state_overlay [of h crc "[]" "[]"] header.length_enc [of h]
  by (simp add: demo_world_def overlay_all layout_simps)

lemma demo_view: "hdr_state demo_crc (w_disk (demo_world demo_header)) = Some demo_header"
  using demo_fits demo_good by (intro demo_state) (simp_all add: fd_fits_def)

section \<open>Properties\<close>

text \<open>
  C10. Reading the header is safe whatever the device and the other nodes do: the call returns
  one of four codes, and with \<open>EOB_OK\<close> the header it delivers has the right checksum, magic
  and version.
\<close>

theorem read_header_safe:
  assumes "0 < fd"
  shows "\<exists>rv h' w'. eob_read_header crc fd h w = Inr (rv, h', w') \<and>
    rv \<in> {EOB_OK, EOB_IO, EOB_VER_MISM, EOB_CHKSUM} \<and>
    (rv = EOB_OK \<longrightarrow> h_chksum h' = ucast (crc (peamb_bytes h')) \<and>
       h_magic h' = EOB_HDR_MAGIC \<and> h_version h' = EOB_HDR_VERSION)"
proof -
  obtain rv h' w' where r: "read_header_loop crc max_pass h w = (rv, h', w')"
    by (cases "read_header_loop crc max_pass h w")
  have "rv \<in> {EOB_OK, EOB_IO, EOB_VER_MISM, EOB_CHKSUM} \<and> (rv = EOB_OK \<longrightarrow> good_header crc h')"
    using r by (rule read_header_loop_sound)
  then show ?thesis
    using assms r by (simp add: eob_read_header_def good_header_def chksum_is_ok_iff)
qed

theorem read_header_safe_witness:
  "\<exists>rv h' w'. eob_read_header demo_crc 3 zero_header (demo_world demo_header) = Inr (rv, h', w') \<and>
    rv \<in> {EOB_OK, EOB_IO, EOB_VER_MISM, EOB_CHKSUM}"
  using read_header_safe [of 3 demo_crc zero_header "demo_world demo_header"] by auto

text \<open>
  C11. The retry loop does its work: when other nodes rewrite the header while it is read, a
  reader that sees up to nine torn headers (wrong checksum or magic) and then a good one
  returns \<open>EOB_OK\<close> with that one. With ten or more it would give up with \<open>EOB_CHKSUM\<close>.
\<close>

theorem read_header_retries:
  assumes "0 < fd" and "wf_header h"
    and "w_sched w = map (Peer_write 0) imgs @ Peer_write 0 img # es"
    and "list_all (torn_header crc) imgs" and "length imgs < 10"
    and "length img = EOB_HDR_SIZE" and "good_header crc (header_of_bytes img)"
  shows "\<exists>w'. eob_read_header crc fd h w = Inr (EOB_OK, header_of_bytes img, w') \<and> w_sched w' = es"
proof -
  have "length imgs < max_pass" using assms(5) by (simp add: max_pass_def)
  from read_header_loop_torn [OF assms(3,4) this assms(6,7,2)] assms(1)
  show ?thesis by (auto simp: eob_read_header_def)
qed

theorem read_header_retries_witness:
  "\<exists>w'. eob_read_header demo_crc 3 zero_header
     ((demo_world demo_header)\<lparr>w_sched := [Peer_write 0 (header_bytes zero_header),
        Peer_write 0 (header_bytes demo_header), Io_error]\<rparr>) =
     Inr (EOB_OK, demo_header, w') \<and> w_sched w' = [Io_error]"
proof -
  have wf: "wf_header demo_header" using demo_fits by (simp add: fd_fits_def)
  show ?thesis
    using read_header_retries [of 3 zero_header "(demo_world demo_header)\<lparr>w_sched :=
        [Peer_write 0 (header_bytes zero_header), Peer_write 0 (header_bytes demo_header), Io_error]\<rparr>"
        "[header_bytes zero_header]" "header_bytes demo_header" "[Io_error]" demo_crc]
      wf demo_good torn_zero
    by (simp add: header.length_enc header.dec_enc)
qed

text \<open>
  C15. What \<open>eob_hdr_init\<close> writes can be read back: with a physical block of at least 512
  bytes that divides the virtual block, it succeeds, and the next \<open>eob_read_header\<close> returns
  \<open>EOB_OK\<close> and a header with the given sizes and node count (or the defaults), and with an
  empty node table.
\<close>

theorem hdr_init_reads_back:
  assumes "quiet w" and "0 < fd" and "init_sizes_ok virt phys"
  shows "\<exists>w' w'' h. eob_hdr_init crc fd nodes virt phys force w = Inr (EOB_OK, w') \<and>
    eob_read_header crc fd zero_header w' = Inr (EOB_OK, h, w'') \<and>
    h_virt_blk_size h = scast (dflt virt EOB_DEFAULT_BLK_SIZE) \<and>
    h_phys_blk_size h = scast (dflt phys EOB_DEFAULT_BLK_SIZE) \<and>
    h_nodes_count h = scast (dflt nodes MAX_CLUSTER_SIZE) \<and>
    h_nodes h = replicate 32 empty_node"
proof -
  let ?h = "init_header crc nodes virt phys"
  obtain w' where i: "eob_hdr_init crc fd nodes virt phys force w = Inr (EOB_OK, w')"
    and w': "fd_store.written fd ?h w w'"
    using hdr_init_written [OF assms] by blast
  have v: "hdr_state crc (w_disk w') = Some ?h"
    by (rule fd_store.written_state [OF w' init_header_fits [OF assms(3)] init_header_good])
  have "quiet w' \<and> 0 < fd" using w' by (simp add: fd_store.written_def)
  from fd_store.rd_store [OF this v] i show ?thesis
    by (auto simp: init_header_def zero_header_def)
qed

theorem hdr_init_reads_back_witness:
  "\<exists>w' w'' h. eob_hdr_init demo_crc 3 2 512 512 0 (demo_world zero_header) = Inr (EOB_OK, w') \<and>
    eob_read_header demo_crc 3 zero_header w' = Inr (EOB_OK, h, w'') \<and> h_nodes_count h = 2"
  using hdr_init_reads_back [of "demo_world zero_header" 3 512 512 demo_crc 2 0] demo_sizes demo_quiet
  by (auto simp: dflt_def)

text \<open>
  \<open>eob_hdr_add_device\<close> on a device with a good header: for an index below the node count
  whose entry is free (or with \<open>force\<close>) it succeeds, the header afterwards is the old one with
  exactly that entry replaced, and no byte behind the physical block of the header changes.
\<close>

lemma hdr_add_updates:
  assumes "quiet w" and "0 < fd" and "hdr_state crc (w_disk w) = Some h" and "fd_fits h"
    and "node_index node_id < MAX_CLUSTER_SIZE" and "add_allowed node_id force h"
  shows "\<exists>w' h'. eob_hdr_add_device crc fd node_id data force w = Inr (EOB_OK, w') \<and>
    hdr_state crc (w_disk w') = Some h' \<and>
    h_nodes h' = (h_nodes h)[node_index node_id := data] \<and>
    h_nodes_count h' = h_nodes_count h \<and> h_virt_blk_size h' = h_virt_blk_size h \<and>
    h_phys_blk_size h' = h_phys_blk_size h \<and>
    (\<forall>off n. unat (h_phys_blk_size h) \<le> off \<longrightarrow> bslice off n (w_disk w') = bslice off n (w_disk w))"
proof -
  let ?h = "with_node crc (node_index node_id) data h"
  obtain w' where a: "eob_hdr_add_device crc fd node_id data force w = Inr (EOB_OK, w')"
    and w': "fd_store.written fd ?h w w'"
    using hdr_add_written [OF assms] by blast
  note fits = with_node_fits [OF assms(4)]
  have "hdr_state crc (w_disk w') = Some ?h"
    by (rule fd_store.written_state [OF w' fits with_node_good [OF hdr_state_good [OF assms(3)]]])
  moreover have "bslice off n (w_disk w') = bslice off n (w_disk w)" if "unat (h_phys_blk_size h) \<le> off" for off n
    by (rule fd_store.written_frame [OF w' fits]) (use that in simp)
  ultimately show ?thesis using a by (intro exI [of _ w'] exI [of _ ?h] conjI) simp_all
qed

text \<open>
  \<open>eob_hdr_add_device\<close> refuses an index that is negative or not below the node count, and
  an occupied entry without \<open>force\<close>: it returns \<open>EOB_INVAL\<close> and the device is unchanged.
\<close>

lemma hdr_add_refuses:
  assumes "quiet w" and "0 < fd" and "hdr_state crc (w_disk w) = Some h"
    and "unat (h_nodes_count h) \<le> 32" and "\<not> add_allowed node_id force h"
  shows "\<exists>w'. eob_hdr_add_device crc fd node_id data force w = Inr (EOB_INVAL, w') \<and>
    w_disk w' = w_disk w"
proof (rule hdr_add_refused [OF assms(1-3) _ assms(5)])
  show "unat (h_nodes_count h) \<le> node_index node_id \<or> node_index node_id < MAX_CLUSTER_SIZE"
    using assms(4) by (auto simp: layout_simps)
qed

text \<open>
  C12. \<open>eob_hdr_add_device\<close> on a device with a valid header, whatever its node count. For an index
  below the node count and the 32 entries of the table, whose entry is free (or with \<open>force\<close>), it
  succeeds, the header afterwards is the old one with exactly that entry replaced, and no byte behind
  the physical block of the header changes. An index that is negative or not below the node count,
  and an occupied entry without \<open>force\<close>, is refused with \<open>EOB_INVAL\<close> and the device is unchanged. An
  index below the node count and not below 32, which only a header with more than 32 nodes admits
  (\<open>eob_hdr_init\<close> writes such headers), is an access outside the table.
\<close>

theorem hdr_add_outcomes:
  assumes "quiet w" and "0 < fd" and "hdr_state crc (w_disk w) = Some h" and "fd_fits h"
  shows "if MAX_CLUSTER_SIZE \<le> node_index node_id \<and> node_index node_id < unat (h_nodes_count h) then
      eob_hdr_add_device crc fd node_id data force w = Inl UB
    else if add_allowed node_id force h then
      \<exists>w' h'. eob_hdr_add_device crc fd node_id data force w = Inr (EOB_OK, w') \<and>
        hdr_state crc (w_disk w') = Some h' \<and> h_nodes h' = (h_nodes h)[node_index node_id := data] \<and>
        h_nodes_count h' = h_nodes_count h \<and> h_virt_blk_size h' = h_virt_blk_size h \<and>
        h_phys_blk_size h' = h_phys_blk_size h \<and>
        (\<forall>off n. unat (h_phys_blk_size h) \<le> off \<longrightarrow> bslice off n (w_disk w') = bslice off n (w_disk w))
    else \<exists>w'. eob_hdr_add_device crc fd node_id data force w = Inr (EOB_INVAL, w') \<and> w_disk w' = w_disk w"
proof (cases "MAX_CLUSTER_SIZE \<le> node_index node_id \<and> node_index node_id < unat (h_nodes_count h)")
  case True
  then show ?thesis using hdr_add_overflow [OF assms(1-3)] by simp
next
  case in_table: False
  show ?thesis
  proof (cases "add_allowed node_id force h")
    case True
    then have "node_index node_id < MAX_CLUSTER_SIZE" using in_table by (auto simp: add_allowed_def)
    then show ?thesis using hdr_add_updates [OF assms _ True, of data] in_table True by simp
  next
    case False
    have "unat (h_nodes_count h) \<le> node_index node_id \<or> node_index node_id < MAX_CLUSTER_SIZE" using in_table by linarith
    from hdr_add_refused [OF assms(1-3) this False, of data] show ?thesis unfolding if_not_P [OF in_table] if_not_P [OF False] .
  qed
qed

theorem hdr_add_outcomes_witness:
  "(\<exists>w' h'. eob_hdr_add_device demo_crc 3 1 demo_node 0 (demo_world demo_header) = Inr (EOB_OK, w') \<and>
      hdr_state demo_crc (w_disk w') = Some h' \<and> h_nodes h' = (replicate 32 empty_node)[1 := demo_node]) \<and>
   (\<exists>w'. eob_hdr_add_device demo_crc 3 (-1) demo_node 1 (demo_world demo_header) = Inr (EOB_INVAL, w') \<and>
      w_disk w' = header_bytes demo_header)"
proof -
  have "2 \<le> node_index (-1)" using unat_scast_neg [of "-1"] by (simp add: node_index_def)
  then have refuse: "\<not> add_allowed (-1) 1 demo_header" by (simp add: add_allowed_def demo_counts)
  have ok: "add_allowed 1 0 demo_header" "node_index 1 = 1"
    by (simp_all add: node_index_def add_allowed_def demo_counts demo_nodes layout_simps)
  note run = hdr_add_outcomes [OF demo_quiet _ demo_view demo_fits, of 3 _ demo_node]
  show ?thesis
    using run [of 1 0] run [of "-1" 1] ok refuse demo_counts demo_nodes \<open>2 \<le> node_index (-1)\<close>
    by (auto simp: demo_world_def layout_simps)
qed

text \<open>
  C14. \<open>eob_hdr_rem_device\<close> undoes \<open>eob_hdr_add_device\<close>: adding a present node to an entry that
  was empty and removing it again succeeds, and the header is the one before both calls up to
  its (renewed) checksum.
\<close>

theorem hdr_add_rem_roundtrip:
  assumes q: "quiet w" "0 < fd" and v: "hdr_state crc (w_disk w) = Some h" and f: "fd_fits h"
    and i: "node_index node_id < MAX_CLUSTER_SIZE" "node_index node_id < unat (h_nodes_count h)"
    and e: "h_nodes h ! node_index node_id = empty_node" and p: "EOB_NODE_IS_PRESENT data"
  shows "\<exists>w1 w2. eob_hdr_add_device crc fd node_id data force w = Inr (EOB_OK, w1) \<and>
    eob_hdr_rem_device crc fd node_id w1 = Inr (EOB_OK, w2) \<and>
    hdr_state crc (w_disk w2) = Some (eob_header_chksum_calc crc h)"
proof -
  let ?i = "node_index node_id"
  let ?h1 = "with_node crc ?i data h" and ?h2 = "with_node crc ?i empty_node (with_node crc ?i data h)"
  have len: "?i < length (h_nodes h)" using f i(1) by (simp add: fd_fits_def wf_header_def layout_simps)
  have al: "add_allowed node_id force h" using i(2) e by (simp add: add_allowed_def)
  obtain w1 where a: "eob_hdr_add_device crc fd node_id data force w = Inr (EOB_OK, w1)"
    and w1: "fd_store.written fd ?h1 w w1"
    using hdr_add_written [OF q v f i(1) al] by blast
  note f1 = with_node_fits [OF f] and g1 = with_node_good [OF hdr_state_good [OF v]]
  have v1: "hdr_state crc (w_disk w1) = Some ?h1"
    by (rule fd_store.written_state [OF w1 f1 g1])
  have q1: "quiet w1" using w1 by (simp add: fd_store.written_def)
  have "EOB_NODE_IS_PRESENT (h_nodes ?h1 ! ?i)" using p len by simp
  then obtain w2 where r: "eob_hdr_rem_device crc fd node_id w1 = Inr (EOB_OK, w2)"
    and w2: "fd_store.written fd ?h2 w1 w2"
    using hdr_rem_written [OF q1 q(2) v1 f1 i(1)] by blast
  have "hdr_state crc (w_disk w2) = Some ?h2"
    by (rule fd_store.written_state [OF w2 with_node_fits [OF f1] with_node_good [OF g1]])
  moreover have "(h_nodes h)[?i := empty_node] = h_nodes h"
    using e by (metis list_update_id)
  then have "?h2 = eob_header_chksum_calc crc h"
    by (simp add: with_node_def eob_header_chksum_calc_def peamb_bytes_def)
  ultimately show ?thesis using a r by auto
qed

theorem hdr_add_rem_roundtrip_witness:
  "\<exists>w1 w2. eob_hdr_add_device demo_crc 3 1 demo_node 0 (demo_world demo_header) = Inr (EOB_OK, w1) \<and>
    eob_hdr_rem_device demo_crc 3 1 w1 = Inr (EOB_OK, w2) \<and>
    hdr_state demo_crc (w_disk w2) = Some demo_header"
proof -
  have "EOB_NODE_IS_PRESENT demo_node"
    by (simp add: EOB_NODE_IS_PRESENT_def demo_node_def EOB_NODE_PRESENT_def)
  moreover have "eob_header_chksum_calc demo_crc demo_header = demo_header"
    by (simp add: demo_header_def init_header_def eob_header_chksum_calc_def)
  ultimately show ?thesis
    using hdr_add_rem_roundtrip [of "demo_world demo_header" 3 demo_crc demo_header 1 demo_node 0]
      demo_quiet demo_view demo_fits
    by (simp add: node_index_def demo_counts demo_nodes layout_simps)
qed

end
