(* ===== verification/Eob_Header_Race.thy ===== *)
theory Eob_Header_Race
  imports Eob_Header_Ops
begin

text \<open>
  Two processes that change the node table at once: the header operations of
  \<open>src/lib/liboblock.c\<close> read the header, change it and write it back, without a lock.
\<close>

section \<open>Reading and writing in one interleaving\<close>

lemma read_undisturbed:
  assumes "w_sched w = Quiet # es" and "hdr_state crc (w_disk w) = Some h" and "0 < fd"
  shows "eob_read_header crc fd zero_header w = Inr (EOB_OK, h, w\<lparr>w_sched := es\<rparr>)"
proof -
  have rd: "sys_pread EOB_HDR_SIZE eob_header_offset w = (Some (bslice 0 EOB_HDR_SIZE (w_disk w)), w\<lparr>w_sched := es\<rparr>)"
    using assms(1) by (simp add: sys_pread_def)
  have h: "EOB_HDR_SIZE \<le> length (w_disk w)" "h = header_of_bytes (bslice 0 EOB_HDR_SIZE (w_disk w))" "good_header crc h"
    using assms(2) unfolding hdr_state_Some_iff by blast+
  then have "read_header_pass crc zero_header w = (Some EOB_OK, h, w\<lparr>w_sched := es\<rparr>)"
    using read_header_pass_full [OF rd _ wf_zero_header, of crc] by (simp add: Let_def)
  then have "read_header_loop crc max_pass zero_header w = (EOB_OK, h, w\<lparr>w_sched := es\<rparr>)"
    by (simp add: max_pass_def numeral_eq_Suc)
  then show ?thesis using assms(3) by (simp add: eob_read_header_def)
qed

lemma write_after_peer:
  assumes "w_sched w = Peer_write 0 img # es" and f: "fd_fits h" and "0 < fd"
  obtains w' where "eob_write_header fd h w = Inr (EOB_OK, w')"
    and "w_disk w' = overlay 0 (header_image h) (overlay 0 img (w_disk w))"
proof -
  let ?n = "unat (h_phys_blk_size h)" and ?disk = "overlay 0 (header_image h) (overlay 0 img (w_disk w))"
  have len: "length (header_bytes h) = EOB_HDR_SIZE" and n: "EOB_HDR_SIZE \<le> ?n" "?n < 2 ^ 63" "0 < ?n"
    using f by (auto simp: fd_fits_def header.length_enc layout_simps)
  have "header_bytes h \<noteq> []" using len by (auto simp: layout_simps)
  then have img: "overlay 0 (header_bytes h) (replicate ?n 0) = header_image h"
    using len by (simp add: overlay_0 header_image_def)
  have s: "w_sched (malloc_until_ok w) = Peer_write 0 img # es" using assms(1) by simp
  have "eob_write_header fd h w =
    (let (rv, w) = sys_pwrite (header_image h) eob_header_offset (malloc_until_ok w) in
     if rv = None then Inr (SET_IO_ERR, w) else Inr (0, w))"
    using assms(3) n len img by (simp add: eob_write_header_def)
  moreover have "sys_pwrite (header_image h) eob_header_offset (malloc_until_ok w) =
    (Some (length (header_image h)), (malloc_until_ok w)\<lparr>w_sched := es, w_disk := ?disk\<rparr>)"
    using s by (simp add: sys_pwrite_def)
  ultimately show thesis
    by (intro that [of "(malloc_until_ok w)\<lparr>w_sched := es, w_disk := ?disk\<rparr>"]) simp_all
qed

section \<open>Property\<close>

text \<open>
  C13. Additions are not atomic: when a second process adds its node between the read and the write
  of a first one, both calls return \<open>EOB_OK\<close>, and the header is valid after both, but it has the
  node of the first process only. Right after its own call the second node was in the table.
\<close>

theorem hdr_add_lost_update:
  assumes v: "hdr_state crc (w_disk w) = Some h" and f: "fd_fits h" and fd: "0 < fd" "0 < fd2"
    and i: "node_index id1 < MAX_CLUSTER_SIZE" "add_allowed id1 force h"
    and j: "node_index id2 < MAX_CLUSTER_SIZE" "add_allowed id2 force2 h"
    and w2: "quiet w2" "w_disk w2 = w_disk w" "eob_hdr_add_device crc fd2 id2 data2 force2 w2 = Inr (rv2, w2')"
    and w: "w_sched w = Quiet # Peer_write 0 (w_disk w2') # es"
  shows "\<exists>w' h2 h1. eob_hdr_add_device crc fd id1 data1 force w = Inr (EOB_OK, w') \<and> rv2 = EOB_OK \<and>
    hdr_state crc (w_disk w2') = Some h2 \<and> h_nodes h2 = (h_nodes h)[node_index id2 := data2] \<and>
    hdr_state crc (w_disk w') = Some h1 \<and> h_nodes h1 = (h_nodes h)[node_index id1 := data1]"
proof -
  let ?h1 = "with_node crc (node_index id1) data1 h" and ?h2 = "with_node crc (node_index id2) data2 h"
  have good: "good_header crc ?h1" "good_header crc ?h2" using with_node_good [OF hdr_state_good [OF v]] by blast+
  have v2: "hdr_state crc (w_disk w2) = Some h" using v w2(2) by simp
  have r2: "rv2 = EOB_OK \<and> fd_store.written fd2 ?h2 w2 w2'"
    using hdr_add_written [OF w2(1) fd(2) v2 f j, of data2] w2(3) by auto
  then have s2: "hdr_state crc (w_disk w2') = Some ?h2"
    using fd_store.written_state [OF _ with_node_fits [OF f] good(2)] by blast
  let ?w = "w\<lparr>w_sched := Peer_write 0 (w_disk w2') # es\<rparr>"
  have rd: "eob_read_header crc fd zero_header w = Inr (EOB_OK, h, ?w)" by (rule read_undisturbed [OF w v fd(1)])
  obtain w' where wr: "eob_write_header fd ?h1 ?w = Inr (EOB_OK, w')"
    "w_disk w' = overlay 0 (header_image ?h1) (overlay 0 (w_disk w2') (w_disk ?w))"
    by (rule write_after_peer [of ?w "w_disk w2'" es, OF _ with_node_fits [OF f] fd(1)]) auto
  have "wf_header ?h1" using with_node_fits [OF f] by (simp add: fd_fits_def)
  then have "hdr_state crc (w_disk w') = Some ?h1"
    unfolding wr(2) header_image_def using good(1) by (rule hdr_state_overlay)
  moreover have "\<not> (scast id1 :: u64) \<ge> h_nodes_count h"
    using i(2) by (simp add: add_allowed_def node_index_def word_le_nat_alt)
  then have "eob_hdr_add_device crc fd id1 data1 force w = Inr (EOB_OK, w')"
    using rd wr(1) i by (auto simp: eob_hdr_add_device_def node_get_in node_set_in add_allowed_def with_node_def Let_def)
  ultimately show ?thesis using r2 s2 by (intro exI [of _ w'] exI [of _ ?h2] exI [of _ ?h1]) simp
qed

theorem hdr_add_lost_update_witness:
  "\<exists>w2 w' h2 h1. eob_hdr_add_device demo_crc 3 1 demo_node 0 (demo_world demo_header) = Inr (EOB_OK, w2) \<and>
    hdr_state demo_crc (w_disk w2) = Some h2 \<and> h_nodes h2 ! 1 = demo_node \<and>
    eob_hdr_add_device demo_crc 3 0 demo_node 0 ((demo_world demo_header)\<lparr>w_sched := [Quiet, Peer_write 0 (w_disk w2)]\<rparr>) =
      Inr (EOB_OK, w') \<and>
    hdr_state demo_crc (w_disk w') = Some h1 \<and> h_nodes h1 = (replicate 32 empty_node)[0 := demo_node]"
proof -
  have al: "node_index 0 < MAX_CLUSTER_SIZE" "add_allowed 0 0 demo_header" "node_index 1 < MAX_CLUSTER_SIZE"
    "add_allowed 1 0 demo_header" "node_index 0 = 0" "node_index 1 = 1"
    by (simp_all add: node_index_def add_allowed_def demo_counts demo_nodes layout_simps)
  obtain w2 where w2: "eob_hdr_add_device demo_crc 3 1 demo_node 0 (demo_world demo_header) = Inr (EOB_OK, w2)"
    using hdr_add_written [OF demo_quiet _ demo_view demo_fits al(3,4), of 3 demo_node] by auto
  have "hdr_state demo_crc (w_disk ((demo_world demo_header)\<lparr>w_sched := [Quiet, Peer_write 0 (w_disk w2)]\<rparr>)) = Some demo_header"
    using demo_view by simp
  from hdr_add_lost_update [OF this demo_fits _ _ al(1-4) demo_quiet _ w2, of 3 "[]" demo_node] show ?thesis
    using w2 al(5,6) demo_nodes by auto
qed

end
