(* ===== verification/Eob_Buff.thy ===== *)
theory Eob_Buff
  imports Eob_Header
begin

text \<open>
  \<open>struct eob_buff\<close> of \<open>src/lib/liboblock.c\<close>: the data of one transfer cut into physical
  blocks, written to and read from a node's block with one vectored call. A buffer is passed
  and returned by value; the array of block vectors is null or a list of vectors.
\<close>

record eob_buff =
  b_dev :: eob_device
  b_virt_blk_size :: u64
  b_phys_blk_size :: u64
  b_data :: iovec
  b_phys_base :: "iovec list option"
  b_phys_len :: nat

definition SIZEOF_IOVEC :: nat where [layout_simps]: "SIZEOF_IOVEC = 16"

definition null_iovec :: iovec where
  "null_iovec = \<lparr>iov_base = None, iov_len = 0\<rparr>"

section \<open>Vectored transfers\<close>

text \<open>\<open>pwritev\<close> and \<open>preadv\<close> refuse more than \<open>IOV_MAX\<close> vectors.\<close>

definition IOV_MAX :: nat where "IOV_MAX = 1024"

definition gather :: "iovec list \<Rightarrow> bytes" where
  "gather vs = concat (map (\<lambda>v. case iov_base v of None \<Rightarrow> [] | Some d \<Rightarrow> take (iov_len v) d) vs)"

fun scatter :: "bytes \<Rightarrow> iovec list \<Rightarrow> iovec list" where
  "scatter bs [] = []"
| "scatter bs (v # vs) =
     v\<lparr>iov_base := map_option (overlay 0 (take (iov_len v) bs)) (iov_base v)\<rparr> #
     scatter (drop (iov_len v) bs) vs"

definition sys_pwritev :: "iovec list \<Rightarrow> u64 \<Rightarrow> eob_world \<Rightarrow> nat option \<times> eob_world" where
  "sys_pwritev vs off w =
     (if length vs > IOV_MAX then (None, w) else sys_pwrite (gather vs) off w)"

definition sys_preadv :: "iovec list \<Rightarrow> u64 \<Rightarrow> eob_world \<Rightarrow> (nat \<times> iovec list) option \<times> eob_world" where
  "sys_preadv vs off w =
     (if length vs > IOV_MAX then (None, w)
      else
        (let (r, w) = sys_pread (sum_list (map iov_len vs)) off w
         in (map_option (\<lambda>bs. (length bs, scatter bs vs)) r, w)))"

section \<open>Mapping data to blocks\<close>

text \<open>\<open>P2ROUNDUP(len, phys) / phys\<close>; a division by zero is undefined.\<close>

definition io_count :: "u64 \<Rightarrow> u64 \<Rightarrow> fault + u64" where
  "io_count len phys = (if phys = 0 then Inl UB else Inr (P2ROUNDUP len phys div phys))"

text \<open>The vector array: on failure the length field is already set.\<close>

definition alloc_phys_array :: "u64 \<Rightarrow> eob_buff \<Rightarrow> eob_world \<Rightarrow> bool \<times> eob_buff \<times> eob_world" where
  "alloc_phys_array n b w =
     (let len = unat (n * word_of_nat SIZEOF_IOVEC);
          (p, w) = sys_malloc len w
      in (p \<noteq> None, b\<lparr>b_phys_len := len, b_phys_base := None\<rparr>, w))"

fun alloc_blocks :: "nat \<Rightarrow> nat \<Rightarrow> eob_world \<Rightarrow> fault + iovec list \<times> eob_world" where
  "alloc_blocks 0 sz w = Inr ([], w)"
| "alloc_blocks (Suc n) sz w =
     bindr (eob_iovec_alloc_wait \<lparr>iov_base = None, iov_len = sz\<rparr> w) (\<lambda>(v, w).
     bindr (alloc_blocks n sz w) (\<lambda>(vs, w). Inr (v # vs, w)))"

definition eob_buff_alloc_phys :: "eob_buff \<Rightarrow> eob_world \<Rightarrow> fault + int \<times> eob_buff \<times> eob_world" where
  "eob_buff_alloc_phys b w =
     bindr (io_count (b_virt_blk_size b) (b_phys_blk_size b)) (\<lambda>n.
     let (ok, b, w) = alloc_phys_array n b w in
     if \<not> ok then bindr (SET_ERR ENOMEM) (\<lambda>rv. Inr (rv, b, w))
     else
       bindr (alloc_blocks (unat n) (unat (b_phys_blk_size b)) w) (\<lambda>(vs, w).
       Inr (0, b\<lparr>b_phys_base := Some vs\<rparr>, w)))"

fun copy_blocks :: "iovec list \<Rightarrow> nat \<Rightarrow> nat \<Rightarrow> bytes \<Rightarrow> fault + nat \<times> bytes" where
  "copy_blocks [] copied data_len dst = Inr (copied, dst)"
| "copy_blocks (v # vs) copied data_len dst =
     bindr (c_deref (iov_base v)) (\<lambda>src.
     bindr (c_memcpy dst copied src (iov_len v)) (\<lambda>dst.
     if copied + iov_len v \<ge> data_len then Inr (copied + iov_len v, dst)
     else copy_blocks vs (copied + iov_len v) data_len dst))"

definition eob_buff_map_phys_to_data ::
    "eob_buff \<Rightarrow> nat \<Rightarrow> eob_world \<Rightarrow> fault + int \<times> eob_buff \<times> eob_world" where
  "eob_buff_map_phys_to_data b data_len w =
     bindr (verify (iov_base (b_data b) = None)) (\<lambda>_.
     bindr (verify (iov_len (b_data b) = 0)) (\<lambda>_.
     bindr (eob_iovec_alloc_wait ((b_data b)\<lparr>iov_len := data_len\<rparr>) w) (\<lambda>(d, w).
     bindr (c_deref (iov_base d)) (\<lambda>dst.
     bindr (if b_phys_len b div SIZEOF_IOVEC = 0 then Inr [] else c_deref (b_phys_base b)) (\<lambda>vs.
     bindr (copy_blocks vs 0 data_len dst) (\<lambda>(copied, dst).
     bindr (verify (copied = data_len)) (\<lambda>_.
     Inr (0, b\<lparr>b_data := d\<lparr>iov_base := Some dst\<rparr>\<rparr>, w))))))))"

text \<open>
  The loop of \<open>eob_buff_map_data_to_phys\<close> from index \<open>i\<close> with \<open>n\<close> blocks to go: every block is
  allocated and filled from the data, the last one with what is left.
\<close>

fun fill_blocks :: "nat \<Rightarrow> nat \<Rightarrow> nat \<Rightarrow> iovec \<Rightarrow> eob_world \<Rightarrow> fault + iovec list \<times> eob_world" where
  "fill_blocks 0 i sz data w = Inr ([], w)"
| "fill_blocks (Suc n) i sz data w =
     bindr (eob_iovec_alloc_wait \<lparr>iov_base = None, iov_len = sz\<rparr> w) (\<lambda>(v, w).
     bindr (c_deref (iov_base v)) (\<lambda>dst.
     bindr (c_deref (iov_base data)) (\<lambda>src.
     bindr (if n > 0 then c_memcpy dst 0 (drop (i * sz) src) sz
            else c_memcpy dst 0 (drop (i * sz) src) (iov_len data - i * sz)) (\<lambda>dst.
     bindr (fill_blocks n (Suc i) sz data w) (\<lambda>(vs, w).
     Inr (v\<lparr>iov_base := Some dst\<rparr> # vs, w))))))"

definition eob_buff_map_data_to_phys :: "eob_buff \<Rightarrow> eob_world \<Rightarrow> fault + int \<times> eob_buff \<times> eob_world" where
  "eob_buff_map_data_to_phys b w =
     bindr (io_count (word_of_nat (iov_len (b_data b))) (b_phys_blk_size b)) (\<lambda>n.
     let (ok, b, w) = alloc_phys_array n b w in
     if \<not> ok then bindr (SET_ERR ENOMEM) (\<lambda>rv. Inr (rv, b, w))
     else
       bindr (fill_blocks (unat n) 0 (unat (b_phys_blk_size b)) (b_data b) w) (\<lambda>(vs, w).
       Inr (0, b\<lparr>b_phys_base := Some vs\<rparr>, w)))"

section \<open>Transfers of a node's block\<close>

text \<open>Block \<open>node\<close> starts behind the header; the product wraps at 64 bits as \<open>size_t\<close> does.\<close>

definition blk_offset :: "eob_buff \<Rightarrow> u64 \<Rightarrow> u64" where
  "blk_offset b virt_offset =
     eob_header_offset + word_of_nat EOB_HDR_SIZE + (b_virt_blk_size b * virt_offset)"

definition phys_vecs :: "eob_buff \<Rightarrow> fault + iovec list" where
  "phys_vecs b = (if b_phys_len b div SIZEOF_IOVEC = 0 then Inr [] else c_deref (b_phys_base b))"

definition eob_buff_write_impl :: "eob_buff \<Rightarrow> u64 \<Rightarrow> eob_world \<Rightarrow> fault + int \<times> eob_world" where
  "eob_buff_write_impl b virt_offset w =
     bindr (phys_vecs b) (\<lambda>vs.
     let (rv, w) = sys_pwritev vs (blk_offset b virt_offset) w in
     if rv = None then Inr (SET_IO_ERR, w) else Inr (0, w))"

definition eob_buff_write :: "eob_buff \<Rightarrow> u64 \<Rightarrow> eob_world \<Rightarrow> fault + int \<times> eob_buff \<times> eob_world" where
  "eob_buff_write b node_id w =
     bindr (eob_buff_map_data_to_phys b w) (\<lambda>(rv, b, w).
     if rv \<noteq> 0 then Inr (rv, b, w)
     else bindr (eob_buff_write_impl b node_id w) (\<lambda>(rv, w). Inr (rv, b, w)))"

definition eob_buff_read_impl :: "eob_buff \<Rightarrow> eob_world \<Rightarrow> fault + int \<times> eob_buff \<times> eob_world" where
  "eob_buff_read_impl b w =
     (let virt_offset = ucast (hw_node_id (d_addr (b_dev b))) in
      bindr (phys_vecs b) (\<lambda>vs.
      let (r, w) = sys_preadv vs (blk_offset b virt_offset) w in
      case r of
        None \<Rightarrow> Inr (SET_IO_ERR, b, w)
      | Some (n, vs) \<Rightarrow> eob_buff_map_phys_to_data (b\<lparr>b_phys_base := Some vs\<rparr>) n w))"

definition eob_buff_read :: "eob_buff \<Rightarrow> eob_world \<Rightarrow> fault + int \<times> eob_buff \<times> eob_world" where
  "eob_buff_read b w =
     bindr (eob_buff_alloc_phys b w) (\<lambda>(rv, b, w).
     if rv \<noteq> 0 then Inr (rv, b, w) else eob_buff_read_impl b w)"

section \<open>Creation and destruction\<close>

definition eob_buff_create ::
    "eob_device \<Rightarrow> iovec option \<Rightarrow> eob_world \<Rightarrow> fault + eob_buff option \<times> eob_world" where
  "eob_buff_create dev data w =
     (let (ok, w) = malloc_ok w in
      if \<not> ok then Inr (None, w)
      else
        bindr (case data of None \<Rightarrow> Inr (0, null_iovec, w) | Some d \<Rightarrow> eob_iovec_copy null_iovec d w)
          (\<lambda>(rv, v, w).
        if rv \<noteq> 0 then Inr (None, w)
        else Inr (Some \<lparr>b_dev = dev, b_virt_blk_size = h_virt_blk_size (d_hdr dev),
               b_phys_blk_size = h_phys_blk_size (d_hdr dev), b_data = v,
               b_phys_base = None, b_phys_len = 0\<rparr>, w)))"

text \<open>Freeing walks over the vector array, which must be there when its length is not 0.\<close>

definition eob_buff_destroy :: "eob_buff \<Rightarrow> fault + unit" where
  "eob_buff_destroy b = bindr (phys_vecs b) (\<lambda>_. Inr ())"

end
