(* ===== verification/Eob_Device.thy ===== *)
theory Eob_Device
  imports Eob_Buff
begin

text \<open>
  Sending and receiving packets, and opening a device: \<open>eob_device_send_raw\<close>,
  \<open>eob_device_recv_raw\<close>, \<open>eob_device_send\<close>, \<open>eob_device_recv\<close>, the string variants,
  \<open>eob_device_init_hdr\<close>, \<open>eob_device_open_fd\<close>, \<open>eob_device_open_file\<close> and \<open>eob_device_open\<close> of
  \<open>src/lib/liboblock.c\<close>.
\<close>

definition EOB_MAX_VIRT_BLK_SIZE :: nat where [layout_simps]: "EOB_MAX_VIRT_BLK_SIZE = 1048576"

section \<open>Raw blocks\<close>

definition eob_device_send_raw ::
    "eob_device \<Rightarrow> eob_hw_addr \<Rightarrow> iovec \<Rightarrow> eob_world \<Rightarrow> fault + int \<times> eob_world" where
  "eob_device_send_raw dev dst d w =
     bindr (eob_buff_create dev (Some d) w) (\<lambda>(buff, w).
     case buff of
       None \<Rightarrow> bindr (SET_ERR EOB_NOMEM) (\<lambda>rv. Inr (rv, w))
     | Some b \<Rightarrow>
         bindr (eob_buff_write b (ucast (hw_node_id dst)) w) (\<lambda>(rv, b, w).
         bindr (eob_buff_destroy b) (\<lambda>_. Inr (rv, w))))"

definition eob_device_recv_raw ::
    "eob_device \<Rightarrow> eob_world \<Rightarrow> fault + int \<times> iovec \<times> eob_world" where
  "eob_device_recv_raw dev w =
     bindr (eob_buff_create dev None w) (\<lambda>(buff, w).
     case buff of
       None \<Rightarrow> bindr (SET_ERR EOB_NOMEM) (\<lambda>rv. Inr (rv, null_iovec, w))
     | Some b \<Rightarrow>
         bindr (eob_buff_read b w) (\<lambda>(rv, b, w).
         if rv \<noteq> 0 then bindr (eob_buff_destroy b) (\<lambda>_. Inr (rv, null_iovec, w))
         else
           bindr (eob_iovec_copy null_iovec (b_data b) w) (\<lambda>(e, d, w).
           if e \<noteq> 0 then bindr (SET_ERR EOB_NOMEM) (\<lambda>rv. Inr (rv, d, w))
           else bindr (eob_buff_destroy b) (\<lambda>_. Inr (rv, d, w)))))"

section \<open>Packets\<close>

text \<open>
  One case of the receiving \<open>switch\<close>, the same code for every packet structure: \<open>d\<close> is cast to
  a packet of \<open>sz\<close> bytes. Reading a member outside the received bytes is undefined, and so is a
  \<open>memcpy\<close> of more than the \<open>data\<close> array holds.
\<close>

definition recv_unpack ::
    "nat \<Rightarrow> iovec \<Rightarrow> eob_world \<Rightarrow> fault + eob_packet_head \<times> iovec \<times> u64 \<times> eob_world" where
  "recv_unpack sz d w =
     bindr (c_deref (iov_base d)) (\<lambda>pkt.
     bindr (guard UB (24 \<le> length pkt)) (\<lambda>_.
     let head = packet_head_of_bytes (bslice 0 24 pkt);
         len = unat (ph_data_len head) in
     bindr (verify (len < EOB_MAX_VIRT_BLK_SIZE)) (\<lambda>_.
     bindr (eob_iovec_alloc_wait \<lparr>iov_base = None, iov_len = len\<rparr> w) (\<lambda>(v, w).
     bindr (c_deref (iov_base v)) (\<lambda>dst.
     bindr (c_memcpy dst 0 (bslice 24 (pkt_data_size sz) pkt) len) (\<lambda>dst.
     bindr (guard UB (sz \<le> length pkt)) (\<lambda>_.
     Inr (head, v\<lparr>iov_base := Some dst\<rparr>, un_le64 (bslice (sz - 8) 8 pkt), w))))))))"

text \<open>
  The two out parameters are \<open>Some\<close> exactly when they are written. The default branch of the
  \<open>switch\<close> is \<open>NOT_IMPLEMENTED()\<close>, a failing \<open>VERIFY\<close>.
\<close>

definition eob_device_recv ::
    "crc_fn \<Rightarrow> eob_device \<Rightarrow> eob_world \<Rightarrow> fault + int \<times> (iovec \<times> eob_hw_addr) option \<times> eob_world" where
  "eob_device_recv crc dev w =
     bindr (eob_device_recv_raw dev w) (\<lambda>(rv, d, w).
     if rv \<noteq> 0 then Inr (rv, None, w)
     else
       let sz = unat (h_virt_blk_size (d_hdr dev)) in
       bindr (if sz = 512 then recv_unpack 512 d w
              else if sz = 4096 then recv_unpack 4096 d w
              else if sz = 2 * 4096 then recv_unpack 8192 d w
              else Inl Abort) (\<lambda>(head, data, chksum, w).
       bindr (c_deref (iov_base data)) (\<lambda>bs.
       if eob_chcksum_calc crc (take (iov_len data) bs) \<noteq> chksum then
         bindr (SET_ERR EOB_CHKSUM) (\<lambda>rv. Inr (rv, None, w))
       else Inr (0, Some (data, ph_src_addr head), w))))"

text \<open>One case of the sending \<open>switch\<close>: the packet of \<open>sz\<close> bytes, duplicated on the heap.\<close>

definition send_pack ::
    "nat \<Rightarrow> eob_packet_head \<Rightarrow> u64 \<Rightarrow> bytes \<Rightarrow> nat \<Rightarrow> eob_world \<Rightarrow> fault + iovec \<times> eob_world" where
  "send_pack sz head chksum src len w =
     bindr (c_memcpy (replicate (pkt_data_size sz) 0) 0 src len) (\<lambda>data.
     let pkt = \<lparr>pk_head = head, pk_data = data, pk_chksum = chksum\<rparr>;
         (p, w) = memdup (packet_bytes pkt) w in
     Inr (\<lparr>iov_base = p, iov_len = sz\<rparr>, w))"

definition eob_device_send ::
    "crc_fn \<Rightarrow> eob_device \<Rightarrow> iovec \<Rightarrow> eob_hw_addr \<Rightarrow> eob_world \<Rightarrow> fault + int \<times> eob_world" where
  "eob_device_send crc dev data dst w =
     (if iov_len data > unat (h_virt_blk_size (d_hdr dev)) then
        bindr (SET_ERR EOB_2BIG) (\<lambda>rv. Inr (rv, w))
      else
        bindr (c_deref (iov_base data)) (\<lambda>src.
        bindr (guard UB (iov_len data \<le> length src)) (\<lambda>_.
        let head = \<lparr>ph_src_addr = d_addr dev, ph_data_len = word_of_nat (iov_len data)\<rparr>;
            chksum = eob_chcksum_calc crc (take (iov_len data) src);
            sz = unat (h_virt_blk_size (d_hdr dev)) in
        bindr (if sz = 512 then send_pack 512 head chksum src (iov_len data) w
               else if sz = 4096 then send_pack 4096 head chksum src (iov_len data) w
               else Inl Abort) (\<lambda>(vpkt, w).
        eob_device_send_raw dev dst vpkt w))))"

section \<open>Strings\<close>

definition c_strlen :: "bytes \<Rightarrow> fault + nat" where
  "c_strlen s = (if 0 \<in> set s then Inr (length (takeWhile (\<lambda>c. c \<noteq> 0) s)) else Inl UB)"

definition eob_device_send_str ::
    "crc_fn \<Rightarrow> eob_device \<Rightarrow> bytes \<Rightarrow> eob_hw_addr \<Rightarrow> eob_world \<Rightarrow> fault + int \<times> eob_world" where
  "eob_device_send_str crc dev s dst w =
     bindr (c_strlen s) (\<lambda>n. eob_device_send crc dev \<lparr>iov_base = Some s, iov_len = n + 1\<rparr> dst w)"

definition eob_device_recv_str ::
    "crc_fn \<Rightarrow> eob_device \<Rightarrow> eob_world \<Rightarrow>
       fault + int \<times> (bytes option \<times> eob_hw_addr) option \<times> eob_world" where
  "eob_device_recv_str crc dev w =
     bindr (eob_device_recv crc dev w) (\<lambda>(rv, out, w).
     case out of
       None \<Rightarrow> Inr (rv, None, w)
     | Some (v, src) \<Rightarrow>
         if iov_len v = 0 then Inr (0, Some (None, src), w)
         else
           bindr (c_deref (iov_base v)) (\<lambda>s.
           bindr (c_strlen s) (\<lambda>n.
           bindr (verify (n + 1 = iov_len v)) (\<lambda>_.
           Inr (0, Some (Some s, src), w)))))"

section \<open>Opening\<close>

definition eob_device_init_hdr ::
    "crc_fn \<Rightarrow> eob_device \<Rightarrow> int \<Rightarrow> eob_world \<Rightarrow> fault + int \<times> eob_device \<times> eob_world" where
  "eob_device_init_hdr crc dev force w =
     (let rewrite = (if force \<noteq> 0 then B_TRUE else B_FALSE) in
      bindr (eob_device_read_header crc dev zero_header w) (\<lambda>(rv, hdr, w).
      if rv \<noteq> 0 \<and> rv \<noteq> EOB_CHKSUM \<and> rv \<noteq> EOB_VER_MISM then Inr (rv, dev, w)
      else
        let rewrite = (if rv \<noteq> 0 then B_TRUE else rewrite) in
        if rewrite = B_FALSE then
          bindr (int_shl1 (hw_phys_blk_shift (d_addr dev))) (\<lambda>phys.
          if h_phys_blk_size hdr \<noteq> word_of_int phys then
            bindr (SET_ERR EOB_INVAL) (\<lambda>rv. Inr (rv, dev, w))
          else
            bindr (int_shl1 (hw_virt_blk_shift (d_addr dev))) (\<lambda>virt.
            if h_virt_blk_size hdr \<noteq> word_of_int virt then
              bindr (SET_ERR EOB_INVAL) (\<lambda>rv. Inr (rv, dev, w))
            else if h_virt_blk_size hdr < h_phys_blk_size hdr then
              bindr (SET_ERR EOB_INVAL) (\<lambda>rv. Inr (rv, dev, w))
            else Inr (0, dev\<lparr>d_hdr := hdr\<rparr>, w)))
        else
          bindr (int_shl1 (hw_virt_blk_shift (d_addr dev))) (\<lambda>virt.
          bindr (int_shl1 (hw_phys_blk_shift (d_addr dev))) (\<lambda>phys.
          let hdr = hdr\<lparr>h_version := EOB_HDR_VERSION, h_magic := EOB_HDR_MAGIC,
                h_nodes_count := ucast (hw_nodes_count (d_addr dev)),
                h_virt_blk_size := word_of_int virt, h_phys_blk_size := word_of_int phys\<rparr>;
              hdr = eob_header_chksum_calc crc hdr in
          bindr (eob_device_write_header dev hdr w) (\<lambda>(rv, dev, w).
          if rv \<noteq> 0 then Inr (rv, dev, w)
          else Inr (0, dev\<lparr>d_hdr := hdr\<rparr>, w))))))"

definition PATH_MAX :: nat where "PATH_MAX = 4096"

text \<open>
  \<open>eob_device_open_file\<close> and \<open>eob_device_open_fd\<close> differ in where the descriptor comes from:
  \<open>sys_open\<close> is what \<open>open(path, O_RDWR | O_SYNC)\<close> returns.
\<close>

definition open_self ::
    "eob_hw_addr \<Rightarrow> string \<Rightarrow> eob_world \<Rightarrow> fault + (int + eob_device) \<times> eob_world" where
  "open_self addr name w =
     (let (ok, w) = malloc_ok w in
      if \<not> ok then bindr (SET_ERR EOB_NOMEM) (\<lambda>rv. Inr (Inl rv, w))
      else
        bindr (int_shl1 (hw_phys_blk_shift addr)) (\<lambda>phys.
        bindr (eob_iovec_alloc \<lparr>iov_base = None, iov_len = nat phys\<rparr> w) (\<lambda>(rv, v, w).
        if rv \<noteq> 0 then bindr (SET_ERR EOB_NOMEM) (\<lambda>rv. Inr (Inl rv, w))
        else Inr (Inr \<lparr>d_addr = addr, d_path = take PATH_MAX name, d_fd = 0, d_hdr = zero_header,
               d_phys_buff = v\<rparr>, w))))"

definition finish_open ::
    "crc_fn \<Rightarrow> eob_device \<Rightarrow> int \<Rightarrow> eob_world \<Rightarrow> fault + int \<times> eob_device option \<times> eob_world" where
  "finish_open crc self force w =
     bindr (eob_device_init_hdr crc self force w) (\<lambda>(rv, self, w).
     if rv \<noteq> 0 \<and> rv \<noteq> EOB_EALREADY then Inr (rv, None, w)
     else Inr (0, Some self, w))"

definition eob_device_open_fd ::
    "crc_fn \<Rightarrow> eob_hw_addr \<Rightarrow> int \<Rightarrow> string \<Rightarrow> int \<Rightarrow> eob_world \<Rightarrow>
       fault + int \<times> eob_device option \<times> eob_world" where
  "eob_device_open_fd crc addr fd name force w =
     bindr (open_self addr name w) (\<lambda>(r, w).
     case r of
       Inl rv \<Rightarrow> Inr (rv, None, w)
     | Inr self \<Rightarrow> finish_open crc (self\<lparr>d_fd := fd\<rparr>) force w)"

definition eob_device_open_file ::
    "(string \<Rightarrow> int) \<Rightarrow> crc_fn \<Rightarrow> eob_hw_addr \<Rightarrow> string \<Rightarrow> int \<Rightarrow> eob_world \<Rightarrow>
       fault + int \<times> eob_device option \<times> eob_world" where
  "eob_device_open_file sys_open crc addr path force w =
     bindr (open_self addr path w) (\<lambda>(r, w).
     case r of
       Inl rv \<Rightarrow> Inr (rv, None, w)
     | Inr self \<Rightarrow>
         (let rv = sys_open path in
          if rv < 0 then bindr (SET_ERR EOB_NODEV) (\<lambda>rv. Inr (rv, None, w))
          else finish_open crc (self\<lparr>d_fd := rv\<rparr>) force w))"

end
