(* ===== verification/Eob_Buff_Spec.thy ===== *)
theory Eob_Buff_Spec
  imports Eob_Device Eob_Header_Spec
begin

text \<open>
  What the buffer layer promises: on a device whose virtual block is a whole number of
  physical blocks, writing a block-sized buffer for node \<open>n\<close> replaces exactly the bytes of
  node \<open>n\<close>'s block, and reading returns exactly those bytes.
\<close>

section \<open>Worlds in which allocation succeeds\<close>

definition roomy :: "eob_world \<Rightarrow> bool" where
  "roomy w \<longleftrightarrow> set (w_mallocs w) \<subseteq> {True}"

definition calm :: "eob_world \<Rightarrow> bool" where
  "calm w \<longleftrightarrow> quiet w \<and> roomy w"

definition same_io :: "eob_world \<Rightarrow> eob_world \<Rightarrow> bool" where
  "same_io w w' \<longleftrightarrow> w_disk w' = w_disk w \<and> (calm w \<longrightarrow> calm w')"

lemma same_io_refl [simp]: "same_io w w"
  by (simp add: same_io_def)

lemma same_io_trans: "same_io w w' \<Longrightarrow> same_io w' w'' \<Longrightarrow> same_io w w''"
  by (simp add: same_io_def)

lemma same_ioD: "same_io w w' \<Longrightarrow> calm w \<Longrightarrow> calm w'" "same_io w w' \<Longrightarrow> w_disk w' = w_disk w"
  by (simp_all add: same_io_def)

lemma set_malloc_retry: "set (malloc_retry bs) \<subseteq> set bs"
  by (induction bs rule: malloc_retry.induct) auto

lemma same_io_until [simp]: "same_io w (malloc_until_ok w)"
  using set_malloc_retry [of "w_mallocs w"]
  by (auto simp: same_io_def calm_def roomy_def quiet_def malloc_until_ok_def)

lemma calm_malloc_ok:
  assumes "calm w"
  obtains w' where "malloc_ok w = (True, w')" and "same_io w w'"
  using assms by (cases "w_mallocs w") (auto simp: calm_def roomy_def same_io_def quiet_def)

lemma calm_malloc:
  assumes "calm w"
  obtains w' m where "sys_malloc n w = (Some m, w')" and "length m = n" and "same_io w w'"
proof -
  obtain w' where "malloc_ok w = (True, w')" and "same_io w w'"
    using assms by (rule calm_malloc_ok)
  then show thesis by (intro that [of "junk_bytes n w'" w']) (simp_all add: sys_malloc_def del: malloc_ok.simps)
qed

lemma calm_pread:
  assumes "calm w" and "0 \<le> sint off"
  obtains w' where "sys_pread n off w = (Some (bslice (unat off) n (w_disk w)), w')" and "same_io w w'"
  using quiet_pread [of w off n] assms
  by (metis calm_def roomy_def same_io_def)

lemma calm_pwrite:
  assumes "calm w" and "0 \<le> sint off"
  obtains w' where "sys_pwrite bs off w = (Some (length bs), w')"
    and "w_disk w' = overlay (unat off) bs (w_disk w)" and "calm w'"
  using quiet_pwrite [of w off bs] assms by (metis calm_def roomy_def)

lemma calm_iovec_alloc:
  assumes "calm w"
  obtains w' m where "eob_iovec_alloc v w = Inr (0, v\<lparr>iov_base := Some m\<rparr>, w')"
    and "length m = iov_len v" and "same_io w w'"
proof -
  obtain w' m where "sys_malloc (iov_len v) w = (Some m, w')" "length m = iov_len v" "same_io w w'"
    using assms by (rule calm_malloc)
  then show thesis by (intro that [of m w']) (simp_all add: eob_iovec_alloc_def)
qed

lemma calm_iovec_copy:
  assumes "calm w" and "iov_base from = Some src" and "iov_len from \<le> length src"
  obtains w' where "eob_iovec_copy to from w =
      Inr (0, \<lparr>iov_base = Some (take (iov_len from) src), iov_len = iov_len from\<rparr>, w')"
    and "same_io w w'"
proof -
  obtain w' m where "eob_iovec_alloc (to\<lparr>iov_len := iov_len from\<rparr>) w =
      Inr (0, (to\<lparr>iov_len := iov_len from\<rparr>)\<lparr>iov_base := Some m\<rparr>, w')"
    "length m = iov_len (to\<lparr>iov_len := iov_len from\<rparr>)" "same_io w w'"
    by (rule calm_iovec_alloc [OF assms(1)])
  moreover from this have "overlay 0 (take (iov_len from) src) m = take (iov_len from) src"
    using assms(3) by (intro overlay_full) simp
  ultimately show thesis
    using assms by (intro that [of w']) (simp_all add: eob_iovec_copy_def)
qed

section \<open>Block vectors\<close>

definition block_vec :: "nat \<Rightarrow> iovec \<Rightarrow> bool" where
  "block_vec sz v \<longleftrightarrow> iov_len v = sz \<and> (\<exists>d. iov_base v = Some d \<and> length d = sz)"

lemma block_vec_mk [simp]: "block_vec sz \<lparr>iov_base = Some d, iov_len = n\<rparr> \<longleftrightarrow> n = sz \<and> length d = sz"
  by (auto simp: block_vec_def)

lemma gather_Cons: "gather (v # vs) = (case iov_base v of None \<Rightarrow> [] | Some d \<Rightarrow> take (iov_len v) d) @ gather vs"
  by (simp add: gather_def)

lemma gather_Nil [simp]: "gather [] = []"
  by (simp add: gather_def)

lemma sum_block_lens: "list_all (block_vec sz) vs \<Longrightarrow> sum_list (map iov_len vs) = length vs * sz"
  by (induction vs) (simp_all add: block_vec_def)

lemma alloc_blocks_ok:
  assumes "0 < sz" and "sz < 2 ^ 63"
  shows "\<exists>vs w'. alloc_blocks n sz w = Inr (vs, w') \<and> length vs = n \<and> list_all (block_vec sz) vs \<and> same_io w w'"
proof (induction n arbitrary: w)
  case 0
  then show ?case by simp
next
  case (Suc n)
  obtain vs w' where "alloc_blocks n sz (malloc_until_ok w) = Inr (vs, w')" "length vs = n"
    "list_all (block_vec sz) vs" "same_io (malloc_until_ok w) w'"
    using Suc by blast
  then show ?case
    using assms by (auto intro: same_io_trans [OF same_io_until])
qed

text \<open>The blocks of a buffer that fills them exactly, in order.\<close>

lemma fill_blocks_ok:
  assumes "0 < sz" and "sz < 2 ^ 63" and "iov_base data = Some src"
    and "iov_len data = (i + n) * sz" and "iov_len data \<le> length src"
  shows "\<exists>vs w'. fill_blocks n i sz data w = Inr (vs, w') \<and> length vs = n \<and>
    list_all (block_vec sz) vs \<and> gather vs = bslice (i * sz) (n * sz) src \<and> same_io w w'"
  using assms(4)
proof (induction n arbitrary: i w)
  case 0
  then show ?case by (simp add: bslice_def)
next
  case (Suc n)
  let ?w = "malloc_until_ok w"
  let ?d = "overlay 0 (take sz (drop (i * sz) src)) (junk_bytes sz w)"
  have all: "(i + Suc n) * sz \<le> length src" using Suc.prems assms(5) by simp
  then have room: "i * sz + sz \<le> length src"
    by (simp add: add_mult_distrib)
  have len: "iov_len data - i * sz = Suc n * sz" using Suc.prems by (simp add: add_mult_distrib)
  have d: "?d = bslice (i * sz) sz src"
    using room by (subst overlay_full) (auto simp: bslice_def)
  have "iov_len data = (Suc i + n) * sz" using Suc.prems by simp
  from Suc.IH [OF this, of ?w]
  obtain vs w' where vs: "fill_blocks n (Suc i) sz data ?w = Inr (vs, w')" "length vs = n"
    "list_all (block_vec sz) vs" "gather vs = bslice (Suc i * sz) (n * sz) src" "same_io ?w w'"
    by blast
  let ?v = "\<lparr>iov_base = Some ?d, iov_len = sz\<rparr>"
  have "fill_blocks (Suc n) i sz data w = Inr (?v # vs, w')"
    using assms(1-3) room vs(1) len by (cases n) simp_all
  moreover have "block_vec sz ?v"
    using room by (simp add: d)
  moreover have "gather (?v # vs) = bslice (i * sz) (Suc n * sz) src"
    using room assms(1) vs(4) bslice_app [of "i * sz" sz src "n * sz"]
    by (simp add: gather_Cons d add.commute)
  ultimately show ?case
    using vs by (auto intro: same_io_trans [OF same_io_until])
qed

lemma scatter_blocks:
  "list_all (block_vec sz) vs \<Longrightarrow> length bs = length vs * sz \<Longrightarrow>
   list_all (block_vec sz) (scatter bs vs) \<and> gather (scatter bs vs) = bs \<and> length (scatter bs vs) = length vs"
proof (induction bs vs rule: scatter.induct)
  case (1 bs)
  then show ?case by simp
next
  case (2 bs v vs)
  then obtain d where v: "iov_len v = sz" "iov_base v = Some d" "length d = sz"
    by (auto simp: block_vec_def)
  have "overlay 0 (take sz bs) d = take sz bs"
    using v "2.prems" by (intro overlay_full) auto
  with 2 v show ?case by (simp add: block_vec_def gather_Cons)
qed

lemma copy_blocks_ok:
  assumes "0 < sz"
  shows "list_all (block_vec sz) vs \<Longrightarrow> vs \<noteq> [] \<Longrightarrow> data_len = copied + length vs * sz \<Longrightarrow>
    length dst = data_len \<Longrightarrow>
    copy_blocks vs copied data_len dst = Inr (data_len, take copied dst @ gather vs)"
proof (induction vs arbitrary: copied dst)
  case Nil
  then show ?case by simp
next
  case (Cons v vs)
  obtain d where v: "iov_len v = sz" "iov_base v = Some d" "length d = sz"
    using Cons.prems(1) by (auto simp: block_vec_def)
  let ?dst = "overlay copied d dst"
  have fits: "copied + sz \<le> length dst" using Cons.prems(3,4) by simp
  have ov: "?dst = take copied dst @ d @ drop (copied + sz) dst"
    using v assms fits by (auto simp: overlay_def)
  have step: "copy_blocks (v # vs) copied data_len dst =
      (if copied + sz \<ge> data_len then Inr (copied + sz, ?dst)
       else copy_blocks vs (copied + sz) data_len ?dst)"
    using v fits by simp
  show ?case
  proof (cases "vs = []")
    case True
    then show ?thesis using Cons.prems v unfolding step by (simp add: ov gather_Cons)
  next
    case False
    have len: "data_len = copied + sz + length vs * sz" using Cons.prems(3) by simp
    have "0 < length vs * sz" using False assms by simp
    then have "\<not> copied + sz \<ge> data_len" using len by linarith
    moreover have "copy_blocks vs (copied + sz) data_len ?dst =
        Inr (data_len, take (copied + sz) ?dst @ gather vs)"
    proof (rule Cons.IH)
      show "list_all (block_vec sz) vs" "vs \<noteq> []" using Cons.prems(1) False by simp_all
      show "data_len = copied + sz + length vs * sz" by (rule len)
      show "length ?dst = data_len" using fits v Cons.prems(4) by (simp add: ov)
    qed
    moreover have "take (copied + sz) ?dst = take copied dst @ d"
      using fits v by (simp add: ov)
    ultimately show ?thesis
      using v by (simp add: step gather_Cons del: copy_blocks.simps)
  qed
qed

section \<open>The block of a node\<close>

text \<open>
  \<open>blocks dev k v\<close>: the header of \<open>dev\<close> has physical blocks of \<open>2 ^ k\<close> bytes and virtual blocks
  of \<open>2 ^ v\<close> bytes, at most \<open>IOV_MAX\<close> physical ones to a virtual one.
\<close>

definition blocks :: "eob_device \<Rightarrow> nat \<Rightarrow> nat \<Rightarrow> bool" where
  "blocks dev k v \<longleftrightarrow> h_phys_blk_size (d_hdr dev) = 2 ^ k \<and> h_virt_blk_size (d_hdr dev) = 2 ^ v \<and>
     k \<le> v \<and> v < 31 \<and> v \<le> k + 10"

text \<open>The position of node \<open>n\<close>'s block on the device.\<close>

definition node_off :: "nat \<Rightarrow> u8 \<Rightarrow> nat" where
  "node_off v n = EOB_HDR_SIZE + 2 ^ v * unat n"

definition node_block :: "nat \<Rightarrow> u8 \<Rightarrow> bytes \<Rightarrow> bytes" where
  "node_block v n d = bslice (node_off v n) (2 ^ v) d"

lemma node_off_less:
  assumes "v < 31"
  shows "node_off v n + 2 ^ v < 2 ^ 41"
proof -
  have "unat n + 1 \<le> 2 ^ 8" using unat_byte_lt [of n] by simp
  then have "2 ^ v * (unat n + 1) \<le> 2 ^ v * (2 ^ 8 :: nat)" by (rule mult_le_mono2)
  also have "\<dots> \<le> 2 ^ 30 * 2 ^ 8" using assms by (intro mult_le_mono1 power_increasing) simp_all
  finally have "2 ^ v * (unat n + 1) \<le> (2::nat) ^ 38" by simp
  then show ?thesis by (simp add: node_off_def layout_simps add_mult_distrib2)
qed

lemma node_blocks_disjoint:
  assumes "unat m < unat n"
  shows "node_off v m + 2 ^ v \<le> node_off v n"
proof -
  have "2 ^ v * (unat m + 1) \<le> 2 ^ v * unat n" using assms by (intro mult_le_mono2) simp
  then show ?thesis by (simp add: node_off_def)
qed

lemma sint_nonneg:
  assumes "unat (x :: u64) < 2 ^ 63"
  shows "0 \<le> sint x"
proof -
  have "int (unat x) < int (2 ^ 63)" using assms by (simp only: of_nat_less_iff)
  then have "uint x < 2 ^ 63" by simp
  moreover have "(- (2 ^ 63) :: int) \<le> uint x" by (rule order_trans [OF _ uint_ge_0]) simp
  ultimately have "signed_take_bit 63 (uint x) = uint x"
    by (intro signed_take_bit_int_eq_self)
  then have "sint x = uint x" by (simp add: sint_uint)
  then show ?thesis by (simp only: uint_ge_0)
qed

lemma unat_blk_offset:
  assumes "b_virt_blk_size b = 2 ^ v" and "v < 31"
  shows "unat (blk_offset b (ucast (n :: u8))) = node_off v n" and "0 \<le> sint (blk_offset b (ucast n))"
proof -
  have v: "unat (2 ^ v :: u64) = 2 ^ v" using assms(2) by (simp add: unat_pow2)
  have n: "unat (ucast n :: u64) = unat n"
    by (simp add: unsigned_ucast_eq take_bit_nat_eq_self order_less_le_trans [OF unat_byte_lt])
  have lt: "node_off v n < 2 ^ 41" using node_off_less [OF assms(2), of n] by simp
  have "unat (2 ^ v * ucast n :: u64) = (2 ^ v * unat n) mod 2 ^ 64"
    by (simp only: unat_word_ariths v n) simp
  also have "\<dots> = 2 ^ v * unat n" using lt by (simp add: node_off_def)
  finally have "unat (2 ^ v * ucast n :: u64) = 2 ^ v * unat n" .
  then have "unat (512 + 2 ^ v * ucast n :: u64) = (512 + 2 ^ v * unat n) mod 2 ^ 64"
    by (simp only: unat_word_ariths) simp
  then have "unat (512 + 2 ^ v * ucast n :: u64) = node_off v n"
    using lt by (simp add: node_off_def layout_simps)
  then show off: "unat (blk_offset b (ucast n)) = node_off v n"
    using assms(1) by (simp add: blk_offset_def layout_simps)
  have "unat (blk_offset b (ucast n)) < 2 ^ 63" using off lt by simp
  then show "0 \<le> sint (blk_offset b (ucast n))" by (rule sint_nonneg)
qed

section \<open>Writing and reading a block\<close>

lemma io_count_exact:
  assumes "k \<le> v" and "v < 31"
  shows "io_count (2 ^ v) (2 ^ k) = Inr (2 ^ (v - k))"
proof -
  have k: "k < 64" and v: "v < 64" using assms by simp_all
  have u: "unat (2 ^ v :: u64) = 2 ^ v" "unat (2 ^ k :: u64) = 2 ^ k" "unat (2 ^ (v - k) :: u64) = 2 ^ (v - k)"
    using assms by (simp_all add: unat_pow2)
  have split: "(2::nat) ^ v = 2 ^ (v - k) * 2 ^ k"
    using assms(1) by (simp flip: power_add)
  have "(2 ^ v + 2 ^ k - 1) div 2 ^ k * 2 ^ k = (2 ^ v :: nat)"
  proof -
    have "(0::nat) < 2 ^ k" by simp
    then have "2 ^ v + 2 ^ k - 1 = (2 ^ k - 1) + 2 ^ (v - k) * (2 ^ k :: nat)"
      unfolding split by linarith
    also have "\<dots> div 2 ^ k = 2 ^ (v - k) + (2 ^ k - 1) div (2 ^ k :: nat)"
      using \<open>0 < 2 ^ k\<close> by (simp only: div_mult_self1 add.commute neq0_conv)
    also have "(2 ^ k - 1) div (2 ^ k :: nat) = 0" by (rule div_less) simp
    finally show ?thesis using split by simp
  qed
  moreover have "(2::nat) ^ v < 2 ^ 64" using v by (intro power_strict_increasing) simp_all
  ultimately have r: "unat (P2ROUNDUP (2 ^ v) (2 ^ k) :: u64) = 2 ^ v"
    using unat_P2ROUNDUP [where x = "2 ^ v :: u64" and k = k] k u by simp
  have nz: "(2 ^ k :: u64) \<noteq> 0" using u(2) by (metis power_not_zero unsigned_0 zero_neq_numeral)
  have "unat (P2ROUNDUP (2 ^ v) (2 ^ k) div 2 ^ k :: u64) = unat (2 ^ (v - k) :: u64)"
    by (simp add: unat_div r u split)
  then have "(P2ROUNDUP (2 ^ v) (2 ^ k) div 2 ^ k :: u64) = 2 ^ (v - k)"
    by (rule word_unat_eq_iff [THEN iffD2])
  with nz show ?thesis by (simp add: io_count_def)
qed

text \<open>The vector array of a block, and the vectors it holds.\<close>

lemma calm_phys_array:
  assumes "calm w" and "m \<le> 10"
  obtains w' where "alloc_phys_array (2 ^ m) b w =
      (True, b\<lparr>b_phys_len := 2 ^ m * SIZEOF_IOVEC, b_phys_base := None\<rparr>, w')"
    and "same_io w w'"
proof -
  have "(2::nat) ^ m \<le> 2 ^ 10" using assms(2) by (intro power_increasing) simp_all
  then have "(2 ^ m * 16 :: nat) < 2 ^ 64" by simp
  moreover have "unat (2 ^ m :: u64) = 2 ^ m" using assms(2) by (simp add: unat_pow2)
  ultimately have len: "unat (2 ^ m * word_of_nat SIZEOF_IOVEC :: u64) = 2 ^ m * SIZEOF_IOVEC"
    by (simp add: unat_word_ariths layout_simps)
  obtain w' p where "sys_malloc (2 ^ m * SIZEOF_IOVEC) w = (Some p, w')" and "same_io w w'"
    using assms(1) by (metis calm_malloc)
  then show thesis by (intro that [of w']) (simp_all add: alloc_phys_array_def len)
qed

lemma phys_vecs_Some: "b_phys_base b = Some vs \<Longrightarrow> b_phys_len b = length vs * SIZEOF_IOVEC \<Longrightarrow> phys_vecs b = Inr vs"
  by (auto simp: phys_vecs_def layout_simps)

definition blocks_buff :: "eob_buff \<Rightarrow> nat \<Rightarrow> nat \<Rightarrow> bool" where
  "blocks_buff b k v \<longleftrightarrow> b_phys_blk_size b = 2 ^ k \<and> b_virt_blk_size b = 2 ^ v \<and>
     k \<le> v \<and> v < 31 \<and> v \<le> k + 10"

lemma block_sizes:
  assumes "k \<le> v" and "v < 31"
  shows "unat (2 ^ k :: u64) = 2 ^ k" and "unat (2 ^ (v - k) :: u64) = 2 ^ (v - k)"
    and "(2 ^ (v - k) * 2 ^ k :: nat) = 2 ^ v" and "(2::nat) ^ k < 2 ^ 63"
proof -
  show "unat (2 ^ k :: u64) = 2 ^ k" and "unat (2 ^ (v - k) :: u64) = 2 ^ (v - k)"
    and "(2 ^ (v - k) * 2 ^ k :: nat) = 2 ^ v"
    using assms by (simp_all add: unat_pow2 flip: power_add)
  show "(2::nat) ^ k < 2 ^ 63" using assms by (intro power_strict_increasing) simp_all
qed

lemma buff_write_block:
  assumes b: "blocks_buff b k v" and c: "calm w"
    and d: "iov_base (b_data b) = Some src" "iov_len (b_data b) = 2 ^ v" "2 ^ v \<le> length src"
  obtains w' b' where "eob_buff_write b (ucast n) w = Inr (0, b', w')" and "calm w'"
    and "w_disk w' = overlay (node_off v n) (take (2 ^ v) src) (w_disk w)"
    and "eob_buff_destroy b' = Inr ()"
proof -
  have s: "b_phys_blk_size b = 2 ^ k" "b_virt_blk_size b = 2 ^ v" "k \<le> v" "v < 31" "v - k \<le> 10"
    using b by (auto simp: blocks_buff_def)
  note sz = block_sizes [OF s(3,4)]
  obtain w1 where arr: "alloc_phys_array (2 ^ (v - k)) b w =
      (True, b\<lparr>b_phys_len := 2 ^ (v - k) * SIZEOF_IOVEC, b_phys_base := None\<rparr>, w1)"
    and w1: "same_io w w1"
    using c s(5) by (rule calm_phys_array)
  have "iov_len (b_data b) = (0 + 2 ^ (v - k)) * 2 ^ k" using d(2) sz(3) by simp
  from fill_blocks_ok [OF _ sz(4) d(1) this, of w1] d
  obtain vs w2 where fill: "fill_blocks (2 ^ (v - k)) 0 (2 ^ k) (b_data b) w1 = Inr (vs, w2)"
    and vs: "length vs = 2 ^ (v - k)" "gather vs = take (2 ^ v) src" and w2: "same_io w1 w2"
    using sz(3) by (auto simp: bslice_def)
  define b2 where "b2 = b\<lparr>b_phys_len := 2 ^ (v - k) * SIZEOF_IOVEC, b_phys_base := Some vs\<rparr>"
  have map: "eob_buff_map_data_to_phys b w = Inr (0, b2, w2)"
    using io_count_exact [OF s(3,4)] arr fill s(1) d(2) sz
    by (simp add: eob_buff_map_data_to_phys_def b2_def)
  have vecs: "phys_vecs b2 = Inr vs"
    by (rule phys_vecs_Some) (simp_all add: b2_def vs)
  have off: "unat (blk_offset b2 (ucast n)) = node_off v n" "0 \<le> sint (blk_offset b2 (ucast n))"
    using unat_blk_offset [of b2 v n] s by (simp_all add: b2_def)
  have "calm w2" and disk: "w_disk w2 = w_disk w"
    using c w1 w2 by (auto simp: same_io_def)
  from calm_pwrite [OF this(1) off(2)]
  obtain w3 where wr: "sys_pwrite (gather vs) (blk_offset b2 (ucast n)) w2 = (Some (length (gather vs)), w3)"
    and w3: "w_disk w3 = overlay (node_off v n) (gather vs) (w_disk w2)" "calm w3"
    by (metis off(1))
  have "(2::nat) ^ (v - k) \<le> 2 ^ 10" using s(5) by (intro power_increasing) simp_all
  then have "eob_buff_write b (ucast n) w = Inr (0, b2, w3)"
    using map vecs wr vs(1)
    by (simp add: eob_buff_write_def eob_buff_write_impl_def sys_pwritev_def IOV_MAX_def)
  then show thesis
    using w3 disk vs(2) vecs by (intro that [of b2 w3]) (simp_all add: eob_buff_destroy_def)
qed

lemma buff_read_block:
  assumes b: "blocks_buff b k v" and c: "calm w" and d: "b_data b = null_iovec"
    and n: "n = hw_node_id (d_addr (b_dev b))" and len: "node_off v n + 2 ^ v \<le> length (w_disk w)"
  obtains w' b' where "eob_buff_read b w = Inr (0, b', w')" and "same_io w w'"
    and "b_data b' = \<lparr>iov_base = Some (node_block v n (w_disk w)), iov_len = 2 ^ v\<rparr>"
    and "eob_buff_destroy b' = Inr ()"
proof -
  have s: "b_phys_blk_size b = 2 ^ k" "b_virt_blk_size b = 2 ^ v" "k \<le> v" "v < 31" "v - k \<le> 10"
    using b by (auto simp: blocks_buff_def)
  note sz = block_sizes [OF s(3,4)]
  obtain w1 where arr: "alloc_phys_array (2 ^ (v - k)) b w =
      (True, b\<lparr>b_phys_len := 2 ^ (v - k) * SIZEOF_IOVEC, b_phys_base := None\<rparr>, w1)"
    and w1: "same_io w w1"
    using c s(5) by (rule calm_phys_array)
  have "(0::nat) < 2 ^ k" by simp
  from alloc_blocks_ok [OF this sz(4), of "2 ^ (v - k)" w1]
  obtain vs w2 where al: "alloc_blocks (2 ^ (v - k)) (2 ^ k) w1 = Inr (vs, w2)"
    and vs: "length vs = 2 ^ (v - k)" "list_all (block_vec (2 ^ k)) vs" and w2: "same_io w1 w2"
    by blast
  define b2 where "b2 = b\<lparr>b_phys_len := 2 ^ (v - k) * SIZEOF_IOVEC, b_phys_base := Some vs\<rparr>"
  have alloc: "eob_buff_alloc_phys b w = Inr (0, b2, w2)"
    using io_count_exact [OF s(3,4)] arr al s sz by (simp add: eob_buff_alloc_phys_def b2_def)
  have vecs: "phys_vecs b2 = Inr vs"
    by (rule phys_vecs_Some) (simp_all add: b2_def vs)
  have off: "unat (blk_offset b2 (ucast n)) = node_off v n" "0 \<le> sint (blk_offset b2 (ucast n))"
    using unat_blk_offset [of b2 v n] s by (simp_all add: b2_def)
  have io2: "same_io w w2" using w1 w2 by (rule same_io_trans)
  have c2: "calm w2" and disk: "w_disk w2 = w_disk w" using same_ioD [OF io2] c by auto
  let ?bs = "node_block v n (w_disk w)"
  have total: "sum_list (map iov_len vs) = 2 ^ v"
    using sum_block_lens [OF vs(2)] vs(1) sz(3) by simp
  from calm_pread [OF c2 off(2), of "2 ^ v"]
  obtain w3 where rd: "sys_pread (2 ^ v) (blk_offset b2 (ucast n)) w2 = (Some ?bs, w3)"
    and w3: "same_io w2 w3"
    by (metis off(1) disk node_block_def)
  have lbs: "length ?bs = 2 ^ v" using len by (simp add: node_block_def)
  define vs' where "vs' = scatter ?bs vs"
  have vs': "list_all (block_vec (2 ^ k)) vs'" "gather vs' = ?bs" "length vs' = 2 ^ (v - k)"
    using scatter_blocks [OF vs(2), of ?bs] lbs vs(1) sz(3) by (simp_all add: vs'_def)
  have "(2::nat) ^ (v - k) \<le> 2 ^ 10" using s(5) by (intro power_increasing) simp_all
  then have pv: "sys_preadv vs (blk_offset b2 (ucast n)) w2 = (Some (2 ^ v, vs'), w3)"
    using rd total vs(1) lbs by (simp add: sys_preadv_def IOV_MAX_def vs'_def)
  define b3 where "b3 = b2\<lparr>b_phys_base := Some vs'\<rparr>"
  have "vs' \<noteq> []" using vs'(3) by auto
  then have "copy_blocks vs' 0 (2 ^ v) (junk_bytes (2 ^ v) w3) = Inr (2 ^ v, ?bs)"
    using copy_blocks_ok [OF \<open>0 < 2 ^ k\<close> vs'(1), of "2 ^ v" 0 "junk_bytes (2 ^ v) w3"] vs' sz(3) by auto
  moreover have "phys_vecs b3 = Inr vs'"
    by (rule phys_vecs_Some) (simp_all add: b3_def b2_def vs')
  moreover have "(2::nat) ^ v < 2 ^ 63" using s(4) by (intro power_strict_increasing) simp_all
  ultimately have "eob_buff_map_phys_to_data b3 (2 ^ v) w3 =
      Inr (0, b3\<lparr>b_data := \<lparr>iov_base = Some ?bs, iov_len = 2 ^ v\<rparr>\<rparr>, malloc_until_ok w3)"
    using d by (simp add: eob_buff_map_phys_to_data_def b3_def b2_def null_iovec_def SIZEOF_IOVEC_def
        flip: phys_vecs_def)
  then have "eob_buff_read b w = Inr (0, b3\<lparr>b_data := \<lparr>iov_base = Some ?bs, iov_len = 2 ^ v\<rparr>\<rparr>, malloc_until_ok w3)"
    using alloc vecs pv n by (simp add: eob_buff_read_def eob_buff_read_impl_def b3_def)
      (simp add: b2_def)
  moreover have "same_io w (malloc_until_ok w3)"
    using io2 w3 same_io_until same_io_trans by blast
  moreover have "phys_vecs (b3\<lparr>b_data := \<lparr>iov_base = Some ?bs, iov_len = 2 ^ v\<rparr>\<rparr>) = Inr vs'"
    by (rule phys_vecs_Some) (simp_all add: b3_def b2_def vs')
  ultimately show thesis
    by (intro that [of "b3\<lparr>b_data := \<lparr>iov_base = Some ?bs, iov_len = 2 ^ v\<rparr>\<rparr>" "malloc_until_ok w3"]) (simp_all add: eob_buff_destroy_def)
qed

end
