(* ===== verification/Eob_Packet_Spec.thy ===== *)
theory Eob_Packet_Spec
  imports Eob_Buff_Spec
begin

text \<open>
  What sending and receiving promise. Abstractly the blocks behind the header are mailboxes:
  \<open>mailbox\<close> reads the message and the sender out of a node's block, \<open>EOB_CHKSUM\<close> or nothing
  when there is none. Sending puts a message into exactly one mailbox, receiving delivers what
  the node's own mailbox holds; the locale \<open>mail\<close> states the contract, and a device with blocks
  of 512 or 4096 bytes is an interpretation of it.
\<close>

section \<open>Raw blocks\<close>

lemma buff_create_ok:
  assumes "calm w" and "\<And>x. d = Some x \<Longrightarrow> iov_base x = Some src \<and> iov_len x \<le> length src"
  obtains b w' where "eob_buff_create dev d w = Inr (Some b, w')" and "same_io w w'"
    and "b_dev b = dev" and "b_virt_blk_size b = h_virt_blk_size (d_hdr dev)"
    and "b_phys_blk_size b = h_phys_blk_size (d_hdr dev)"
    and "b_data b = (case d of None \<Rightarrow> null_iovec | Some x \<Rightarrow>
        \<lparr>iov_base = Some (take (iov_len x) src), iov_len = iov_len x\<rparr>)"
proof -
  obtain w1 where w1: "malloc_ok w = (True, w1)" "same_io w w1"
    using assms(1) by (rule calm_malloc_ok)
  let ?b = "\<lambda>v. \<lparr>b_dev = dev, b_virt_blk_size = h_virt_blk_size (d_hdr dev),
      b_phys_blk_size = h_phys_blk_size (d_hdr dev), b_data = v, b_phys_base = None, b_phys_len = 0\<rparr>"
  show thesis
  proof (cases d)
    case None
    then have "eob_buff_create dev d w = Inr (Some (?b null_iovec), w1)"
      using w1(1) by (simp add: eob_buff_create_def del: malloc_ok.simps)
    from that [OF this w1(2)] None show thesis by simp
  next
    case (Some x)
    then have "iov_base x = Some src" "iov_len x \<le> length src" using assms(2) by simp_all
    with same_ioD(1) [OF w1(2) assms(1)] obtain w2 where
      w2: "eob_iovec_copy null_iovec x w1 =
        Inr (0, \<lparr>iov_base = Some (take (iov_len x) src), iov_len = iov_len x\<rparr>, w2)" "same_io w1 w2"
      by (rule calm_iovec_copy)
    then have "eob_buff_create dev d w =
        Inr (Some (?b \<lparr>iov_base = Some (take (iov_len x) src), iov_len = iov_len x\<rparr>), w2)"
      using Some w1(1) by (simp add: eob_buff_create_def del: malloc_ok.simps)
    from that [OF this same_io_trans [OF w1(2) w2(2)]] Some show thesis by simp
  qed
qed

lemma send_raw_ok:
  assumes "blocks dev k v" and "calm w"
    and "iov_base d = Some src" and "iov_len d = 2 ^ v" and "length src = 2 ^ v"
  obtains w' where "eob_device_send_raw dev dst d w = Inr (0, w')" and "calm w'"
    and "w_disk w' = overlay (node_off v (hw_node_id dst)) src (w_disk w)"
proof -
  obtain b w1 where b: "eob_buff_create dev (Some d) w = Inr (Some b, w1)" "same_io w w1"
    "b_virt_blk_size b = h_virt_blk_size (d_hdr dev)" "b_phys_blk_size b = h_phys_blk_size (d_hdr dev)"
    "b_data b = \<lparr>iov_base = Some src, iov_len = 2 ^ v\<rparr>"
    by (rule buff_create_ok [OF assms(2), of "Some d" src dev]) (use assms in auto)
  have bb: "blocks_buff b k v" using assms(1) b by (simp add: blocks_def blocks_buff_def)
  obtain w' b' where "eob_buff_write b (ucast (hw_node_id dst)) w1 = Inr (0, b', w')" "calm w'"
    "w_disk w' = overlay (node_off v (hw_node_id dst)) (take (2 ^ v) src) (w_disk w1)"
    "eob_buff_destroy b' = Inr ()"
    by (rule buff_write_block [OF bb same_ioD(1) [OF b(2) assms(2)], of src]) (use assms b in auto)
  with b(1) same_ioD(2) [OF b(2)] assms(5) show thesis
    by (intro that [of w']) (simp_all add: eob_device_send_raw_def)
qed

lemma recv_raw_ok:
  assumes "blocks dev k v" and "calm w"
    and "node_off v (hw_node_id (d_addr dev)) + 2 ^ v \<le> length (w_disk w)"
  obtains w' where "eob_device_recv_raw dev w =
      Inr (0, \<lparr>iov_base = Some (node_block v (hw_node_id (d_addr dev)) (w_disk w)), iov_len = 2 ^ v\<rparr>, w')"
    and "same_io w w'"
proof -
  let ?blk = "node_block v (hw_node_id (d_addr dev)) (w_disk w)"
  have len: "length ?blk = 2 ^ v" using assms(3) by (simp add: node_block_def)
  obtain b w1 where b: "eob_buff_create dev None w = Inr (Some b, w1)" "same_io w w1" "b_dev b = dev"
    "b_virt_blk_size b = h_virt_blk_size (d_hdr dev)" "b_phys_blk_size b = h_phys_blk_size (d_hdr dev)"
    "b_data b = null_iovec"
    by (rule buff_create_ok [OF assms(2), of None "[]" dev]) auto
  have bb: "blocks_buff b k v" using assms(1) b by (simp add: blocks_def blocks_buff_def)
  have disk: "w_disk w1 = w_disk w" by (rule same_ioD(2) [OF b(2)])
  obtain w2 b' where rd: "eob_buff_read b w1 = Inr (0, b', w2)" "same_io w1 w2"
    "b_data b' = \<lparr>iov_base = Some ?blk, iov_len = 2 ^ v\<rparr>" "eob_buff_destroy b' = Inr ()"
    by (rule buff_read_block [OF bb same_ioD(1) [OF b(2) assms(2)] b(6) refl])
      (use assms(3) b(3) disk in auto)
  have io: "same_io w w2" using b(2) rd(2) by (rule same_io_trans)
  obtain w3 where cp: "eob_iovec_copy null_iovec (b_data b') w2 =
      Inr (0, \<lparr>iov_base = Some (take (iov_len (b_data b')) ?blk), iov_len = iov_len (b_data b')\<rparr>, w3)"
    and "same_io w2 w3"
    by (rule calm_iovec_copy [OF same_ioD(1) [OF io assms(2)], of "b_data b'" ?blk]) (use rd len in auto)
  with b(1) rd len show thesis
    by (intro that [of w3]) (auto simp: eob_device_recv_raw_def intro: same_io_trans [OF io])
qed


section \<open>Packets in blocks\<close>

text \<open>The packet that carries \<open>msg\<close>, with the data array padded by zeros.\<close>

definition mk_packet :: "crc_fn \<Rightarrow> nat \<Rightarrow> eob_hw_addr \<Rightarrow> bytes \<Rightarrow> eob_packet_blk" where
  "mk_packet crc sz src msg =
     \<lparr>pk_head = \<lparr>ph_src_addr = src, ph_data_len = word_of_nat (length msg)\<rparr>,
      pk_data = overlay 0 msg (replicate (pkt_data_size sz) 0),
      pk_chksum = eob_chcksum_calc crc msg\<rparr>"

text \<open>
  The content of a block of \<open>sz\<close> bytes: nothing when the recorded length is 0 or more than the
  packet has room for, an error code when the checksum is wrong, otherwise message and sender.
\<close>

definition packet_mail :: "crc_fn \<Rightarrow> nat \<Rightarrow> bytes \<Rightarrow> (int + bytes \<times> eob_hw_addr) option" where
  "packet_mail crc sz blk =
     (let p = packet_of_bytes sz blk; n = unat (ph_data_len (pk_head p)); msg = take n (pk_data p) in
      if n = 0 \<or> pkt_data_size sz < n then None
      else if eob_chcksum_calc crc msg \<noteq> pk_chksum p then Some (Inl EOB_CHKSUM)
      else Some (Inr (msg, ph_src_addr (pk_head p))))"

lemma wf_mk_packet:
  "wf_hw_addr src \<Longrightarrow> length msg \<le> pkt_data_size sz \<Longrightarrow> wf_packet sz (mk_packet crc sz src msg)"
  by (simp add: wf_packet_def mk_packet_def wf_packet_head_def length_overlay)

lemma packet_mail_mk:
  assumes "wf_hw_addr src" and "0 < length msg" and "length msg \<le> pkt_data_size sz" and "32 \<le> sz" and "sz < 2 ^ 63"
  shows "packet_mail crc sz (packet_bytes (mk_packet crc sz src msg)) = Some (Inr (msg, src))"
proof -
  have "length msg < 2 ^ 64" using assms(3,5) by (simp add: pkt_data_size_def)
  then have n: "unat (word_of_nat (length msg) :: u64) = length msg"
    by (simp add: unsigned_of_nat take_bit_nat_eq_self)
  have "EOB_PKT_NDATA_LEN \<le> sz" using assms(4) by (simp add: layout_simps)
  from codec.dec_enc [OF packet_codec [OF this] wf_mk_packet [OF assms(1,3)]]
  have p: "packet_of_bytes sz (packet_bytes (mk_packet crc sz src msg)) = mk_packet crc sz src msg" .
  have "take (length msg) (overlay 0 msg (replicate (pkt_data_size sz) 0)) = msg"
    by (cases msg) (simp_all add: overlay_def)
  then show ?thesis
    using assms(2,3) n by (simp add: packet_mail_def p) (simp add: mk_packet_def Let_def)
qed

lemma length_mk_packet:
  assumes "wf_hw_addr src" and "length msg \<le> pkt_data_size sz" and "32 \<le> sz"
  shows "length (packet_bytes (mk_packet crc sz src msg)) = sz"
proof -
  have "EOB_PKT_NDATA_LEN \<le> sz" using assms(3) by (simp add: layout_simps)
  from codec.length_enc [OF packet_codec [OF this] wf_mk_packet [OF assms(1,2)]] show ?thesis .
qed

text \<open>One case of the two \<open>switch\<close>es.\<close>

lemma send_pack_ok:
  assumes "calm w" and "n \<le> pkt_data_size sz" and "n \<le> length src" and "wf_hw_addr (d_addr dev)"
  obtains w' where "send_pack sz \<lparr>ph_src_addr = d_addr dev, ph_data_len = word_of_nat n\<rparr>
      (eob_chcksum_calc crc (take n src)) src n w =
      Inr (\<lparr>iov_base = Some (packet_bytes (mk_packet crc sz (d_addr dev) (take n src))), iov_len = sz\<rparr>, w')"
    and "same_io w w'"
proof -
  let ?bs = "packet_bytes (mk_packet crc sz (d_addr dev) (take n src))"
  obtain w' m where "sys_malloc (length ?bs) w = (Some m, w')" and "same_io w w'"
    using calm_malloc [OF assms(1)] by metis
  then show thesis
    using assms(2,3) by (intro that [of w']) (simp_all add: send_pack_def memdup_def mk_packet_def min_absorb2)
qed

lemma recv_unpack_mail:
  assumes "length blk = sz" and "32 \<le> sz" and "sz < EOB_MAX_VIRT_BLK_SIZE"
    and "packet_mail crc sz blk = Some m"
  obtains head data chksum w' n where
    "recv_unpack sz \<lparr>iov_base = Some blk, iov_len = sz\<rparr> w =
       Inr (head, \<lparr>iov_base = Some data, iov_len = n\<rparr>, chksum, w')"
    and "length data = n" and "same_io w w'"
    and "m = (if eob_chcksum_calc crc data \<noteq> chksum then Inl EOB_CHKSUM else Inr (data, ph_src_addr head))"
proof -
  let ?p = "packet_of_bytes sz blk"
  define n where "n = unat (ph_data_len (pk_head ?p))"
  let ?msg = "take n (pk_data ?p)"
  have n: "0 < n" "n \<le> pkt_data_size sz"
    and m: "m = (if eob_chcksum_calc crc ?msg \<noteq> pk_chksum ?p then Inl EOB_CHKSUM
       else Inr (?msg, ph_src_addr (pk_head ?p)))"
    using assms(4) by (auto simp: packet_mail_def Let_def n_def split: if_splits)
  have head: "pk_head ?p = packet_head_of_bytes (bslice 0 24 blk)"
    and data: "pk_data ?p = bslice 24 (pkt_data_size sz) blk"
    and sum: "pk_chksum ?p = un_le64 (bslice (sz - 8) 8 blk)"
    by (simp_all add: packet_of_bytes_def)
  have lm: "length ?msg = n" and ld: "length (pk_data ?p) = pkt_data_size sz"
    using n assms(1,2) by (simp_all add: data pkt_data_size_def layout_simps)
  have max: "n < EOB_MAX_VIRT_BLK_SIZE" "n < 2 ^ 63"
    using n(2) assms(3) by (simp_all add: pkt_data_size_def layout_simps)
  have "overlay 0 ?msg (junk_bytes n w) = ?msg"
    using lm by (intro overlay_full) simp
  then have "recv_unpack sz \<lparr>iov_base = Some blk, iov_len = sz\<rparr> w =
      Inr (pk_head ?p, \<lparr>iov_base = Some ?msg, iov_len = n\<rparr>, pk_chksum ?p, malloc_until_ok w)"
    using n max assms(1,2) ld
    by (simp add: recv_unpack_def n_def [symmetric] head [symmetric] data [symmetric] sum [symmetric])
  from that [OF this lm same_io_until m] show thesis .
qed

section \<open>Sending and receiving\<close>

definition packet_shift :: "nat \<Rightarrow> bool" where
  "packet_shift v \<longleftrightarrow> v = 9 \<or> v = 12"

lemma packet_shift_sizes:
  assumes "packet_shift v"
  shows "(2::nat) ^ v = 512 \<or> (2::nat) ^ v = 4096" "32 \<le> (2::nat) ^ v" "(2::nat) ^ v < EOB_MAX_VIRT_BLK_SIZE"
    "(2::nat) ^ v < 2 ^ 63"
  using assms by (auto simp: packet_shift_def layout_simps)

lemma blocks_virt: "blocks dev k v \<Longrightarrow> unat (h_virt_blk_size (d_hdr dev)) = 2 ^ v"
  by (simp add: blocks_def unat_pow2)

lemma send_ok:
  assumes b: "blocks dev k v" "packet_shift v" and c: "calm w" and a: "wf_hw_addr (d_addr dev)"
    and d: "iov_base data = Some src" "iov_len data \<le> length src" "iov_len data \<le> pkt_data_size (2 ^ v)"
  obtains w' where "eob_device_send crc dev data dst w = Inr (EOB_OK, w')" and "calm w'"
    and "w_disk w' = overlay (node_off v (hw_node_id dst))
       (packet_bytes (mk_packet crc (2 ^ v) (d_addr dev) (take (iov_len data) src))) (w_disk w)"
proof -
  let ?msg = "take (iov_len data) src"
  let ?bs = "packet_bytes (mk_packet crc (2 ^ v) (d_addr dev) ?msg)"
  note sz = packet_shift_sizes [OF b(2)] and virt = blocks_virt [OF b(1)]
  have len: "length ?bs = 2 ^ v" by (rule length_mk_packet [OF a]) (use d sz in auto)
  obtain w1 where p: "send_pack (2 ^ v) \<lparr>ph_src_addr = d_addr dev, ph_data_len = word_of_nat (iov_len data)\<rparr>
      (eob_chcksum_calc crc ?msg) src (iov_len data) w = Inr (\<lparr>iov_base = Some ?bs, iov_len = 2 ^ v\<rparr>, w1)"
    and w1: "same_io w w1"
    using c d(3,2) a by (rule send_pack_ok)
  obtain w' where s: "eob_device_send_raw dev dst \<lparr>iov_base = Some ?bs, iov_len = 2 ^ v\<rparr> w1 = Inr (0, w')"
    and "calm w'" and "w_disk w' = overlay (node_off v (hw_node_id dst)) ?bs (w_disk w1)"
    by (rule send_raw_ok [OF b(1) same_ioD(1) [OF w1 c], of _ ?bs]) (use len in auto)
  moreover have "\<not> 2 ^ v < iov_len data" using d(3) by (simp add: pkt_data_size_def)
  ultimately show thesis
    using sz(1) virt d(1,2) p s same_ioD(2) [OF w1]
    by (intro that [of w']) (auto simp: eob_device_send_def Let_def EOB_OK_def)
qed

lemma recv_ok:
  assumes b: "blocks dev k v" "packet_shift v" and c: "calm w"
    and len: "node_off v (hw_node_id (d_addr dev)) + 2 ^ v \<le> length (w_disk w)"
    and m: "packet_mail crc (2 ^ v) (node_block v (hw_node_id (d_addr dev)) (w_disk w)) = Some m"
  obtains w' where "eob_device_recv crc dev w = (case m of
      Inl e \<Rightarrow> Inr (e, None, w')
    | Inr (msg, src) \<Rightarrow> Inr (EOB_OK, Some (\<lparr>iov_base = Some msg, iov_len = length msg\<rparr>, src), w'))"
    and "same_io w w'"
proof -
  let ?blk = "node_block v (hw_node_id (d_addr dev)) (w_disk w)"
  note sz = packet_shift_sizes [OF b(2)] and virt = blocks_virt [OF b(1)]
  obtain w1 where r: "eob_device_recv_raw dev w = Inr (0, \<lparr>iov_base = Some ?blk, iov_len = 2 ^ v\<rparr>, w1)"
    and w1: "same_io w w1"
    using b(1) c len by (rule recv_raw_ok)
  have "length ?blk = 2 ^ v" using len by (simp add: node_block_def)
  from recv_unpack_mail [OF this sz(2,3) m, of w1]
  obtain head d chksum w' n where u: "recv_unpack (2 ^ v) \<lparr>iov_base = Some ?blk, iov_len = 2 ^ v\<rparr> w1 =
       Inr (head, \<lparr>iov_base = Some d, iov_len = n\<rparr>, chksum, w')"
    "length d = n" "same_io w1 w'"
    "m = (if eob_chcksum_calc crc d \<noteq> chksum then Inl EOB_CHKSUM else Inr (d, ph_src_addr head))" .
  show thesis
    using sz(1) r u virt w1
    by (intro that [of w']) (auto simp: eob_device_recv_def Let_def intro: same_io_trans)
qed

end
