(* ===== verification/Eob_Mail.thy ===== *)
theory Eob_Mail
  imports Eob_Packet_Spec Eob_Header_Ops
begin

text \<open>
  The blocks behind the header as mailboxes: the contract of sending and receiving as the
  locale \<open>mail\<close>, a cluster of devices as its interpretation, and the properties of
  \<open>eob_device_send\<close> and \<open>eob_device_recv\<close> (\<open>src/lib/liboblock.c\<close>), the failing paths included.
\<close>

section \<open>The contract\<close>

text \<open>
  Nodes have addresses; a mailbox holds nothing or a message with the address of its sender.
  A sent message replaces the content of exactly the addressed mailbox; receiving delivers the
  content of the node's own one and leaves it there.
\<close>

text \<open>A sequence of sends \<open>(from, to, message)\<close>, up to the first that fails.\<close>

fun send_seq :: "('n \<Rightarrow> 'n \<Rightarrow> 'v \<Rightarrow> 'w \<Rightarrow> fault + int \<times> 'w) \<Rightarrow> ('n \<times> 'n \<times> 'v) list \<Rightarrow> 'w \<Rightarrow>
    fault + int \<times> 'w" where
  "send_seq snd_op [] w = Inr (EOB_OK, w)"
| "send_seq snd_op ((s, d, x) # xs) w =
     bindr (snd_op s d x w) (\<lambda>(rv, w). if rv \<noteq> EOB_OK then Inr (rv, w) else send_seq snd_op xs w)"

locale mail =
  fixes addr :: "'n \<Rightarrow> 'a"
    and vec :: "'m \<Rightarrow> 'v"
    and box :: "'w \<Rightarrow> 'n \<Rightarrow> ('m \<times> 'a) option"
    and ready :: "'w \<Rightarrow> bool"
    and sendable :: "'m \<Rightarrow> bool"
    and snd_op :: "'n \<Rightarrow> 'n \<Rightarrow> 'v \<Rightarrow> 'w \<Rightarrow> fault + int \<times> 'w"
    and rcv_op :: "'n \<Rightarrow> 'w \<Rightarrow> fault + int \<times> ('v \<times> 'a) option \<times> 'w"
  assumes snd_box: "ready w \<Longrightarrow> sendable m \<Longrightarrow>
      \<exists>w'. snd_op s d (vec m) w = Inr (EOB_OK, w') \<and> ready w' \<and> box w' = (box w)(d := Some (m, addr s))"
    and rcv_box: "ready w \<Longrightarrow> box w d = Some (m, a) \<Longrightarrow>
      \<exists>w'. rcv_op d w = Inr (EOB_OK, Some (vec m, a), w') \<and> ready w' \<and> box w' = box w"
begin

lemma send_all_box:
  "ready w \<Longrightarrow> list_all (\<lambda>(s, d, m). sendable m) ms \<Longrightarrow>
   \<exists>w'. send_seq snd_op (map (\<lambda>(s, d, m). (s, d, vec m)) ms) w = Inr (EOB_OK, w') \<and> ready w' \<and>
     box w' = fold (\<lambda>(s, d, m) b. b(d := Some (m, addr s))) ms (box w)"
proof (induction ms arbitrary: w)
  case Nil
  then show ?case by simp
next
  case (Cons x ms)
  obtain s d m where x: "x = (s, d, m)" by (cases x) auto
  obtain w1 where "snd_op s d (vec m) w = Inr (EOB_OK, w1)" "ready w1"
    "box w1 = (box w)(d := Some (m, addr s))"
    using snd_box [of w m s d] Cons.prems x by auto
  then show ?case using Cons.IH [of w1] Cons.prems x by auto
qed

lemma fold_box_other:
  "d \<notin> set (map (\<lambda>(s, d, m). d) ms) \<Longrightarrow>
   fold (\<lambda>(s, d, m) b. b(d := Some (m, addr s))) ms b d = b d"
  by (induction ms arbitrary: b) auto

text \<open>The last message sent to a node is the one it receives, however many others follow.\<close>

lemma last_message:
  assumes "ready w" and "list_all (\<lambda>(s, d, m). sendable m) (before @ (s, d, m) # after)"
    and "d \<notin> set (map (\<lambda>(s, d, m). d) after)"
  shows "\<exists>w' w''. send_seq snd_op (map (\<lambda>(s, d, m). (s, d, vec m)) (before @ (s, d, m) # after)) w = Inr (EOB_OK, w') \<and>
    rcv_op d w' = Inr (EOB_OK, Some (vec m, addr s), w'')"
proof -
  obtain w' where s: "send_seq snd_op (map (\<lambda>(s, d, m). (s, d, vec m)) (before @ (s, d, m) # after)) w =
      Inr (EOB_OK, w')" "ready w'"
    "box w' = fold (\<lambda>(s, d, m) b. b(d := Some (m, addr s))) (before @ (s, d, m) # after) (box w)"
    using send_all_box [OF assms(1,2)] by blast
  then have "box w' d = Some (m, addr s)" using fold_box_other [OF assms(3)] by simp
  with s rcv_box [OF s(2) this] show ?thesis by blast
qed

end

section \<open>A cluster of devices\<close>

definition msg_vec :: "bytes \<Rightarrow> iovec" where
  "msg_vec msg = \<lparr>iov_base = Some msg, iov_len = length msg\<rparr>"

definition mailbox :: "crc_fn \<Rightarrow> nat \<Rightarrow> eob_world \<Rightarrow> u8 \<Rightarrow> (bytes \<times> eob_hw_addr) option" where
  "mailbox crc v w n =
     (case packet_mail crc (2 ^ v) (node_block v n (w_disk w)) of
        Some (Inr m) \<Rightarrow> Some m | _ \<Rightarrow> None)"

text \<open>
  Every node has the device open under its own address, with the same block sizes, and the
  device has a block for each of the 256 nodes.
\<close>

definition cluster :: "(u8 \<Rightarrow> eob_device) \<Rightarrow> nat \<Rightarrow> nat \<Rightarrow> eob_world \<Rightarrow> bool" where
  "cluster devs k v w \<longleftrightarrow> packet_shift v \<and> calm w \<and> EOB_HDR_SIZE + 256 * 2 ^ v \<le> length (w_disk w) \<and>
     (\<forall>n. blocks (devs n) k v \<and> wf_hw_addr (d_addr (devs n)) \<and> hw_node_id (d_addr (devs n)) = n)"

lemma cluster_room:
  assumes "EOB_HDR_SIZE + 256 * 2 ^ v \<le> length d"
  shows "node_off v n + 2 ^ v \<le> length d"
proof -
  have "2 ^ v * (unat n + 1) \<le> 2 ^ v * (256::nat)"
    using unat_byte_lt [of n] by (intro mult_le_mono2) simp
  then have "EOB_HDR_SIZE + 2 ^ v * unat n + 2 ^ v \<le> EOB_HDR_SIZE + 256 * 2 ^ v"
    by (simp add: algebra_simps)
  then show ?thesis using assms by (simp only: node_off_def)
qed

lemma node_block_overlay_same:
  "length blk = 2 ^ v \<Longrightarrow> node_block v n (overlay (node_off v n) blk d) = blk"
  by (simp add: node_block_def bslice_overlay_same)

lemma node_block_overlay_other:
  assumes "m \<noteq> n" and "length blk = 2 ^ v" and "node_off v n + 2 ^ v \<le> length d"
  shows "node_block v m (overlay (node_off v n) blk d) = node_block v m d"
proof (cases "unat m < unat n")
  case True
  then show ?thesis
    using node_blocks_disjoint [OF True, of v] assms by (simp add: node_block_def bslice_overlay_before)
next
  case False
  then have "unat n < unat m" using assms(1) by (metis linorder_neqE_nat word_unat_eq_iff)
  then show ?thesis
    using node_blocks_disjoint assms(2) by (simp add: node_block_def bslice_overlay_after)
qed

lemma mailbox_sent:
  assumes "w_disk w' = overlay (node_off v d) (packet_bytes (mk_packet crc (2 ^ v) a msg)) (w_disk w)"
    and "packet_shift v" and "wf_hw_addr a" and "0 < length msg" and "length msg \<le> pkt_data_size (2 ^ v)"
    and "node_off v d + 2 ^ v \<le> length (w_disk w)"
  shows "mailbox crc v w' = (mailbox crc v w)(d := Some (msg, a))"
proof
  fix n
  note sz = packet_shift_sizes [OF assms(2)]
  have len: "length (packet_bytes (mk_packet crc (2 ^ v) a msg)) = 2 ^ v"
    by (rule length_mk_packet [OF assms(3,5) sz(2)])
  show "mailbox crc v w' n = ((mailbox crc v w)(d := Some (msg, a))) n"
  proof (cases "n = d")
    case True
    have "packet_mail crc (2 ^ v) (packet_bytes (mk_packet crc (2 ^ v) a msg)) = Some (Inr (msg, a))"
      by (rule packet_mail_mk [OF assms(3-5) sz(2,4)])
    with True show ?thesis
      by (simp add: mailbox_def assms(1) node_block_overlay_same len)
  next
    case False
    then show ?thesis
      by (simp add: mailbox_def assms(1) node_block_overlay_other [OF False len assms(6)])
  qed
qed

lemma length_disk_sent:
  "length blk = 2 ^ v \<Longrightarrow> node_off v d + 2 ^ v \<le> length disk \<Longrightarrow>
   length (overlay (node_off v d) blk disk) = length disk"
  by (simp add: length_overlay)

lemma cluster_send:
  assumes c: "cluster devs k v w" and x: "iov_base data = Some src" "iov_len data \<le> length src"
    "0 < iov_len data" "iov_len data \<le> pkt_data_size (2 ^ v)"
  shows "\<exists>w'. eob_device_send crc (devs s) data (d_addr (devs d)) w = Inr (EOB_OK, w') \<and>
    cluster devs k v w' \<and>
    mailbox crc v w' = (mailbox crc v w)(d := Some (take (iov_len data) src, d_addr (devs s)))"
proof -
  let ?m = "take (iov_len data) src"
  have s: "blocks (devs s) k v" "packet_shift v" "calm w" "wf_hw_addr (d_addr (devs s))"
    and d: "hw_node_id (d_addr (devs d)) = d" and room: "node_off v d + 2 ^ v \<le> length (w_disk w)"
    using c cluster_room by (auto simp: cluster_def)
  have m: "0 < length ?m" "length ?m \<le> pkt_data_size (2 ^ v)" using x by simp_all
  obtain w' where w': "eob_device_send crc (devs s) data (d_addr (devs d)) w = Inr (EOB_OK, w')" "calm w'"
    "w_disk w' = overlay (node_off v (hw_node_id (d_addr (devs d))))
       (packet_bytes (mk_packet crc (2 ^ v) (d_addr (devs s)) ?m)) (w_disk w)"
    by (rule send_ok [where crc = crc and dst = "d_addr (devs d)", OF s x(1,2,4)])
  have len: "length (packet_bytes (mk_packet crc (2 ^ v) (d_addr (devs s)) ?m)) = 2 ^ v"
    using length_mk_packet [OF s(4)] m packet_shift_sizes(2) [OF s(2)] by blast
  have "mailbox crc v w' = (mailbox crc v w)(d := Some (?m, d_addr (devs s)))"
    using w'(3) s(2,4) m room unfolding d by (rule mailbox_sent)
  moreover have "cluster devs k v w'"
    using c w'(2,3) length_disk_sent [OF len room] unfolding d by (simp add: cluster_def)
  ultimately show ?thesis using w'(1) by blast
qed

interpretation dev_mail: mail
  "\<lambda>n. d_addr (devs n)" msg_vec "mailbox crc v" "cluster devs k v"
  "\<lambda>m. 0 < length m \<and> length m \<le> pkt_data_size (2 ^ v)"
  "\<lambda>s d x. eob_device_send crc (devs s) x (d_addr (devs d))"
  "\<lambda>d. eob_device_recv crc (devs d)"
  for devs crc k v
proof
  fix w :: eob_world and m :: bytes and s d :: u8
  assume "cluster devs k v w" and "0 < length m \<and> length m \<le> pkt_data_size (2 ^ v)"
  then show "\<exists>w'. eob_device_send crc (devs s) (msg_vec m) (d_addr (devs d)) w = Inr (EOB_OK, w') \<and>
      cluster devs k v w' \<and> mailbox crc v w' = (mailbox crc v w)(d := Some (m, d_addr (devs s)))"
    using cluster_send [of devs k v w "msg_vec m" m crc s d] by (simp add: msg_vec_def)
next
  fix w :: eob_world and d :: u8 and m :: bytes and a :: eob_hw_addr
  assume c: "cluster devs k v w" and b: "mailbox crc v w d = Some (m, a)"
  have d: "blocks (devs d) k v" "packet_shift v" "calm w" "hw_node_id (d_addr (devs d)) = d"
    and room: "node_off v d + 2 ^ v \<le> length (w_disk w)"
    using c cluster_room by (auto simp: cluster_def)
  have pm: "packet_mail crc (2 ^ v) (node_block v d (w_disk w)) = Some (Inr (m, a))"
    using b by (auto simp: mailbox_def split: option.splits sum.splits)
  obtain w' where "eob_device_recv crc (devs d) w = Inr (EOB_OK, Some (msg_vec m, a), w')" and io: "same_io w w'"
    by (rule recv_ok [OF d(1-3), of crc "Inr (m, a)"]) (use d(4) room pm in \<open>auto simp: msg_vec_def\<close>)
  moreover have "cluster devs k v w'" "mailbox crc v w' = mailbox crc v w"
    using c same_ioD [OF io] by (auto simp: cluster_def mailbox_def)
  ultimately show "\<exists>w'. eob_device_recv crc (devs d) w = Inr (EOB_OK, Some (msg_vec m, a), w') \<and>
      cluster devs k v w' \<and> mailbox crc v w' = mailbox crc v w"
    by blast
qed


section \<open>A concrete cluster\<close>

text \<open>Every node has the demo device with its own number; the blocks are still zero.\<close>

definition demo_addr :: "u8 \<Rightarrow> eob_hw_addr" where
  "demo_addr n = (EOB_HW_ADDR_INIT_DEFAULT 0 32)\<lparr>hw_node_id := n\<rparr>"

definition demo_device :: "u8 \<Rightarrow> eob_device" where
  "demo_device n = \<lparr>d_addr = demo_addr n, d_path = ''demo'', d_fd = 3, d_hdr = demo_header,
     d_phys_buff = null_iovec\<rparr>"

definition demo_cluster_world :: eob_world where
  "demo_cluster_world = (demo_world demo_header)\<lparr>w_disk := header_bytes demo_header @ replicate 131072 0\<rparr>"

lemma demo_device_simps [simp]:
  "d_addr (demo_device n) = demo_addr n" "d_hdr (demo_device n) = demo_header"
  "hw_node_id (demo_addr n) = n" "wf_hw_addr (demo_addr n)"
  by (simp_all add: demo_device_def demo_addr_def EOB_HW_ADDR_INIT_DEFAULT_def EOB_HW_ADDR_INIT_def wf_hw_addr_def)

lemma demo_blocks: "blocks (demo_device n) 9 9"
proof -
  have "h_phys_blk_size demo_header = 512" "h_virt_blk_size demo_header = 512"
    by (simp_all add: demo_header_def init_header_def dflt_def)
  then show ?thesis by (simp add: blocks_def)
qed

lemma demo_calm: "calm demo_cluster_world" "calm (demo_world h)"
  by (simp_all add: calm_def quiet_def roomy_def demo_cluster_world_def demo_world_def)

lemma demo_cluster_length: "length (w_disk demo_cluster_world) = 131584"
proof -
  have "length (header_bytes demo_header) = EOB_HDR_SIZE"
    using demo_fits by (simp add: fd_fits_def header.length_enc)
  then show ?thesis by (simp add: demo_cluster_world_def layout_simps)
qed

lemma demo_cluster: "cluster demo_device 9 9 demo_cluster_world"
  using demo_blocks demo_calm demo_cluster_length by (simp add: cluster_def packet_shift_def layout_simps)

section \<open>Properties\<close>

text \<open>
  Messages arrive: when one node sends up to a packet's data size (block size less 32
  bytes) and the addressed node then receives, it gets exactly the bytes that were sent and
  the address of the sender.
\<close>

theorem send_recv_roundtrip:
  assumes "cluster devs k v w" and "iov_base data = Some src" and "iov_len data \<le> length src"
    and "0 < iov_len data" and "iov_len data \<le> pkt_data_size (2 ^ v)"
  shows "\<exists>w1 w2. eob_device_send crc (devs s) data (d_addr (devs d)) w = Inr (EOB_OK, w1) \<and>
    eob_device_recv crc (devs d) w1 =
      Inr (EOB_OK, Some (data\<lparr>iov_base := Some (take (iov_len data) src)\<rparr>, d_addr (devs s)), w2)"
proof -
  let ?m = "take (iov_len data) src"
  obtain w1 where "eob_device_send crc (devs s) data (d_addr (devs d)) w = Inr (EOB_OK, w1)"
    and w1: "cluster devs k v w1" "mailbox crc v w1 = (mailbox crc v w)(d := Some (?m, d_addr (devs s)))"
    using cluster_send [OF assms] by blast
  moreover obtain w2 where "eob_device_recv crc (devs d) w1 =
      Inr (EOB_OK, Some (msg_vec ?m, d_addr (devs s)), w2)"
    using dev_mail.rcv_box [OF w1(1), of crc d ?m] w1(2) by auto
  moreover have "msg_vec ?m = data\<lparr>iov_base := Some ?m\<rparr>"
    using assms(3) by (cases data) (simp add: msg_vec_def)
  ultimately show ?thesis by auto
qed

theorem send_recv_roundtrip_witness:
  "\<exists>w1 w2. eob_device_send demo_crc (demo_device 1) (msg_vec [72, 105]) (demo_addr 7) demo_cluster_world =
      Inr (EOB_OK, w1) \<and>
    eob_device_recv demo_crc (demo_device 7) w1 = Inr (EOB_OK, Some (msg_vec [72, 105], demo_addr 1), w2)"
  using send_recv_roundtrip [OF demo_cluster, of "msg_vec [72, 105]" "[72, 105]" demo_crc 1 7]
  by (simp add: msg_vec_def pkt_data_size_def layout_simps)

text \<open>
  C7. Sending touches one block only: the 512 header bytes and the blocks of all other nodes
  are the same before and after, and the device does not grow.
\<close>

theorem send_isolated:
  assumes "cluster devs k v w" and "iov_base data = Some src" and "iov_len data \<le> length src"
    and "0 < iov_len data" and "iov_len data \<le> pkt_data_size (2 ^ v)"
  shows "\<exists>w'. eob_device_send crc (devs s) data (d_addr (devs d)) w = Inr (EOB_OK, w') \<and>
    bslice 0 EOB_HDR_SIZE (w_disk w') = bslice 0 EOB_HDR_SIZE (w_disk w) \<and>
    (\<forall>n. n \<noteq> d \<longrightarrow> node_block v n (w_disk w') = node_block v n (w_disk w)) \<and>
    length (w_disk w') = length (w_disk w)"
proof -
  let ?bs = "packet_bytes (mk_packet crc (2 ^ v) (d_addr (devs s)) (take (iov_len data) src))"
  have s: "blocks (devs s) k v" "packet_shift v" "calm w" "wf_hw_addr (d_addr (devs s))"
    and d: "hw_node_id (d_addr (devs d)) = d" and room: "node_off v d + 2 ^ v \<le> length (w_disk w)"
    using assms(1) cluster_room by (auto simp: cluster_def)
  obtain w' where w': "eob_device_send crc (devs s) data (d_addr (devs d)) w = Inr (EOB_OK, w')"
    "w_disk w' = overlay (node_off v d) ?bs (w_disk w)"
    by (rule send_ok [where crc = crc and dst = "d_addr (devs d)", OF s assms(2,3,5)]) (auto simp: d)
  have len: "length ?bs = 2 ^ v"
    using length_mk_packet [OF s(4) _ packet_shift_sizes(2) [OF s(2)]] assms(5) by simp
  have "bslice 0 EOB_HDR_SIZE (w_disk w') = bslice 0 EOB_HDR_SIZE (w_disk w)"
    unfolding w'(2) using room by (intro bslice_overlay_before) (simp_all add: node_off_def)
  moreover have "node_block v n (w_disk w') = node_block v n (w_disk w)" if "n \<noteq> d" for n
    unfolding w'(2) by (rule node_block_overlay_other [OF that len room])
  moreover have "length (w_disk w') = length (w_disk w)"
    unfolding w'(2) by (rule length_disk_sent [OF len room])
  ultimately show ?thesis using w'(1) by blast
qed

theorem send_isolated_witness:
  "\<exists>w'. eob_device_send demo_crc (demo_device 1) (msg_vec [72, 105]) (demo_addr 7) demo_cluster_world =
      Inr (EOB_OK, w') \<and>
    node_block 9 8 (w_disk w') = node_block 9 8 (w_disk demo_cluster_world)"
  using send_isolated [OF demo_cluster, of "msg_vec [72, 105]" "[72, 105]" demo_crc 1 7]
  by (auto simp: msg_vec_def pkt_data_size_def layout_simps)

text \<open>
  C2. Many senders: after any sequence of sends between the nodes of a cluster, a node receives
  the last message that was sent to it, with its sender, whatever was sent to it before and to
  the others afterwards.
\<close>

theorem recv_last_message:
  assumes "cluster devs k v w"
    and "list_all (\<lambda>(s, d, m). 0 < length m \<and> length m \<le> pkt_data_size (2 ^ v)) (before @ (s, d, m) # after)"
    and "d \<notin> set (map (\<lambda>(s, d, m). d) after)"
  shows "\<exists>w' w''. send_seq (\<lambda>s d x. eob_device_send crc (devs s) x (d_addr (devs d)))
      (map (\<lambda>(s, d, m). (s, d, msg_vec m)) (before @ (s, d, m) # after)) w = Inr (EOB_OK, w') \<and>
    eob_device_recv crc (devs d) w' = Inr (EOB_OK, Some (msg_vec m, d_addr (devs s)), w'')"
  using dev_mail.last_message [OF assms] .

theorem recv_last_message_witness:
  "\<exists>w' w''. send_seq (\<lambda>s d x. eob_device_send demo_crc (demo_device s) x (demo_addr d))
      [(3, 7, msg_vec [1]), (1, 7, msg_vec [72, 105]), (7, 1, msg_vec [9])] demo_cluster_world = Inr (EOB_OK, w') \<and>
    eob_device_recv demo_crc (demo_device 7) w' = Inr (EOB_OK, Some (msg_vec [72, 105], demo_addr 1), w'')"
  using recv_last_message [OF demo_cluster, where before = "[(3, 7, [1])]" and s = 1 and d = 7 and m = "[72, 105]"
      and after = "[(7, 1, [9])]" and crc = demo_crc]
  by (simp add: pkt_data_size_def layout_simps)

end
