(* ===== verification/Eob_Recv_Any.thy ===== *)
theory Eob_Recv_Any
  imports Eob_Mail
begin

text \<open>
  Receiving in an arbitrary world: allocations fail or succeed, calls on the device fail, are cut
  short or come after a write of another node. What \<open>eob_device_recv_raw\<close> and the functions under it
  (\<open>src/lib/liboblock.c\<close>) return when they return success.
\<close>

section \<open>Steps that leave the device alone\<close>

definition same_dev :: "eob_world \<Rightarrow> eob_world \<Rightarrow> bool" where
  "same_dev w w' \<longleftrightarrow> w_disk w' = w_disk w \<and> w_sched w' = w_sched w"

lemma same_dev_refl [simp]: "same_dev w w"
  by (simp add: same_dev_def)

lemma same_dev_trans: "same_dev w w' \<Longrightarrow> same_dev w' w'' \<Longrightarrow> same_dev w w''"
  by (simp add: same_dev_def)

lemma same_dev_until [simp]: "same_dev w (malloc_until_ok w)"
  by (simp add: same_dev_def)

lemma malloc_ok_dev: "malloc_ok w = (ok, w') \<Longrightarrow> same_dev w w'"
  by (auto simp: same_dev_def split: list.splits)

lemma sys_malloc_dev: "sys_malloc n w = (p, w') \<Longrightarrow> same_dev w w'"
  using malloc_ok_dev by (auto simp: sys_malloc_def simp del: malloc_ok.simps split: prod.splits)

lemma alloc_wait_dev: "eob_iovec_alloc_wait v w = Inr (v', w') \<Longrightarrow> same_dev w w' \<and> 0 < iov_len v"
  by (auto simp: eob_iovec_alloc_wait_def alloc_wait_def bindr_guard_Inr_iff)

lemma alloc_blocks_dev: "alloc_blocks n sz w = Inr (vs, w') \<Longrightarrow> same_dev w w'"
  by (induction n arbitrary: vs w) (fastforce simp: bindr_Inr_iff dest: alloc_wait_dev intro: same_dev_trans)+

lemma phys_array_dev:
  assumes "alloc_phys_array (2 ^ m) b w = (ok, b', w')" and "m \<le> 10"
  shows "same_dev w w'" and "b' = b\<lparr>b_phys_len := 2 ^ m * SIZEOF_IOVEC, b_phys_base := None\<rparr>"
proof -
  have "(2::nat) ^ m \<le> 2 ^ 10" using assms(2) by (intro power_increasing) simp_all
  then have "(2 ^ m * 16 :: nat) < 2 ^ 64" by simp
  moreover have "unat (2 ^ m :: u64) = 2 ^ m" using assms(2) by (simp add: unat_pow2)
  ultimately have len: "unat (2 ^ m * word_of_nat SIZEOF_IOVEC :: u64) = 2 ^ m * SIZEOF_IOVEC"
    by (simp add: unat_word_ariths layout_simps)
  obtain p w1 where m: "sys_malloc (2 ^ m * SIZEOF_IOVEC) w = (p, w1)" by fastforce
  then have "w' = w1" "b' = b\<lparr>b_phys_len := 2 ^ m * SIZEOF_IOVEC, b_phys_base := None\<rparr>"
    using assms(1) by (simp_all add: alloc_phys_array_def len)
  then show "same_dev w w'" and "b' = b\<lparr>b_phys_len := 2 ^ m * SIZEOF_IOVEC, b_phys_base := None\<rparr>"
    using sys_malloc_dev [OF m] by simp_all
qed

lemma iovec_copy_dev:
  assumes "eob_iovec_copy to from w = Inr (0, d, w')"
  obtains src where "same_dev w w'" and "iov_base from = Some src"
    and "d = \<lparr>iov_base = Some (take (iov_len from) src), iov_len = iov_len from\<rparr>"
proof -
  obtain p w1 where m: "sys_malloc (iov_len from) w = (p, w1)" by fastforce
  show thesis
  proof (cases p)
    case None
    then show ?thesis using assms m by (simp add: eob_iovec_copy_def eob_iovec_alloc_def bindr_Inr_iff)
  next
    case (Some mem)
    then have lm: "length mem = iov_len from" using m by (auto simp: sys_malloc_def simp del: malloc_ok.simps split: prod.splits if_splits)
    have "eob_iovec_alloc (to\<lparr>iov_len := iov_len from\<rparr>) w = Inr (0, \<lparr>iov_base = Some mem, iov_len = iov_len from\<rparr>, w1)"
      using m Some by (simp add: eob_iovec_alloc_def Let_def)
    then have run: "bindr (c_deref (iov_base from)) (\<lambda>src. bindr (c_memcpy mem 0 src (iov_len from)) (\<lambda>dst.
        Inr (0 :: int, \<lparr>iov_base = Some dst, iov_len = iov_len from\<rparr>, w1))) = Inr (0, d, w')"
      using assms by (simp add: eob_iovec_copy_def)
    then obtain src where src: "iov_base from = Some src" by (cases "iov_base from") simp_all
    show ?thesis
      using run src lm sys_malloc_dev [OF m] by (intro that [of src]) (auto simp: c_memcpy_def bindr_guard_Inr_iff bindr_assoc overlay_full)
  qed
qed

lemma buff_create_dev:
  assumes "eob_buff_create dev None w = Inr (Some b, w')"
  shows "same_dev w w'" and "b = \<lparr>b_dev = dev, b_virt_blk_size = h_virt_blk_size (d_hdr dev),
    b_phys_blk_size = h_phys_blk_size (d_hdr dev), b_data = null_iovec, b_phys_base = None, b_phys_len = 0\<rparr>"
proof -
  obtain ok w1 where m: "malloc_ok w = (ok, w1)" by fastforce
  have "w' = w1 \<and> b = \<lparr>b_dev = dev, b_virt_blk_size = h_virt_blk_size (d_hdr dev),
    b_phys_blk_size = h_phys_blk_size (d_hdr dev), b_data = null_iovec, b_phys_base = None, b_phys_len = 0\<rparr>"
    using assms m by (auto simp: eob_buff_create_def simp del: malloc_ok.simps split: if_splits)
  then show "same_dev w w'" and "b = \<lparr>b_dev = dev, b_virt_blk_size = h_virt_blk_size (d_hdr dev),
    b_phys_blk_size = h_phys_blk_size (d_hdr dev), b_data = null_iovec, b_phys_base = None, b_phys_len = 0\<rparr>"
    using malloc_ok_dev [OF m] by simp_all
qed

section \<open>Reading\<close>

text \<open>A read that transfers all it asked for shows the device as it is right after the call.\<close>

lemma pread_full:
  assumes "sys_pread n off w = (Some bs, w')" and "length bs = n"
  shows "bs = bslice (unat off) n (w_disk w')" and "unat off + n \<le> length (w_disk w') \<or> n = 0"
    and "w_disk w' = w_disk w \<or> (\<exists>o' bs' es. w_sched w = Peer_write o' bs' # es \<and> w_disk w' = overlay o' bs' (w_disk w))"
proof -
  obtain e w1 where e: "next_event w = (e, w1)" by fastforce
  then have w1: "w_disk w1 = w_disk w" "e \<noteq> Quiet \<longrightarrow> (\<exists>es. w_sched w = e # es)" by (auto split: list.splits)
  show b: "bs = bslice (unat off) n (w_disk w')"
  proof (cases e)
    case (Short k)
    then have "w' = w1" "bs = bslice (unat off) (min k n) (w_disk w1)"
      using assms(1) e by (auto simp: sys_pread_def simp del: next_event.simps split: if_splits)
    moreover from this have "min k n = n" using assms(2) by (simp add: bslice_def)
    ultimately show ?thesis by simp
  qed (use assms e in \<open>auto simp: sys_pread_def simp del: next_event.simps split: if_splits\<close>)
  show "unat off + n \<le> length (w_disk w') \<or> n = 0" using assms(2) b by (auto simp: bslice_def)
  show "w_disk w' = w_disk w \<or> (\<exists>o' bs' es. w_sched w = Peer_write o' bs' # es \<and> w_disk w' = overlay o' bs' (w_disk w))"
    using assms(1) e w1 by (auto simp: sys_pread_def simp del: next_event.simps split: if_splits io_event.splits)
qed

lemma pread_length: "sys_pread n off w = (Some bs, w') \<Longrightarrow> length bs \<le> n"
  by (auto simp: sys_pread_def bslice_def simp del: next_event.simps split: if_splits io_event.splits prod.splits)

lemma map_phys_dev:
  assumes "eob_buff_map_phys_to_data b n w = Inr (rv, b', w')"
  obtains vs dst where "phys_vecs b = Inr vs" and "copy_blocks vs 0 n (junk_bytes n w) = Inr (n, dst)"
    and "b' = b\<lparr>b_data := (b_data b)\<lparr>iov_base := Some dst, iov_len := n\<rparr>\<rparr>" and "same_dev w w'" and "rv = 0"
  using assms
  by (auto simp: eob_buff_map_phys_to_data_def bindr_Inr_iff guard_Inr_iff eob_iovec_alloc_wait_def alloc_wait_def
      simp flip: phys_vecs_def)

lemma buff_read_any:
  assumes b: "blocks_buff b k v" and d: "b_data b = null_iovec" and run: "eob_buff_read b w = Inr (0, b', w')"
  obtains bs dst w1 w2 where "same_dev w w1"
    and "sys_pread (2 ^ v) (blk_offset b (ucast (hw_node_id (d_addr (b_dev b))))) w1 = (Some bs, w2)"
    and "same_dev w2 w'" and "b_data b' = \<lparr>iov_base = Some dst, iov_len = length bs\<rparr>"
    and "length bs = 2 ^ v \<Longrightarrow> dst = bs"
proof -
  have s: "b_phys_blk_size b = 2 ^ k" "b_virt_blk_size b = 2 ^ v" "k \<le> v" "v < 31" using b by (auto simp: blocks_buff_def)
  note sz = block_sizes [OF s(3,4)]
  have m: "v - k \<le> 10" using b by (auto simp: blocks_buff_def)
  let ?b1 = "b\<lparr>b_phys_len := 2 ^ (v - k) * SIZEOF_IOVEC, b_phys_base := None\<rparr>"
  obtain ok b0 w0 where "alloc_phys_array (2 ^ (v - k)) b w = (ok, b0, w0)" by (metis prod_cases3)
  then have arr: "alloc_phys_array (2 ^ (v - k)) b w = (ok, ?b1, w0)" and w0: "same_dev w w0"
    using phys_array_dev [OF _ m] by auto
  have ok using run io_count_exact [OF s(3,4)] s arr
    by (cases ok) (auto simp: eob_buff_read_def eob_buff_alloc_phys_def bindr_Inr_iff)
  obtain vs w1 where al: "alloc_blocks (2 ^ (v - k)) (2 ^ k) w0 = Inr (vs, w1)" and vs: "length vs = 2 ^ (v - k)"
    "list_all (block_vec (2 ^ k)) vs"
    using alloc_blocks_ok [OF _ sz(4), of "2 ^ (v - k)" w0] by auto
  have w1: "same_dev w w1" using same_dev_trans [OF w0 alloc_blocks_dev [OF al]] .
  have total: "sum_list (map iov_len vs) = 2 ^ v" using sum_block_lens [OF vs(2)] vs(1) sz(3) by simp
  let ?b2 = "?b1\<lparr>b_phys_base := Some vs\<rparr>" and ?off = "blk_offset b (ucast (hw_node_id (d_addr (b_dev b))))"
  have alloc: "eob_buff_alloc_phys b w = Inr (0, ?b2, w1)"
    using io_count_exact [OF s(3,4)] arr al s sz \<open>ok\<close> by (simp add: eob_buff_alloc_phys_def)
  have read: "eob_buff_read_impl ?b2 w1 = Inr (0, b', w')" using run alloc by (simp add: eob_buff_read_def)
  have "(2::nat) ^ (v - k) \<le> 2 ^ 10" using m by (intro power_increasing) simp_all
  then have few: "\<not> IOV_MAX < length vs" using vs(1) by (simp add: IOV_MAX_def)
  obtain r w2 where p: "sys_pread (2 ^ v) ?off w1 = (r, w2)" by fastforce
  have vec: "phys_vecs ?b2 = Inr vs" by (rule phys_vecs_Some) (simp_all add: vs(1))
  have off: "blk_offset ?b2 x = blk_offset b x" for x by (simp add: blk_offset_def)
  have pv: "sys_preadv vs ?off w1 = (map_option (\<lambda>bs. (length bs, scatter bs vs)) r, w2)"
    using few total p by (simp add: sys_preadv_def)
  show thesis
  proof (cases r)
    case None
    then show ?thesis using read vec pv off by (simp add: eob_buff_read_impl_def)
  next
    case (Some bs)
    let ?b3 = "?b2\<lparr>b_phys_base := Some (scatter bs vs)\<rparr>"
    have "eob_buff_map_phys_to_data ?b3 (length bs) w2 = Inr (0, b', w')"
      using read vec pv off Some by (simp add: eob_buff_read_impl_def)
    then obtain vs' dst where c: "phys_vecs ?b3 = Inr vs'" "copy_blocks vs' 0 (length bs) (junk_bytes (length bs) w2) = Inr (length bs, dst)"
      "b' = ?b3\<lparr>b_data := (b_data ?b3)\<lparr>iov_base := Some dst, iov_len := length bs\<rparr>\<rparr>" "same_dev w2 w'"
      by (rule map_phys_dev) 
    have "dst = bs" if full: "length bs = 2 ^ v"
    proof -
      have sc: "list_all (block_vec (2 ^ k)) (scatter bs vs)" "gather (scatter bs vs) = bs" "length (scatter bs vs) = length vs"
        using scatter_blocks [OF vs(2), of bs] full vs(1) sz(3) by simp_all
      have "phys_vecs ?b3 = Inr (scatter bs vs)" by (rule phys_vecs_Some) (simp_all add: sc(3) vs(1))
      then have "vs' = scatter bs vs" using c(1) by simp
      moreover have "scatter bs vs \<noteq> []" using sc(3) vs(1) by auto
      ultimately have "copy_blocks vs' 0 (length bs) (junk_bytes (length bs) w2) = Inr (length bs, bs)"
        using copy_blocks_ok [OF _ sc(1), of "length bs" 0 "junk_bytes (length bs) w2"] sc(2,3) full vs(1) sz(3) by simp
      then show ?thesis using c(2) by simp
    qed
    then show ?thesis
      using c(3,4) w1 p Some d by (intro that [of w1 bs w2 dst]) (simp_all add: null_iovec_def)
  qed
qed

lemma recv_raw_any:
  assumes b: "blocks dev k v" and run: "eob_device_recv_raw dev w = Inr (0, d, w')"
  obtains bs dst w1 w2 x where "same_dev w w1" and "same_dev w2 w'"
    and "sys_pread (2 ^ v) x w1 = (Some bs, w2)" and "unat x = node_off v (hw_node_id (d_addr dev))"
    and "d = \<lparr>iov_base = Some (take (length bs) dst), iov_len = length bs\<rparr>" and "length bs = 2 ^ v \<Longrightarrow> dst = bs"
proof -
  let ?b = "\<lparr>b_dev = dev, b_virt_blk_size = h_virt_blk_size (d_hdr dev), b_phys_blk_size = h_phys_blk_size (d_hdr dev),
    b_data = null_iovec, b_phys_base = None, b_phys_len = 0\<rparr>"
  obtain buff w0 where c: "eob_buff_create dev None w = Inr (buff, w0)"
    using run by (auto simp: eob_device_recv_raw_def bindr_Inr_iff)
  then obtain b0 where c0: "eob_buff_create dev None w = Inr (Some b0, w0)"
    using run by (cases buff) (auto simp: eob_device_recv_raw_def bindr_Inr_iff)
  note create = buff_create_dev [OF c0]
  have B: "blocks_buff ?b k v" using b by (simp add: blocks_def blocks_buff_def)
  obtain b' w3 where r: "eob_buff_read ?b w0 = Inr (0, b', w3)"
    and cp: "eob_iovec_copy null_iovec (b_data b') w3 = Inr (0, d, w')"
    using run c0 create(2) by (auto simp: eob_device_recv_raw_def bindr_Inr_iff split: if_splits)
  have null: "b_data ?b = null_iovec" by simp
  obtain bs dst w1 w2 where io: "same_dev w0 w1" "same_dev w2 w3"
    "sys_pread (2 ^ v) (blk_offset ?b (ucast (hw_node_id (d_addr dev)))) w1 = (Some bs, w2)"
    "b_data b' = \<lparr>iov_base = Some dst, iov_len = length bs\<rparr>" "length bs = 2 ^ v \<longrightarrow> dst = bs"
    by (rule buff_read_any [OF B null r]) (rule that, auto)
  obtain src where cd: "same_dev w3 w'" "d = \<lparr>iov_base = Some (take (length bs) dst), iov_len = length bs\<rparr>"
    using iovec_copy_dev [OF cp] io(4) by auto
  have "unat (blk_offset ?b (ucast (hw_node_id (d_addr dev)))) = node_off v (hw_node_id (d_addr dev))"
    using unat_blk_offset [of ?b v] b by (simp add: blocks_def)
  then show thesis
    using same_dev_trans [OF create(1) io(1)] same_dev_trans [OF io(2) cd(1)] io(3,5) cd(2)
    by (intro that [of w1 w2 _ bs dst]) auto
qed

end
