(* ===== verification/Eob_Mail_Errors.thy ===== *)
theory Eob_Mail_Errors
  imports Eob_Recv_Any
begin

text \<open>
  The failing paths of \<open>eob_device_send\<close> and \<open>eob_device_recv\<close>, what a successful receive
  guarantees in every world, and the string variants (\<open>src/lib/liboblock.c\<close>).
\<close>

section \<open>What a receive depends on\<close>

text \<open>
  \<open>recv_unpack\<close> in terms of the block alone, for every outcome: what a packet does to the
  process that receives it.
\<close>

lemma recv_unpack_long:
  assumes "length blk = sz" and "32 \<le> sz" and "sz < EOB_MAX_VIRT_BLK_SIZE"
    and "n = unat (ph_data_len (pk_head (packet_of_bytes sz blk)))" and "pkt_data_size sz < n"
  shows "recv_unpack sz \<lparr>iov_base = Some blk, iov_len = sz\<rparr> w =
    (if n < EOB_MAX_VIRT_BLK_SIZE then Inl UB else Inl Abort)"
proof -
  have head: "pk_head (packet_of_bytes sz blk) = packet_head_of_bytes (bslice 0 24 blk)"
    by (simp add: packet_of_bytes_def)
  have "length (bslice 24 (pkt_data_size sz) blk) < n"
    using assms(5) by (simp add: bslice_def)
  then have over: "c_memcpy (junk_bytes n w) 0 (bslice 24 (pkt_data_size sz) blk) n = Inl UB"
    by (auto simp: c_memcpy_def guard_def)
  show ?thesis
  proof (cases "n < EOB_MAX_VIRT_BLK_SIZE")
    case True
    moreover have "n < 2 ^ 63" using True by (simp add: layout_simps)
    ultimately show ?thesis
      using assms(1,2,5) over by (simp add: recv_unpack_def assms(4) head Let_def)
  next
    case False
    then show ?thesis using assms(1,2) by (simp add: recv_unpack_def assms(4) head Let_def)
  qed
qed

lemma recv_unpack_empty:
  assumes "length blk = sz" and "32 \<le> sz" and "unat (ph_data_len (pk_head (packet_of_bytes sz blk))) = 0"
  shows "recv_unpack sz \<lparr>iov_base = Some blk, iov_len = sz\<rparr> w = Inl Abort"
  using assms by (simp add: recv_unpack_def packet_of_bytes_def eob_iovec_alloc_wait_def alloc_wait_def
      layout_simps)

text \<open>Conversely, an unpacked packet is one that \<open>packet_mail\<close> accepts.\<close>

lemma recv_unpack_sound:
  assumes "recv_unpack sz \<lparr>iov_base = Some blk, iov_len = n0\<rparr> w = Inr (head, d, chksum, w')" and "32 \<le> sz"
  obtains msg where "d = msg_vec msg" and "0 < length msg" and "length msg \<le> pkt_data_size sz"
    and "packet_mail crc sz (take sz blk) =
      Some (if eob_chcksum_calc crc msg \<noteq> chksum then Inl EOB_CHKSUM else Inr (msg, ph_src_addr head))"
    and "sz \<le> length blk"
proof -
  let ?n = "unat (ph_data_len (packet_head_of_bytes (bslice 0 24 blk)))"
  let ?data = "bslice 24 (pkt_data_size sz) blk"
  have n: "0 < ?n" "?n \<le> length ?data" "sz \<le> length blk"
    and h: "head = packet_head_of_bytes (bslice 0 24 blk)" and c: "chksum = un_le64 (bslice (sz - 8) 8 blk)"
    and d: "d = \<lparr>iov_base = Some (take ?n ?data), iov_len = ?n\<rparr>"
    using assms(1)
    by (auto simp: recv_unpack_def eob_iovec_alloc_wait_def alloc_wait_def c_memcpy_def
        overlay_full Let_def bindr_guard_Inr_iff bindr_assoc simp del: length_bslice)
  have ld: "length ?data = pkt_data_size sz"
    using n(3) assms(2) by (simp add: bslice_def pkt_data_size_def layout_simps)
  have t: "bslice off k (take sz blk) = bslice off k blk" if "off + k \<le> sz" for off k
    using that by (simp add: bslice_def take_drop)
  have p: "packet_of_bytes sz (take sz blk) = \<lparr>pk_head = head, pk_data = ?data, pk_chksum = chksum\<rparr>"
    using assms(2) by (simp add: packet_of_bytes_def h c t pkt_data_size_def layout_simps)
  show thesis
    by (rule that [of "take ?n ?data"]) (use d n ld in \<open>auto simp: packet_mail_def p h Let_def msg_vec_def\<close>)
qed

section \<open>Strings\<close>

lemma c_strlen_ok: "0 \<notin> set t \<Longrightarrow> c_strlen (t @ 0 # rest) = Inr (length t)"
proof -
  assume "0 \<notin> set t"
  then have "takeWhile (\<lambda>c. c \<noteq> 0) (t @ 0 # rest) = t" by (subst takeWhile_append2) auto
  then show ?thesis by (simp add: c_strlen_def)
qed

lemma c_strlen_unterminated: "0 \<notin> set t \<Longrightarrow> c_strlen t = Inl UB"
  by (simp add: c_strlen_def)

lemma demo_received:
  "\<exists>w w'. eob_device_recv demo_crc (demo_device 7) w = Inr (EOB_OK, Some (msg_vec [72, 105], demo_addr 1), w')"
  using dev_mail.last_message [OF demo_cluster, of "[]" 1 7 "[72, 105]" "[]" demo_crc]
  by (auto simp: pkt_data_size_def layout_simps)

section \<open>Properties\<close>

text \<open>What a successful receive read, unpacked and checked.\<close>

lemma recv_delivered:
  assumes "eob_device_recv crc dev w = Inr (rv, Some (d, src), w')"
  obtains blk n w1 msg where "eob_device_recv_raw dev w = Inr (0, \<lparr>iov_base = Some blk, iov_len = n\<rparr>, w1)"
    and "same_dev w1 w'" and "rv = EOB_OK" and "d = msg_vec msg" and "0 < length msg"
    and "unat (h_virt_blk_size (d_hdr dev)) \<le> length blk"
    and "packet_mail crc (unat (h_virt_blk_size (d_hdr dev))) (take (unat (h_virt_blk_size (d_hdr dev))) blk) = Some (Inr (msg, src))"
proof -
  let ?sz = "unat (h_virt_blk_size (d_hdr dev))"
  obtain v w1 where raw: "eob_device_recv_raw dev w = Inr (0, v, w1)"
    using assms by (auto simp: eob_device_recv_def bindr_Inr_iff split: if_splits)
  obtain head data chksum w2 bs where u: "recv_unpack ?sz v w1 = Inr (head, data, chksum, w2)"
    and bs: "c_deref (iov_base data) = Inr bs"
    and sz: "?sz = 512 \<or> ?sz = 4096 \<or> ?sz = 8192"
    and r: "(if eob_chcksum_calc crc (take (iov_len data) bs) \<noteq> chksum
        then bindr (SET_ERR EOB_CHKSUM) (\<lambda>rv. Inr (rv, None, w2))
        else Inr (0, Some (data, ph_src_addr head), w2)) = Inr (rv, Some (d, src), w')"
    using assms raw by (auto simp: eob_device_recv_def bindr_Inr_iff Let_def split: if_splits)
  obtain blk n where v: "v = \<lparr>iov_base = Some blk, iov_len = n\<rparr>"
    using u by (cases v; cases "iov_base v") (auto simp: recv_unpack_def)
  have "32 \<le> ?sz" using sz by auto
  from recv_unpack_sound [OF u [unfolded v] this, of crc] obtain msg where m: "data = msg_vec msg" "0 < length msg"
    "packet_mail crc ?sz (take ?sz blk) =
      Some (if eob_chcksum_calc crc msg \<noteq> chksum then Inl EOB_CHKSUM else Inr (msg, ph_src_addr head))"
    "?sz \<le> length blk" by blast
  have "same_dev w1 w2" using u by (auto simp: recv_unpack_def bindr_Inr_iff Let_def dest: alloc_wait_dev)
  moreover have "bs = msg" using bs m(1) by (simp add: msg_vec_def)
  then have "eob_chcksum_calc crc msg = chksum" "rv = 0" "d = data" "src = ph_src_addr head" "w' = w2"
    using r m(1) by (auto simp: msg_vec_def split: if_splits)
  ultimately show thesis using raw v m by (intro that) auto
qed

text \<open>
  C8. Nothing is delivered that is not in the node's own block. In every world (allocations may
  fail, the read may fail, be cut short or come after a write of another node), when
  \<open>eob_device_recv\<close> hands out a message and a sender, its code is \<open>EOB_OK\<close> and the block of the
  receiving node on the device, as it is at the read and at the end of the call, is a whole packet
  whose recorded length is positive and fits, whose checksum is that of the message, and whose
  message and sender are the ones handed out. The device is the one before the call, or that with
  the write of the other node that came first.
\<close>

theorem recv_sound:
  assumes b: "blocks dev k v" and run: "eob_device_recv crc dev w = Inr (rv, Some (d, src), w')"
  shows "\<exists>msg. rv = EOB_OK \<and> d = msg_vec msg \<and> 0 < length msg \<and>
    node_off v (hw_node_id (d_addr dev)) + 2 ^ v \<le> length (w_disk w') \<and>
    packet_mail crc (2 ^ v) (node_block v (hw_node_id (d_addr dev)) (w_disk w')) = Some (Inr (msg, src)) \<and>
    (w_disk w' = w_disk w \<or> (\<exists>o' bs es. w_sched w = Peer_write o' bs # es \<and> w_disk w' = overlay o' bs (w_disk w)))"
proof -
  have sz: "unat (h_virt_blk_size (d_hdr dev)) = 2 ^ v" using blocks_virt [OF b] by simp
  obtain blk n w1 msg where raw: "eob_device_recv_raw dev w = Inr (0, \<lparr>iov_base = Some blk, iov_len = n\<rparr>, w1)"
    and m: "same_dev w1 w'" "rv = EOB_OK" "d = msg_vec msg" "0 < length msg" "2 ^ v \<le> length blk"
      "packet_mail crc (2 ^ v) (take (2 ^ v) blk) = Some (Inr (msg, src))"
    by (rule recv_delivered [OF run, unfolded sz]) (rule that)
  obtain bs dst wa wb x where rd: "same_dev w wa" "same_dev wb w1" "sys_pread (2 ^ v) x wa = (Some bs, wb)"
    "unat x = node_off v (hw_node_id (d_addr dev))" "blk = take (length bs) dst" "length bs = 2 ^ v \<longrightarrow> dst = bs"
    by (rule recv_raw_any [OF b raw]) (rule that, auto)
  have full: "length bs = 2 ^ v" using pread_length [OF rd(3)] m(5) rd(5) by simp
  note p = pread_full [OF rd(3) full]
  have disk: "w_disk w' = w_disk wb" using rd(2) m(1) by (simp add: same_dev_def)
  have "take (2 ^ v) blk = node_block v (hw_node_id (d_addr dev)) (w_disk w')"
    using rd(4-6) full p(1) disk by (simp add: node_block_def)
  moreover have "node_off v (hw_node_id (d_addr dev)) + 2 ^ v \<le> length (w_disk w')" using p(2) rd(4) disk by simp
  moreover have "w_disk w' = w_disk w \<or> (\<exists>o' bs es. w_sched w = Peer_write o' bs # es \<and> w_disk w' = overlay o' bs (w_disk w))"
    using p(3) rd(1) disk by (simp add: same_dev_def)
  ultimately show ?thesis using m by auto
qed

theorem recv_sound_witness:
  "\<exists>w d src w' msg. eob_device_recv demo_crc (demo_device 7) w = Inr (EOB_OK, Some (d, src), w') \<and>
    d = msg_vec msg \<and> packet_mail demo_crc 512 (node_block 9 7 (w_disk w')) = Some (Inr (msg, src))"
proof -
  obtain w1 w2 where
    r: "eob_device_recv demo_crc (demo_device 7) w1 = Inr (EOB_OK, Some (msg_vec [72, 105], demo_addr 1), w2)"
    using demo_received by blast
  have "\<exists>msg. msg_vec [72, 105] = msg_vec msg \<and>
      packet_mail demo_crc (2 ^ 9) (node_block 9 (hw_node_id (d_addr (demo_device 7))) (w_disk w2)) = Some (Inr (msg, demo_addr 1))"
    using recv_sound [OF demo_blocks r] by blast
  then have "\<exists>msg. msg_vec [72, 105] = msg_vec msg \<and>
      packet_mail demo_crc 512 (node_block 9 7 (w_disk w2)) = Some (Inr (msg, demo_addr 1))" by simp
  with r show ?thesis by blast
qed

text \<open>
  C19. What the length of a message does to the process that sends it: more than the virtual block
  is refused with \<open>EOB_2BIG\<close> before anything is touched; within it, a block of another size
  than 512 or 4096 bytes (8192 and 16384, for which there are packet structures, included)
  aborts, and the 32 bytes of head and tail, which the size check leaves out, are written behind
  the array of the packet; everything else becomes the block of the addressed node.
\<close>

theorem send_outcomes:
  assumes b: "blocks dev k v" and c: "calm w" and a: "wf_hw_addr (d_addr dev)"
    and d: "iov_base data = Some src" "length src = iov_len data"
  shows "\<exists>w'. eob_device_send crc dev data dst w =
      (if 2 ^ v < length src then Inr (EOB_2BIG, w)
       else if \<not> packet_shift v then Inl Abort
       else if pkt_data_size (2 ^ v) < length src then Inl UB
       else Inr (EOB_OK, w')) \<and>
    (packet_shift v \<longrightarrow> length src \<le> pkt_data_size (2 ^ v) \<longrightarrow>
      w_disk w' = overlay (node_off v (hw_node_id dst)) (packet_bytes (mk_packet crc (2 ^ v) (d_addr dev) src)) (w_disk w))"
proof -
  note virt = blocks_virt [OF b]
  consider "2 ^ v < length src" | "length src \<le> 2 ^ v" "\<not> packet_shift v"
    | "length src \<le> 2 ^ v" "packet_shift v" "pkt_data_size (2 ^ v) < length src"
    | "packet_shift v" "length src \<le> pkt_data_size (2 ^ v)" by linarith
  then show ?thesis
  proof cases
    case 1
    then have "\<not> length src \<le> pkt_data_size (2 ^ v)" by (simp add: pkt_data_size_def)
    then show ?thesis using 1 virt d(2) by (auto simp: eob_device_send_def)
  next
    case 2
    have "v \<noteq> 9" "v \<noteq> 12" using 2(2) by (simp_all add: packet_shift_def)
    then have "unat (h_virt_blk_size (d_hdr dev)) \<notin> {512, 4096}"
      using virt power_inject_exp [of "2::nat" v 9] power_inject_exp [of "2::nat" v 12] by simp
    then show ?thesis using 2 virt d by (auto simp: eob_device_send_def Let_def)
  next
    case 3
    have "send_pack sz head chksum src (iov_len data) w = Inl UB" if "pkt_data_size sz < iov_len data" for sz head chksum
      using that by (simp add: send_pack_def)
    then show ?thesis using 3 virt d packet_shift_sizes(1) [OF 3(2)] by (auto simp: eob_device_send_def)
  next
    case 4
    have "\<not> 2 ^ v < length src" using 4(2) by (simp add: pkt_data_size_def)
    moreover from send_ok [OF b 4(1) c a d(1), of crc dst] 4(2) d(2) obtain w' where
      "eob_device_send crc dev data dst w = Inr (EOB_OK, w')"
      "w_disk w' = overlay (node_off v (hw_node_id dst)) (packet_bytes (mk_packet crc (2 ^ v) (d_addr dev) src)) (w_disk w)"
      by auto
    ultimately show ?thesis using 4 by auto
  qed
qed

theorem send_outcomes_witness:
  "eob_device_send demo_crc (demo_device 1) (msg_vec (replicate 513 65)) (demo_addr 7) demo_cluster_world =
     Inr (EOB_2BIG, demo_cluster_world) \<and>
   eob_device_send demo_crc (demo_device 1) (msg_vec (replicate 500 65)) (demo_addr 7) demo_cluster_world = Inl UB"
  using send_outcomes [OF demo_blocks demo_calm(1), of 1 "msg_vec (replicate 513 65)" "replicate 513 65" demo_crc "demo_addr 7"]
    send_outcomes [OF demo_blocks demo_calm(1), of 1 "msg_vec (replicate 500 65)" "replicate 500 65" demo_crc "demo_addr 7"]
  by (auto simp: msg_vec_def packet_shift_def pkt_data_size_def layout_simps)

text \<open>
  C9. What each content of the node's block does to the process that receives it. A recorded
  length of 0 (a block that was never written) and one of a megabyte or more abort it; a length
  over the data array and below a megabyte makes it read behind the packet; a wrong checksum is
  reported as \<open>EOB_CHKSUM\<close> without a message; everything else is delivered.
\<close>

theorem recv_outcomes:
  assumes b: "blocks dev k v" "packet_shift v" and c: "calm w"
    and len: "node_off v (hw_node_id (d_addr dev)) + 2 ^ v \<le> length (w_disk w)"
    and p: "p = packet_of_bytes (2 ^ v) (node_block v (hw_node_id (d_addr dev)) (w_disk w))"
    and n: "n = unat (ph_data_len (pk_head p))" and m: "msg = take n (pk_data p)"
  shows "\<exists>w'. w_disk w' = w_disk w \<and> eob_device_recv crc dev w =
    (if n = 0 \<or> EOB_MAX_VIRT_BLK_SIZE \<le> n then Inl Abort
     else if pkt_data_size (2 ^ v) < n then Inl UB
     else if eob_chcksum_calc crc msg \<noteq> pk_chksum p then Inr (EOB_CHKSUM, None, w')
     else Inr (EOB_OK, Some (msg_vec msg, ph_src_addr (pk_head p)), w'))"
proof -
  let ?blk = "node_block v (hw_node_id (d_addr dev)) (w_disk w)"
  note sz = packet_shift_sizes [OF b(2)] and virt = blocks_virt [OF b(1)]
  obtain w1 where r: "eob_device_recv_raw dev w = Inr (0, \<lparr>iov_base = Some ?blk, iov_len = 2 ^ v\<rparr>, w1)"
    and w1: "same_io w w1"
    using b(1) c len by (rule recv_raw_ok)
  have lb: "length ?blk = 2 ^ v" using len by (simp add: node_block_def)
  have fail: "eob_device_recv crc dev w = Inl f"
    if "recv_unpack (2 ^ v) \<lparr>iov_base = Some ?blk, iov_len = 2 ^ v\<rparr> w1 = Inl f" for f
    using sz(1) r that virt by (auto simp: eob_device_recv_def Let_def)
  consider (empty) "n = 0" | (long) "pkt_data_size (2 ^ v) < n" | (ok) "0 < n" "n \<le> pkt_data_size (2 ^ v)" by linarith
  then show ?thesis
  proof cases
    case empty
    have "eob_device_recv crc dev w = Inl Abort"
      by (rule fail [OF recv_unpack_empty [OF lb sz(2)]]) (use empty n p in simp)
    with empty show ?thesis by auto
  next
    case long
    have "eob_device_recv crc dev w = Inl (if n < EOB_MAX_VIRT_BLK_SIZE then UB else Abort)"
      by (rule fail) (use recv_unpack_long [OF lb sz(2,3) _ long, of w1] n p in simp)
    with long show ?thesis by auto
  next
    case ok
    let ?m = "if eob_chcksum_calc crc msg \<noteq> pk_chksum p then Inl EOB_CHKSUM
      else Inr (msg, ph_src_addr (pk_head p))"
    have pm: "packet_mail crc (2 ^ v) ?blk = Some ?m"
      using ok n m by (simp add: packet_mail_def Let_def flip: p)
    have "n < EOB_MAX_VIRT_BLK_SIZE" using ok sz(3) by (simp add: pkt_data_size_def)
    moreover obtain w' where "same_io w w'" "eob_device_recv crc dev w = (case ?m of
      Inl e \<Rightarrow> Inr (e, None, w')
    | Inr (msg, src) \<Rightarrow> Inr (EOB_OK, Some (\<lparr>iov_base = Some msg, iov_len = length msg\<rparr>, src), w'))"
      by (rule recv_ok [OF b c len pm])
    ultimately show ?thesis
      using ok same_ioD(2) by (intro exI [of _ w']) (simp add: msg_vec_def)
  qed
qed

theorem recv_outcomes_witness:
  "eob_device_recv demo_crc (demo_device 7) demo_cluster_world = Inl Abort"
proof -
  let ?blk = "node_block 9 7 (w_disk demo_cluster_world)"
  have h: "length (header_bytes demo_header) = 512"
    using demo_fits header.length_enc [of demo_header] by (simp add: fd_fits_def layout_simps)
  have blk: "?blk = replicate 512 0"
    by (simp add: node_block_def node_off_def demo_cluster_world_def bslice_def h layout_simps)
  have n: "unat (ph_data_len (pk_head (packet_of_bytes 512 ?blk))) = 0"
    by (simp add: blk packet_of_bytes_def packet_head_of_bytes_def bslice_def un_le64_def)
  show ?thesis
    using recv_outcomes [OF demo_blocks _ demo_calm(1), of 7 "packet_of_bytes 512 ?blk" 0 _ demo_crc] n
    by (simp add: packet_shift_def demo_cluster_length node_off_def layout_simps)
qed

text \<open>
  Strings: what \<open>eob_device_send_str\<close> sends of a C string up to its first zero byte,
  \<open>eob_device_recv_str\<close> at the addressed node returns with the zero byte and the sender.
\<close>

lemma str_roundtrip:
  assumes "cluster devs k v w" and "0 \<notin> set t" and "Suc (length t) \<le> pkt_data_size (2 ^ v)"
  shows "\<exists>w1 w2. eob_device_send_str crc (devs s) (t @ 0 # rest) (d_addr (devs d)) w = Inr (EOB_OK, w1) \<and>
    eob_device_recv_str crc (devs d) w1 = Inr (EOB_OK, Some (Some (t @ [0]), d_addr (devs s)), w2)"
proof -
  let ?data = "\<lparr>iov_base = Some (t @ 0 # rest), iov_len = length t + 1\<rparr>"
  obtain w1 where w1: "eob_device_send crc (devs s) ?data (d_addr (devs d)) w = Inr (EOB_OK, w1)"
    "cluster devs k v w1" "mailbox crc v w1 = (mailbox crc v w)(d := Some (t @ [0], d_addr (devs s)))"
    using cluster_send [OF assms(1), of ?data "t @ 0 # rest" crc s d] assms(3) by auto
  obtain w2 where "eob_device_recv crc (devs d) w1 = Inr (EOB_OK, Some (msg_vec (t @ [0]), d_addr (devs s)), w2)"
    using dev_mail.rcv_box [OF w1(2), of crc d "t @ [0]"] w1(3) by auto
  then show ?thesis
    using w1(1) assms(2) by (simp add: eob_device_send_str_def eob_device_recv_str_def c_strlen_ok msg_vec_def)
qed

text \<open>
  C18. \<open>eob_device_recv_str\<close> relies on the sender: of the messages \<open>eob_device_recv\<close> delivers it
  returns those whose only zero byte is the last one; one without a zero byte is read past its
  end, and one with an earlier zero byte aborts the process.
\<close>

theorem recv_str_outcomes:
  assumes "eob_device_recv crc dev w = Inr (EOB_OK, Some (msg_vec msg, src), w')" and "msg \<noteq> []"
  shows "eob_device_recv_str crc dev w =
    (if 0 \<notin> set msg then Inl UB else if 0 \<in> set (butlast msg) then Inl Abort
     else Inr (EOB_OK, Some (Some msg, src), w'))"
proof (cases "0 \<in> set msg")
  case False
  then show ?thesis
    using assms by (simp add: eob_device_recv_str_def msg_vec_def c_strlen_unterminated)
next
  case True
  then obtain t r where m: "msg = t @ 0 # r" "0 \<notin> set t" using split_list_first by metis
  then have "0 \<in> set (butlast msg) \<longleftrightarrow> r \<noteq> []" by (auto simp: butlast_append)
  then show ?thesis
    using True assms(1) m(2) unfolding m(1)
    by (cases r) (simp_all add: eob_device_recv_str_def msg_vec_def c_strlen_ok)
qed

theorem recv_str_outcomes_witness:
  "\<exists>w. eob_device_recv_str demo_crc (demo_device 7) w = Inl UB"
proof -
  obtain w1 w2 where
    r: "eob_device_recv demo_crc (demo_device 7) w1 = Inr (EOB_OK, Some (msg_vec [72, 105], demo_addr 1), w2)"
    using demo_received by blast
  show ?thesis using recv_str_outcomes [OF r] by auto
qed

end
