(* ===== verification/Avl_Node.thy ===== *)
theory Avl_Node
  imports Eob_Errors
begin

text \<open>
  Nodes of the AVL trees (\<open>src/include/sys/avl_impl.h\<close>): two child pointers and a word that
  packs the parent pointer, the index of the node in its parent and the balance. A pointer is
  a 64-bit word with 0 for \<open>NULL\<close>; a child index 0 or 1 is a \<open>bool\<close> (\<open>True\<close> is 1). What the
  accessor macros promise is the locale \<open>avl_fields\<close>, with the packed and the unpacked layout of
  the source as interpretations.
\<close>

unbundle bit_operations_syntax

type_synonym addr = u64

record avl_node =
  avl_child0 :: addr
  avl_child1 :: addr
  avl_pcb :: u64

definition avl_child :: "avl_node \<Rightarrow> bool \<Rightarrow> addr" where
  "avl_child n c = (if c then avl_child1 n else avl_child0 n)"

definition set_avl_child :: "bool \<Rightarrow> addr \<Rightarrow> avl_node \<Rightarrow> avl_node" where
  "set_avl_child c v n = (if c then n\<lparr>avl_child1 := v\<rparr> else n\<lparr>avl_child0 := v\<rparr>)"

section \<open>Accessor macros\<close>

definition AVL_XPARENT :: "avl_node \<Rightarrow> addr" where
  "AVL_XPARENT n = avl_pcb n AND NOT 7"

definition AVL_SETPARENT :: "addr \<Rightarrow> avl_node \<Rightarrow> avl_node" where
  "AVL_SETPARENT p n = n\<lparr>avl_pcb := (avl_pcb n AND 7) OR p\<rparr>"

definition AVL_XCHILD :: "avl_node \<Rightarrow> bool" where
  "AVL_XCHILD n \<longleftrightarrow> drop_bit 2 (avl_pcb n) AND 1 = 1"

definition AVL_SETCHILD :: "bool \<Rightarrow> avl_node \<Rightarrow> avl_node" where
  "AVL_SETCHILD c n = n\<lparr>avl_pcb := (avl_pcb n AND NOT 4) OR push_bit 2 (of_bool c)\<rparr>"

text \<open>The subtraction is one of 64 bits, of which the conversion to \<open>int\<close> keeps the lower half.\<close>

definition AVL_XBALANCE :: "avl_node \<Rightarrow> int" where
  "AVL_XBALANCE n = sint (ucast ((avl_pcb n AND 3) - 1) :: u32)"

definition AVL_SETBALANCE :: "int \<Rightarrow> avl_node \<Rightarrow> avl_node" where
  "AVL_SETBALANCE b n = n\<lparr>avl_pcb := (avl_pcb n AND NOT 3) OR word_of_int (b + 1)\<rparr>"

text \<open>The layout for machines whose pointers have 32 bits: three separate fields.\<close>

record avl_node_ilp32 =
  avl32_child0 :: u32
  avl32_child1 :: u32
  avl_parent :: u32
  avl_child_index :: "16 word"
  avl_balance :: "16 word"

definition AVL_XPARENT_32 :: "avl_node_ilp32 \<Rightarrow> u32" where
  "AVL_XPARENT_32 n = avl_parent n"

definition AVL_SETPARENT_32 :: "u32 \<Rightarrow> avl_node_ilp32 \<Rightarrow> avl_node_ilp32" where
  "AVL_SETPARENT_32 p n = n\<lparr>avl_parent := p\<rparr>"

definition AVL_XCHILD_32 :: "avl_node_ilp32 \<Rightarrow> bool" where
  "AVL_XCHILD_32 n \<longleftrightarrow> avl_child_index n = 1"

definition AVL_SETCHILD_32 :: "bool \<Rightarrow> avl_node_ilp32 \<Rightarrow> avl_node_ilp32" where
  "AVL_SETCHILD_32 c n = n\<lparr>avl_child_index := of_bool c\<rparr>"

definition AVL_XBALANCE_32 :: "avl_node_ilp32 \<Rightarrow> int" where
  "AVL_XBALANCE_32 n = sint (avl_balance n)"

definition AVL_SETBALANCE_32 :: "int \<Rightarrow> avl_node_ilp32 \<Rightarrow> avl_node_ilp32" where
  "AVL_SETBALANCE_32 b n = n\<lparr>avl_balance := word_of_int b\<rparr>"

text \<open>Data and node pointers, and the insertion cookies.\<close>

definition AVL_NODE2DATA :: "addr \<Rightarrow> u64 \<Rightarrow> addr" where
  "AVL_NODE2DATA n off = n - off"

definition AVL_DATA2NODE :: "addr \<Rightarrow> u64 \<Rightarrow> addr" where
  "AVL_DATA2NODE d off = d + off"

definition AVL_INDEX2NODE :: "u64 \<Rightarrow> addr" where
  "AVL_INDEX2NODE x = x AND NOT 1"

definition AVL_INDEX2CHILD :: "u64 \<Rightarrow> bool" where
  "AVL_INDEX2CHILD x \<longleftrightarrow> x AND 1 = 1"

definition AVL_MKINDEX :: "addr \<Rightarrow> bool \<Rightarrow> u64" where
  "AVL_MKINDEX n c = n OR of_bool c"

text \<open>The two child pointers of that layout.\<close>

definition children_32 :: "avl_node_ilp32 \<Rightarrow> u32 \<times> u32" where
  "children_32 n = (avl32_child0 n, avl32_child1 n)"

section \<open>What the accessors promise\<close>

definition bal_ok :: "int \<Rightarrow> bool" where
  "bal_ok b \<longleftrightarrow> b \<in> {-1, 0, 1}"

locale avl_fields =
  fixes ptr_ok :: "'p \<Rightarrow> bool"
    and parent :: "'n \<Rightarrow> 'p" and set_parent :: "'p \<Rightarrow> 'n \<Rightarrow> 'n"
    and which :: "'n \<Rightarrow> bool" and set_which :: "bool \<Rightarrow> 'n \<Rightarrow> 'n"
    and bal :: "'n \<Rightarrow> int" and set_bal :: "int \<Rightarrow> 'n \<Rightarrow> 'n"
  assumes parent_set_parent: "ptr_ok p \<Longrightarrow> parent (set_parent p n) = p"
    and which_set_parent: "ptr_ok p \<Longrightarrow> which (set_parent p n) = which n"
    and bal_set_parent: "ptr_ok p \<Longrightarrow> bal (set_parent p n) = bal n"
    and parent_set_which: "parent (set_which c n) = parent n"
    and which_set_which: "which (set_which c n) = c"
    and bal_set_which: "bal (set_which c n) = bal n"
    and parent_set_bal: "bal_ok b \<Longrightarrow> parent (set_bal b n) = parent n"
    and which_set_bal: "bal_ok b \<Longrightarrow> which (set_bal b n) = which n"
    and bal_set_bal: "bal_ok b \<Longrightarrow> bal (set_bal b n) = b"
begin

lemmas field_simps = parent_set_parent which_set_parent bal_set_parent parent_set_which
  which_set_which bal_set_which parent_set_bal which_set_bal bal_set_bal

text \<open>The order in which the three fields are set does not matter to a reader.\<close>

lemma set_all:
  assumes "ptr_ok p" and "bal_ok b"
  shows "parent (set_parent p (set_bal b (set_which c n))) = p"
    and "which (set_parent p (set_bal b (set_which c n))) = c"
    and "bal (set_parent p (set_bal b (set_which c n))) = b"
    and "parent (set_which c (set_bal b (set_parent p n))) = p"
    and "which (set_which c (set_bal b (set_parent p n))) = c"
    and "bal (set_which c (set_bal b (set_parent p n))) = b"
  using assms by (simp_all add: field_simps)

end

text \<open>A pointer whose three lowest bits are free.\<close>

definition aligned8 :: "addr \<Rightarrow> bool" where
  "aligned8 p \<longleftrightarrow> p AND 7 = 0"

lemma masks: "(7 :: u64) = mask 3" "(3 :: u64) = mask 2" "(1 :: u64) = mask 1"
  by (simp_all add: mask_eq_exp_minus_1)

lemma bit_four: "bit (4 :: u64) i \<longleftrightarrow> i = 2"
proof -
  have "(4 :: u64) = 2 ^ 2" by simp
  then show ?thesis by (simp only: bit_exp_iff) (auto simp: possible_bit_word)
qed

lemma bit_two: "bit (2 :: u64) i \<longleftrightarrow> i = 1"
proof -
  have "bit (2 ^ 1 :: u64) i \<longleftrightarrow> i = 1"
    by (simp only: bit_exp_iff) (auto simp: possible_bit_word)
  then show ?thesis by (simp only: power_one_right)
qed

lemma bit_three: "bit (3 :: u64) i \<longleftrightarrow> i = 0 \<or> i = 1"
  by (auto simp: masks(2) bit_mask_iff possible_bit_word)

lemma bit_small_int [simp]:
  "bit (2 :: int) i \<longleftrightarrow> i = 1" "bit (3 :: int) i \<longleftrightarrow> i = 0 \<or> i = 1" "bit (4 :: int) i \<longleftrightarrow> i = 2"
proof -
  have "bit (2 ^ n :: int) i \<longleftrightarrow> i = n" for n
    by (simp only: bit_exp_iff) (auto simp: possible_bit_def)
  from this [of 1] this [of 2] show "bit (2 :: int) i \<longleftrightarrow> i = 1" "bit (4 :: int) i \<longleftrightarrow> i = 2"
    by (simp_all only: power_one_right power2_eq_square) simp_all
  have "(3 :: int) = mask 2" by (simp add: mask_eq_exp_minus_1)
  then show "bit (3 :: int) i \<longleftrightarrow> i = 0 \<or> i = 1"
    by (simp only: bit_mask_iff) (auto simp: possible_bit_def)
qed

lemma aligned8_bit: "aligned8 p \<Longrightarrow> bit p i \<Longrightarrow> 3 \<le> i"
proof -
  assume "aligned8 p" and i: "bit p i"
  then have "\<not> bit (p AND mask 3) i" by (simp add: aligned8_def masks)
  then show ?thesis using i by (auto simp: bit_and_iff bit_mask_iff possible_bit_word dest: bit_imp_le_length)
qed

lemma aligned8_0 [simp]: "aligned8 0"
  by (simp add: aligned8_def)

lemma pcb_parent: "aligned8 p \<Longrightarrow> ((x AND 7) OR p) AND NOT 7 = p"
  by (rule bit_word_eqI) (auto simp: masks bit_simps dest: aligned8_bit)

lemma pcb_low: "aligned8 p \<Longrightarrow> i < 3 \<Longrightarrow> bit ((x AND 7) OR p) i = bit x i"
  by (auto simp: masks bit_simps dest: aligned8_bit)

lemma AVL_XCHILD_bit: "AVL_XCHILD n \<longleftrightarrow> bit (avl_pcb n) 2"
proof -
  have "drop_bit 2 (avl_pcb n) AND 1 = of_bool (bit (drop_bit 2 (avl_pcb n)) 0)"
    by (simp add: and_one_eq mod_2_eq_odd bit_0)
  then show ?thesis by (simp add: AVL_XCHILD_def bit_drop_bit_eq)
qed

lemma and3_eq: "(x :: u64) AND 3 = of_bool (bit x 0) + 2 * of_bool (bit x 1)"
proof -
  have "x AND 3 = of_bool (bit x 0) OR push_bit 1 (of_bool (bit x 1) :: u64)"
  proof (rule bit_word_eqI)
    fix i :: nat
    assume "i < LENGTH(64)"
    then show "bit (x AND 3) i = bit (of_bool (bit x 0) OR push_bit 1 (of_bool (bit x 1) :: u64)) i"
      by (cases "i = 0"; cases "i = 1")
        (auto simp: bit_and_iff bit_or_iff bit_three bit_push_bit_iff bit_of_bool_iff)
  qed
  also have "\<dots> = of_bool (bit x 0) + 2 * of_bool (bit x 1)"
    by (cases "bit x 0"; cases "bit x 1") simp_all
  finally show ?thesis .
qed

lemma AVL_XBALANCE_bits:
  "AVL_XBALANCE n = (if bit (avl_pcb n) 0 then 1 else 0) + (if bit (avl_pcb n) 1 then 2 else 0) - 1"
proof -
  have "(ucast (- 1 :: u64) :: u32) = - 1"
    by (rule bit_word_eqI) (simp add: bit_ucast_iff)
  then show ?thesis by (simp add: AVL_XBALANCE_def and3_eq)
qed

text \<open>The parent is in the bits above the lowest three.\<close>

lemma AVL_XPARENT_eqI: "(\<And>i. 3 \<le> i \<Longrightarrow> bit (avl_pcb m) i = bit (avl_pcb n) i) \<Longrightarrow> AVL_XPARENT m = AVL_XPARENT n"
  unfolding AVL_XPARENT_def by (rule bit_word_eqI) (auto simp: masks bit_simps)

lemma bit_insert_iff:
  "bit ((x AND NOT m) OR w :: u64) i \<longleftrightarrow> (bit x i \<and> \<not> bit m i) \<or> bit w i"
  by (auto simp: bit_and_iff bit_or_iff bit_not_iff possible_bit_word dest: bit_imp_le_length)

lemma setchild_bits:
  "bit (avl_pcb (AVL_SETCHILD c n)) i = (if i = 2 then c else bit (avl_pcb n) i)"
proof -
  have w: "bit (push_bit 2 (of_bool c :: u64)) i \<longleftrightarrow> i = 2 \<and> c"
    by (auto simp only: bit_push_bit_iff bit_of_bool_iff possible_bit_word) auto
  have "avl_pcb (AVL_SETCHILD c n) = (avl_pcb n AND NOT 4) OR push_bit 2 (of_bool c)"
    by (simp add: AVL_SETCHILD_def)
  then show ?thesis
    by (simp only: bit_insert_iff bit_four w) auto
qed

lemma setbalance_bits:
  assumes "bal_ok b"
  shows "bit (avl_pcb (AVL_SETBALANCE b n)) i =
    (if i = 0 then b = 0 else if i = 1 then b = 1 else bit (avl_pcb n) i)"
proof -
  have w: "bit (word_of_int (b + 1) :: u64) i \<longleftrightarrow> (i = 0 \<and> b = 0) \<or> (i = 1 \<and> b = 1)"
    using assms by (auto simp: bal_ok_def bit_1_iff bit_two)
  have "avl_pcb (AVL_SETBALANCE b n) = (avl_pcb n AND NOT 3) OR word_of_int (b + 1)"
    by (simp add: AVL_SETBALANCE_def)
  then show ?thesis
    by (simp only: bit_insert_iff bit_three w) auto
qed

lemma setparent_low: "aligned8 p \<Longrightarrow> i < 3 \<Longrightarrow> bit (avl_pcb (AVL_SETPARENT p n)) i = bit (avl_pcb n) i"
  by (simp add: AVL_SETPARENT_def pcb_low)

interpretation pcb: avl_fields aligned8 AVL_XPARENT AVL_SETPARENT AVL_XCHILD AVL_SETCHILD
    AVL_XBALANCE AVL_SETBALANCE
proof
  fix p n c b
  assume p: "aligned8 p"
  show "AVL_XPARENT (AVL_SETPARENT p n) = p"
    using pcb_parent [OF p, of "avl_pcb n"] by (simp add: AVL_XPARENT_def AVL_SETPARENT_def)
  show "AVL_XCHILD (AVL_SETPARENT p n) = AVL_XCHILD n"
    using p by (simp add: AVL_XCHILD_bit setparent_low)
  show "AVL_XBALANCE (AVL_SETPARENT p n) = AVL_XBALANCE n"
    using p by (simp add: AVL_XBALANCE_bits setparent_low)
next
  fix c n
  show "AVL_XPARENT (AVL_SETCHILD c n) = AVL_XPARENT n"
    by (rule AVL_XPARENT_eqI) (simp add: setchild_bits)
  show "AVL_XCHILD (AVL_SETCHILD c n) = c"
    by (simp add: AVL_XCHILD_bit setchild_bits)
  show "AVL_XBALANCE (AVL_SETCHILD c n) = AVL_XBALANCE n"
    by (simp add: AVL_XBALANCE_bits setchild_bits)
next
  fix b n
  assume b: "bal_ok b"
  show "AVL_XPARENT (AVL_SETBALANCE b n) = AVL_XPARENT n"
    by (rule AVL_XPARENT_eqI) (simp add: setbalance_bits [OF b])
  show "AVL_XCHILD (AVL_SETBALANCE b n) = AVL_XCHILD n"
    by (simp add: AVL_XCHILD_bit setbalance_bits [OF b])
  show "AVL_XBALANCE (AVL_SETBALANCE b n) = b"
    using b by (auto simp: AVL_XBALANCE_bits setbalance_bits [OF b] bal_ok_def)
qed

interpretation ilp32: avl_fields "\<lambda>_. True" AVL_XPARENT_32 AVL_SETPARENT_32 AVL_XCHILD_32 AVL_SETCHILD_32
    AVL_XBALANCE_32 AVL_SETBALANCE_32
  by unfold_locales (auto simp: AVL_XPARENT_32_def AVL_SETPARENT_32_def AVL_XCHILD_32_def
      AVL_SETCHILD_32_def AVL_XBALANCE_32_def AVL_SETBALANCE_32_def bal_ok_def)

lemma avl_child_set [simp]:
  "avl_child (set_avl_child c v n) d = (if d = c then v else avl_child n d)"
  "AVL_XPARENT (set_avl_child c v n) = AVL_XPARENT n"
  "AVL_XCHILD (set_avl_child c v n) = AVL_XCHILD n"
  "AVL_XBALANCE (set_avl_child c v n) = AVL_XBALANCE n"
  "avl_child (AVL_SETPARENT p n) d = avl_child n d"
  "avl_child (AVL_SETCHILD e n) d = avl_child n d"
  "avl_child (AVL_SETBALANCE b n) d = avl_child n d"
  by (auto simp: avl_child_def set_avl_child_def AVL_XPARENT_def AVL_XCHILD_def AVL_XBALANCE_def
      AVL_SETPARENT_def AVL_SETCHILD_def AVL_SETBALANCE_def)

text \<open>Cookies carry an aligned pointer and a bit.\<close>

lemma AVL_INDEX_MK [simp]:
  assumes "aligned8 n"
  shows "AVL_INDEX2NODE (AVL_MKINDEX n c) = n" and "AVL_INDEX2CHILD (AVL_MKINDEX n c) = c"
proof -
  have low: "\<not> bit n 0" using aligned8_bit [OF assms, of 0] by auto
  show "AVL_INDEX2NODE (AVL_MKINDEX n c) = n"
    unfolding AVL_INDEX2NODE_def AVL_MKINDEX_def
    by (rule bit_word_eqI) (use low in \<open>auto simp: bit_simps bit_1_iff intro: gr0I\<close>)
  have "(n OR of_bool c) AND 1 = of_bool (bit (n OR of_bool c) 0)"
    by (simp add: and_one_eq mod_2_eq_odd bit_0)
  then show "AVL_INDEX2CHILD (AVL_MKINDEX n c) = c"
    using low by (simp add: AVL_INDEX2CHILD_def AVL_MKINDEX_def bit_or_iff)
qed

lemma AVL_INDEX_0 [simp]: "AVL_INDEX2NODE 0 = 0" "AVL_INDEX2CHILD 0 = False"
  by (simp_all add: AVL_INDEX2NODE_def AVL_INDEX2CHILD_def)

lemma data_node [simp]: "AVL_DATA2NODE (AVL_NODE2DATA n off) off = n" "AVL_NODE2DATA (AVL_DATA2NODE d off) off = d"
  by (simp_all add: AVL_NODE2DATA_def AVL_DATA2NODE_def)

end
