(* ===== verification/Avl.thy ===== *)
theory Avl
  imports Avl_Node
begin

text \<open>
  The operations of \<open>src/lib/libavl/avl.c\<close> on a heap of nodes, with assertions on as in a build
  without \<open>NDEBUG\<close>. A heap maps the addresses of the \<open>avl_node_t\<close>s that are allocated; reading or
  writing any other address is undefined. A loop over pointers is a \<open>partial_function\<close>: on a
  heap with a cycle it may not return, which is the value \<open>None\<close>.
\<close>

type_synonym heap = "addr \<rightharpoonup> avl_node"

text \<open>
  \<open>avl_compar\<close> is a code address. What a call of it returns on two data pointers is the
  argument \<open>call\<close> of the operations that compare.
\<close>

record avl_tree =
  avl_root :: addr
  avl_compar :: addr
  avl_offset :: u64
  avl_numnodes :: u64
  avl_size :: u64

type_synonym compar_env = "addr \<Rightarrow> addr \<Rightarrow> addr \<Rightarrow> int"

text \<open>Sequencing of steps that may fail or not return.\<close>

definition obind :: "(fault + 'a) option \<Rightarrow> ('a \<Rightarrow> (fault + 'b) option) \<Rightarrow> (fault + 'b) option" where
  "obind m k = (case m of None \<Rightarrow> None | Some (Inl e) \<Rightarrow> Some (Inl e) | Some (Inr x) \<Rightarrow> k x)"

lemma obind_simps [simp]:
  "obind None k = None" "obind (Some (Inl e)) k = Some (Inl e)" "obind (Some (Inr x)) k = k x"
  by (simp_all add: obind_def)

lemma obind_guard [simp]:
  "c \<Longrightarrow> obind (Some (guard f c)) k = k ()" "\<not> c \<Longrightarrow> obind (Some (guard f c)) k = Some (Inl f)"
  by simp_all

definition ld :: "heap \<Rightarrow> addr \<Rightarrow> fault + avl_node" where
  "ld h a = (case h a of None \<Rightarrow> Inl UB | Some n \<Rightarrow> Inr n)"

definition upd :: "(avl_node \<Rightarrow> avl_node) \<Rightarrow> addr \<Rightarrow> heap \<Rightarrow> fault + heap" where
  "upd f a h = bindr (ld h a) (\<lambda>n. Inr (h(a \<mapsto> f n)))"

definition avl_child2balance :: "bool \<Rightarrow> int" where
  "avl_child2balance c = (if c then 1 else - 1)"

definition avl_balance2child :: "int \<Rightarrow> fault + bool" where
  "avl_balance2child i = (if i = 0 \<or> i = 1 then Inr False else if i = 2 then Inr True else Inl UB)"

text \<open>An \<open>int\<close> used as an index of the two children.\<close>

definition child_ix :: "int \<Rightarrow> fault + bool" where
  "child_ix i = (if i = 0 then Inr False else if i = 1 then Inr True else Inl UB)"

section \<open>Walking\<close>

text \<open>Down in one direction as far as possible.\<close>

partial_function (option) walk_down :: "heap \<Rightarrow> bool \<Rightarrow> addr \<Rightarrow> (fault + addr) option" where
  "walk_down h d node =
     (case ld h node of Inl e \<Rightarrow> Some (Inl e)
      | Inr n \<Rightarrow> if avl_child n d = 0 then Some (Inr node) else walk_down h d (avl_child n d))"

text \<open>Up until the node come from was a \<open>right\<close> child; 0 behind the root.\<close>

partial_function (option) walk_up :: "heap \<Rightarrow> bool \<Rightarrow> addr \<Rightarrow> (fault + addr) option" where
  "walk_up h right node =
     (case ld h node of Inl e \<Rightarrow> Some (Inl e)
      | Inr n \<Rightarrow>
          if AVL_XPARENT n = 0 then Some (Inr 0)
          else if AVL_XCHILD n = right then Some (Inr (AVL_XPARENT n))
          else walk_up h right (AVL_XPARENT n))"

definition avl_walk :: "heap \<Rightarrow> avl_tree \<Rightarrow> addr \<Rightarrow> int \<Rightarrow> (fault + addr) option" where
  "avl_walk h tree oldnode left =
     (let off = avl_offset tree; node = AVL_DATA2NODE oldnode off in
      if node = 0 then Some (Inr 0)
      else
        obind (Some (child_ix left)) (\<lambda>left.
        obind (Some (ld h node)) (\<lambda>n.
        obind (if avl_child n left \<noteq> 0 then walk_down h (\<not> left) (avl_child n left)
               else walk_up h (\<not> left) node) (\<lambda>node.
        Some (Inr (if node = 0 then 0 else AVL_NODE2DATA node off))))))"

text \<open>The loop of \<open>avl_first\<close> and \<open>avl_last\<close>.\<close>

partial_function (option) edge_loop :: "heap \<Rightarrow> bool \<Rightarrow> addr \<Rightarrow> addr \<Rightarrow> (fault + addr) option" where
  "edge_loop h d node prev =
     (if node = 0 then Some (Inr prev)
      else case ld h node of Inl e \<Rightarrow> Some (Inl e) | Inr n \<Rightarrow> edge_loop h d (avl_child n d) node)"

definition avl_first :: "heap \<Rightarrow> avl_tree \<Rightarrow> (fault + addr) option" where
  "avl_first h tree =
     obind (edge_loop h False (avl_root tree) 0) (\<lambda>prev.
     Some (Inr (if prev \<noteq> 0 then AVL_NODE2DATA prev (avl_offset tree) else 0)))"

definition avl_last :: "heap \<Rightarrow> avl_tree \<Rightarrow> (fault + addr) option" where
  "avl_last h tree =
     obind (edge_loop h True (avl_root tree) 0) (\<lambda>prev.
     Some (Inr (if prev \<noteq> 0 then AVL_NODE2DATA prev (avl_offset tree) else 0)))"

definition avl_nearest :: "heap \<Rightarrow> avl_tree \<Rightarrow> u64 \<Rightarrow> int \<Rightarrow> (fault + addr) option" where
  "avl_nearest h tree where direction =
     (let child = AVL_INDEX2CHILD where; node = AVL_INDEX2NODE where; off = avl_offset tree in
      if node = 0 then obind (Some (verify (avl_root tree = 0))) (\<lambda>_. Some (Inr 0))
      else
        let data = AVL_NODE2DATA node off in
        if of_bool child \<noteq> direction then Some (Inr data) else avl_walk h tree data direction)"

section \<open>Searching\<close>

text \<open>The result is the data found and, when none is, the cookie written to \<open>*where\<close>.\<close>

partial_function (option) find_loop ::
    "compar_env \<Rightarrow> heap \<Rightarrow> avl_tree \<Rightarrow> addr \<Rightarrow> addr \<Rightarrow> addr \<Rightarrow> bool \<Rightarrow> (fault + addr \<times> u64 option) option" where
  "find_loop call h tree value node prev child =
     (if node = 0 then Some (Inr (0, Some (AVL_MKINDEX prev child)))
      else
        let data = AVL_NODE2DATA node (avl_offset tree); diff = call (avl_compar tree) value data in
        if \<not> (- 1 \<le> diff \<and> diff \<le> 1) then Some (Inl Abort)
        else if diff = 0 then Some (Inr (data, None))
        else
          case avl_balance2child (1 + diff) of Inl e \<Rightarrow> Some (Inl e)
          | Inr child \<Rightarrow>
              (case ld h node of Inl e \<Rightarrow> Some (Inl e)
               | Inr n \<Rightarrow> find_loop call h tree value (avl_child n child) node child))"

definition avl_find ::
    "compar_env \<Rightarrow> heap \<Rightarrow> avl_tree \<Rightarrow> addr \<Rightarrow> (fault + addr \<times> u64 option) option" where
  "avl_find call h tree value = find_loop call h tree value (avl_root tree) 0 False"

section \<open>Rotation\<close>

text \<open>\<open>if (x != NULL) { AVL_SETPARENT(x, p); AVL_SETCHILD(x, c); }\<close>\<close>

definition relink :: "addr \<Rightarrow> addr \<Rightarrow> bool \<Rightarrow> heap \<Rightarrow> fault + heap" where
  "relink x p c h =
     (if x \<noteq> 0 then bindr (upd (AVL_SETPARENT p) x h) (\<lambda>h. upd (AVL_SETCHILD c) x h) else Inr h)"

text \<open>The pointer into a subtree: a child pointer of the parent or the root of the tree.\<close>

definition set_link :: "addr \<Rightarrow> bool \<Rightarrow> addr \<Rightarrow> heap \<Rightarrow> avl_tree \<Rightarrow> fault + heap \<times> avl_tree" where
  "set_link parent which_child x h tree =
     (if parent \<noteq> 0 then bindr (upd (set_avl_child which_child x) parent h) (\<lambda>h. Inr (h, tree))
      else Inr (h, tree\<lparr>avl_root := x\<rparr>))"

definition avl_rotation :: "heap \<Rightarrow> avl_tree \<Rightarrow> addr \<Rightarrow> int \<Rightarrow> fault + bool \<times> heap \<times> avl_tree" where
  "avl_rotation h tree node balance =
     (let left = (\<not> balance < 0); right = (\<not> left);
          left_heavy = balance div 2; right_heavy = - left_heavy in
      bindr (ld h node) (\<lambda>n.
      let parent = AVL_XPARENT n; child = avl_child n left; which_child = AVL_XCHILD n in
      bindr (ld h child) (\<lambda>cn.
      let child_bal = AVL_XBALANCE cn in
      if child_bal \<noteq> right_heavy then
        let child_bal = child_bal + right_heavy; cright = avl_child cn right in
        bindr (upd (set_avl_child left cright) node h) (\<lambda>h.
        bindr (relink cright node left h) (\<lambda>h.
        bindr (upd (set_avl_child right node) child h) (\<lambda>h.
        bindr (upd (AVL_SETBALANCE (- child_bal)) node h) (\<lambda>h.
        bindr (upd (AVL_SETCHILD right) node h) (\<lambda>h.
        bindr (upd (AVL_SETPARENT child) node h) (\<lambda>h.
        bindr (upd (AVL_SETBALANCE child_bal) child h) (\<lambda>h.
        bindr (upd (AVL_SETCHILD which_child) child h) (\<lambda>h.
        bindr (upd (AVL_SETPARENT parent) child h) (\<lambda>h.
        bindr (set_link parent which_child child h tree) (\<lambda>(h, tree).
        Inr (child_bal = 0, h, tree)))))))))))
      else
        let gchild = avl_child cn right in
        bindr (ld h gchild) (\<lambda>gn.
        let gleft = avl_child gn left; gright = avl_child gn right in
        bindr (upd (set_avl_child left gright) node h) (\<lambda>h.
        bindr (relink gright node left h) (\<lambda>h.
        bindr (upd (set_avl_child right gleft) child h) (\<lambda>h.
        bindr (relink gleft child right h) (\<lambda>h.
        bindr (ld h gchild) (\<lambda>gn.
        let balance = AVL_XBALANCE gn in
        bindr (upd (set_avl_child left child) gchild h) (\<lambda>h.
        bindr (upd (AVL_SETBALANCE (if balance = right_heavy then left_heavy else 0)) child h) (\<lambda>h.
        bindr (upd (AVL_SETPARENT gchild) child h) (\<lambda>h.
        bindr (upd (AVL_SETCHILD left) child h) (\<lambda>h.
        bindr (upd (set_avl_child right node) gchild h) (\<lambda>h.
        bindr (upd (AVL_SETBALANCE (if balance = left_heavy then right_heavy else 0)) node h) (\<lambda>h.
        bindr (upd (AVL_SETPARENT gchild) node h) (\<lambda>h.
        bindr (upd (AVL_SETCHILD right) node h) (\<lambda>h.
        bindr (upd (AVL_SETBALANCE 0) gchild h) (\<lambda>h.
        bindr (upd (AVL_SETPARENT parent) gchild h) (\<lambda>h.
        bindr (upd (AVL_SETCHILD which_child) gchild h) (\<lambda>h.
        bindr (set_link parent which_child gchild h tree) (\<lambda>(h, tree).
        Inr (True, h, tree))))))))))))))))))))))"

section \<open>Insertion\<close>

text \<open>The loop that backs up the tree, from the parent of the node that grew.\<close>

partial_function (option) insert_up ::
    "heap \<Rightarrow> avl_tree \<Rightarrow> addr \<Rightarrow> bool \<Rightarrow> (fault + heap \<times> avl_tree) option" where
  "insert_up h tree parent which_child =
     (if parent = 0 then Some (Inr (h, tree))
      else
        case ld h parent of Inl e \<Rightarrow> Some (Inl e)
        | Inr n \<Rightarrow>
            let old_balance = AVL_XBALANCE n;
                new_balance = old_balance + avl_child2balance which_child in
            if new_balance = 0 then Some (Inr (h(parent \<mapsto> AVL_SETBALANCE 0 n), tree))
            else if old_balance \<noteq> 0 then
              (case avl_rotation h tree parent new_balance of Inl e \<Rightarrow> Some (Inl e)
               | Inr (_, h, tree) \<Rightarrow> Some (Inr (h, tree)))
            else
              let n = AVL_SETBALANCE new_balance n in
              insert_up (h(parent \<mapsto> n)) tree (AVL_XPARENT n) (AVL_XCHILD n))"

definition avl_insert ::
    "heap \<Rightarrow> avl_tree \<Rightarrow> addr \<Rightarrow> u64 \<Rightarrow> (fault + heap \<times> avl_tree) option" where
  "avl_insert h tree new_data where =
     (let parent = AVL_INDEX2NODE where; which_child = AVL_INDEX2CHILD where; off = avl_offset tree in
      obind (Some (verify (new_data AND 7 = 0))) (\<lambda>_.
      let node = AVL_DATA2NODE new_data off; tree = tree\<lparr>avl_numnodes := avl_numnodes tree + 1\<rparr> in
      obind (Some (upd (set_avl_child False 0) node h)) (\<lambda>h.
      obind (Some (upd (set_avl_child True 0) node h)) (\<lambda>h.
      obind (Some (upd (AVL_SETCHILD which_child) node h)) (\<lambda>h.
      obind (Some (upd (AVL_SETBALANCE 0) node h)) (\<lambda>h.
      obind (Some (upd (AVL_SETPARENT parent) node h)) (\<lambda>h.
      obind (Some
        (if parent \<noteq> 0 then
           bindr (ld h parent) (\<lambda>p.
           bindr (verify (avl_child p which_child = 0)) (\<lambda>_.
           Inr (h(parent \<mapsto> set_avl_child which_child node p), tree)))
         else
           bindr (verify (avl_root tree = 0)) (\<lambda>_. Inr (h, tree\<lparr>avl_root := node\<rparr>)))) (\<lambda>(h, tree).
      insert_up h tree parent which_child))))))))"

definition avl_insert_here ::
    "heap \<Rightarrow> avl_tree \<Rightarrow> addr \<Rightarrow> addr \<Rightarrow> int \<Rightarrow> (fault + heap \<times> avl_tree) option" where
  "avl_insert_here h tree new_data here direction =
     obind (Some (verify (new_data \<noteq> 0))) (\<lambda>_.
     obind (Some (verify (here \<noteq> 0))) (\<lambda>_.
     obind (Some (verify (direction = 0 \<or> direction = 1))) (\<lambda>_.
     obind (Some (child_ix direction)) (\<lambda>child.
     let node = AVL_DATA2NODE here (avl_offset tree) in
     obind (Some (ld h node)) (\<lambda>n.
     obind (if avl_child n child \<noteq> 0 then
              obind (walk_down h (\<not> child) (avl_child n child)) (\<lambda>node. Some (Inr (node, \<not> child)))
            else Some (Inr (node, child))) (\<lambda>(node, child).
     obind (Some (ld h node)) (\<lambda>n.
     obind (Some (verify (avl_child n child = 0))) (\<lambda>_.
     avl_insert h tree new_data (AVL_MKINDEX node child)))))))))"

text \<open>Adding what is there already fails an assertion.\<close>

definition avl_add ::
    "compar_env \<Rightarrow> heap \<Rightarrow> avl_tree \<Rightarrow> addr \<Rightarrow> (fault + heap \<times> avl_tree) option" where
  "avl_add call h tree new_node =
     obind (avl_find call h tree new_node) (\<lambda>(found, where).
     obind (Some (verify (found = 0))) (\<lambda>_.
     avl_insert h tree new_node (case where of None \<Rightarrow> 0 | Some i \<Rightarrow> i)))"

section \<open>Removal\<close>

text \<open>The \<open>do\<close> loop that restores the balances from the parent of a subtree that became lower.\<close>

partial_function (option) remove_up ::
    "heap \<Rightarrow> avl_tree \<Rightarrow> addr \<Rightarrow> bool \<Rightarrow> (fault + heap \<times> avl_tree) option" where
  "remove_up h tree node which_child =
     (case ld h node of Inl e \<Rightarrow> Some (Inl e)
      | Inr n \<Rightarrow>
          let old_balance = AVL_XBALANCE n;
              new_balance = old_balance - avl_child2balance which_child;
              parent = AVL_XPARENT n; which_child = AVL_XCHILD n in
          if old_balance = 0 then Some (Inr (h(node \<mapsto> AVL_SETBALANCE new_balance n), tree))
          else if new_balance = 0 then
            let h = h(node \<mapsto> AVL_SETBALANCE new_balance n) in
            if parent \<noteq> 0 then remove_up h tree parent which_child else Some (Inr (h, tree))
          else
            (case avl_rotation h tree node new_balance of Inl e \<Rightarrow> Some (Inl e)
             | Inr (shrunk, h, tree) \<Rightarrow>
                 if \<not> shrunk then Some (Inr (h, tree))
                 else if parent \<noteq> 0 then remove_up h tree parent which_child
                 else Some (Inr (h, tree))))"

text \<open>
  The first half of \<open>avl_remove\<close> for a node with two children: its neighbour on the taller side
  takes its place, and a copy of the neighbour on the stack (at address \<open>tmp\<close>) takes the place
  of the neighbour. The result is the new \<open>delete\<close>.
\<close>

definition remove_swap ::
    "heap \<Rightarrow> avl_tree \<Rightarrow> addr \<Rightarrow> addr \<Rightarrow> (fault + addr \<times> heap \<times> avl_tree) option" where
  "remove_swap h tree tmp delete =
     obind (Some (ld h delete)) (\<lambda>dn.
     obind (Some (avl_balance2child (AVL_XBALANCE dn + 1))) (\<lambda>left.
     let right = (\<not> left) in
     obind (walk_down h right (avl_child dn left)) (\<lambda>node.
     obind (Some (ld h node)) (\<lambda>tmpv.
     let h = h(tmp \<mapsto> tmpv, node \<mapsto> dn) in
     obind (Some (if avl_child dn left = node then upd (set_avl_child left tmp) node h else Inr h)) (\<lambda>h.
     obind (Some (ld h node)) (\<lambda>n.
     obind (Some (set_link (AVL_XPARENT n) (AVL_XCHILD n) node h tree)) (\<lambda>(h, tree).
     obind (Some (ld h node)) (\<lambda>n.
     obind (Some (upd (AVL_SETPARENT node) (avl_child n left) h)) (\<lambda>h.
     obind (Some (upd (AVL_SETPARENT node) (avl_child n right) h)) (\<lambda>h.
     obind (Some (ld h tmp)) (\<lambda>t.
     obind (Some (upd (set_avl_child (AVL_XCHILD t) tmp) (AVL_XPARENT t) h)) (\<lambda>h.
     obind (Some (ld h tmp)) (\<lambda>t.
     let which_child = (avl_child t True \<noteq> 0) in
     obind (Some (if avl_child t which_child \<noteq> 0
                  then upd (AVL_SETPARENT tmp) (avl_child t which_child) h else Inr h)) (\<lambda>h.
     Some (Inr (tmp, h, tree))))))))))))))))"

text \<open>The stack copy is gone when the function returns.\<close>

definition avl_remove :: "addr \<Rightarrow> heap \<Rightarrow> avl_tree \<Rightarrow> addr \<Rightarrow> (fault + heap \<times> avl_tree) option" where
  "avl_remove tmp h tree data =
     (let delete = AVL_DATA2NODE data (avl_offset tree) in
      obind (Some (ld h delete)) (\<lambda>dn.
      obind (if avl_child dn False \<noteq> 0 \<and> avl_child dn True \<noteq> 0 then remove_swap h tree tmp delete
             else Some (Inr (delete, h, tree))) (\<lambda>(delete, h, tree).
      obind (Some (verify (avl_numnodes tree > 0))) (\<lambda>_.
      let tree = tree\<lparr>avl_numnodes := avl_numnodes tree - 1\<rparr> in
      obind (Some (ld h delete)) (\<lambda>dn.
      let parent = AVL_XPARENT dn; which_child = AVL_XCHILD dn;
          node = (if avl_child dn False \<noteq> 0 then avl_child dn False else avl_child dn True) in
      obind (Some (relink node parent which_child h)) (\<lambda>h.
      obind (if parent = 0 then Some (Inr (h, tree\<lparr>avl_root := node\<rparr>))
             else obind (Some (upd (set_avl_child which_child node) parent h)) (\<lambda>h.
                  remove_up h tree parent which_child)) (\<lambda>(h, tree).
      Some (Inr (h(tmp := None), tree)))))))))"

section \<open>Updates\<close>

definition AVL_REINSERT ::
    "compar_env \<Rightarrow> addr \<Rightarrow> heap \<Rightarrow> avl_tree \<Rightarrow> addr \<Rightarrow> (fault + heap \<times> avl_tree) option" where
  "AVL_REINSERT call tmp h tree obj =
     obind (avl_remove tmp h tree obj) (\<lambda>(h, tree). avl_add call h tree obj)"

definition AVL_PREV :: "heap \<Rightarrow> avl_tree \<Rightarrow> addr \<Rightarrow> (fault + addr) option" where
  "AVL_PREV h tree node = avl_walk h tree node 0"

definition AVL_NEXT :: "heap \<Rightarrow> avl_tree \<Rightarrow> addr \<Rightarrow> (fault + addr) option" where
  "AVL_NEXT h tree node = avl_walk h tree node 1"

definition avl_update_lt ::
    "compar_env \<Rightarrow> addr \<Rightarrow> heap \<Rightarrow> avl_tree \<Rightarrow> addr \<Rightarrow> (fault + boolean_t \<times> heap \<times> avl_tree) option" where
  "avl_update_lt call tmp h t obj =
     obind (AVL_NEXT h t obj) (\<lambda>neighbor.
     obind (Some (verify (neighbor = 0 \<or> call (avl_compar t) obj neighbor \<le> 0))) (\<lambda>_.
     obind (AVL_PREV h t obj) (\<lambda>neighbor.
     if neighbor \<noteq> 0 \<and> call (avl_compar t) obj neighbor < 0 then
       obind (AVL_REINSERT call tmp h t obj) (\<lambda>(h, t). Some (Inr (B_TRUE, h, t)))
     else Some (Inr (B_FALSE, h, t)))))"

definition avl_update_gt ::
    "compar_env \<Rightarrow> addr \<Rightarrow> heap \<Rightarrow> avl_tree \<Rightarrow> addr \<Rightarrow> (fault + boolean_t \<times> heap \<times> avl_tree) option" where
  "avl_update_gt call tmp h t obj =
     obind (AVL_PREV h t obj) (\<lambda>neighbor.
     obind (Some (verify (neighbor = 0 \<or> call (avl_compar t) obj neighbor \<ge> 0))) (\<lambda>_.
     obind (AVL_NEXT h t obj) (\<lambda>neighbor.
     if neighbor \<noteq> 0 \<and> call (avl_compar t) obj neighbor > 0 then
       obind (AVL_REINSERT call tmp h t obj) (\<lambda>(h, t). Some (Inr (B_TRUE, h, t)))
     else Some (Inr (B_FALSE, h, t)))))"

definition avl_update ::
    "compar_env \<Rightarrow> addr \<Rightarrow> heap \<Rightarrow> avl_tree \<Rightarrow> addr \<Rightarrow> (fault + boolean_t \<times> heap \<times> avl_tree) option" where
  "avl_update call tmp h t obj =
     obind (AVL_PREV h t obj) (\<lambda>neighbor.
     if neighbor \<noteq> 0 \<and> call (avl_compar t) obj neighbor < 0 then
       obind (AVL_REINSERT call tmp h t obj) (\<lambda>(h, t). Some (Inr (B_TRUE, h, t)))
     else
       obind (AVL_NEXT h t obj) (\<lambda>neighbor.
       if neighbor \<noteq> 0 \<and> call (avl_compar t) obj neighbor > 0 then
         obind (AVL_REINSERT call tmp h t obj) (\<lambda>(h, t). Some (Inr (B_TRUE, h, t)))
       else Some (Inr (B_FALSE, h, t))))"

section \<open>Tree headers\<close>

definition avl_swap :: "avl_tree \<Rightarrow> avl_tree \<Rightarrow> fault + avl_tree \<times> avl_tree" where
  "avl_swap tree1 tree2 =
     bindr (verify (avl_compar tree1 = avl_compar tree2)) (\<lambda>_.
     bindr (verify (avl_offset tree1 = avl_offset tree2)) (\<lambda>_.
     bindr (verify (avl_size tree1 = avl_size tree2)) (\<lambda>_.
     Inr (tree1\<lparr>avl_root := avl_root tree2, avl_numnodes := avl_numnodes tree2\<rparr>,
          tree2\<lparr>avl_root := avl_root tree1, avl_numnodes := avl_numnodes tree1\<rparr>))))"

definition SIZEOF_AVL_NODE :: u64 where "SIZEOF_AVL_NODE = 24"

definition avl_create :: "addr \<Rightarrow> u64 \<Rightarrow> u64 \<Rightarrow> fault + avl_tree" where
  "avl_create compar sz offset =
     bindr (verify (compar \<noteq> 0)) (\<lambda>_.
     bindr (verify (sz > 0)) (\<lambda>_.
     bindr (verify (sz \<ge> offset + SIZEOF_AVL_NODE)) (\<lambda>_.
     bindr (verify (offset AND 7 = 0)) (\<lambda>_.
     Inr \<lparr>avl_root = 0, avl_compar = compar, avl_offset = offset, avl_numnodes = 0, avl_size = sz\<rparr>))))"

definition avl_destroy :: "avl_tree \<Rightarrow> fault + unit" where
  "avl_destroy tree =
     bindr (verify (avl_numnodes tree = 0)) (\<lambda>_.
     bindr (verify (avl_root tree = 0)) (\<lambda>_. Inr ()))"

definition avl_numnodes_of :: "avl_tree \<Rightarrow> u64" where
  "avl_numnodes_of tree = avl_numnodes tree"

text \<open>The truth value of the comparison, 1 or 0, is converted to \<open>boolean_t\<close>.\<close>

definition avl_is_empty :: "avl_tree \<Rightarrow> boolean_t" where
  "avl_is_empty tree = c_boolean (avl_numnodes tree = 0)"

section \<open>Destroying the nodes\<close>

text \<open>Down to the leftmost node, with its parent.\<close>

partial_function (option) leftmost_loop :: "heap \<Rightarrow> addr \<Rightarrow> addr \<Rightarrow> (fault + addr \<times> addr) option" where
  "leftmost_loop h parent node =
     (case ld h node of Inl e \<Rightarrow> Some (Inl e)
      | Inr n \<Rightarrow>
          if avl_child n False \<noteq> 0 then leftmost_loop h node (avl_child n False)
          else Some (Inr (parent, node)))"

definition CHILDBIT :: u64 where "CHILDBIT = 1"

text \<open>The label \<open>done\<close>: the data of \<open>node\<close> and the next cookie.\<close>

definition destroy_done ::
    "heap \<Rightarrow> avl_tree \<Rightarrow> addr \<Rightarrow> addr \<Rightarrow> (fault + addr \<times> u64 \<times> heap \<times> avl_tree) option" where
  "destroy_done h tree parent node =
     (let data = AVL_NODE2DATA node (avl_offset tree) in
      if parent = 0 then
        obind (Some (verify (node = avl_root tree))) (\<lambda>_. Some (Inr (data, CHILDBIT, h, tree)))
      else
        obind (Some (ld h node)) (\<lambda>n. Some (Inr (data, parent OR of_bool (AVL_XCHILD n), h, tree))))"

text \<open>The label \<open>check_right_side\<close>.\<close>

definition destroy_right ::
    "heap \<Rightarrow> avl_tree \<Rightarrow> addr \<Rightarrow> addr \<Rightarrow> (fault + addr \<times> u64 \<times> heap \<times> avl_tree) option" where
  "destroy_right h tree parent node =
     obind (Some (ld h node)) (\<lambda>n.
     if avl_child n True \<noteq> 0 then
       obind (Some (verify (AVL_XBALANCE n = 1))) (\<lambda>_.
       obind (Some (ld h (avl_child n True))) (\<lambda>r.
       obind (Some (verify (avl_child r False = 0 \<and> avl_child r True = 0))) (\<lambda>_.
       destroy_done h tree node (avl_child n True))))
     else
       obind (Some (verify (AVL_XBALANCE n \<le> 0))) (\<lambda>_. destroy_done h tree parent node))"

definition avl_destroy_nodes ::
    "heap \<Rightarrow> avl_tree \<Rightarrow> u64 \<Rightarrow> (fault + addr \<times> u64 \<times> heap \<times> avl_tree) option" where
  "avl_destroy_nodes h tree cookie =
     (if cookie = 0 then
        obind (avl_first h tree) (\<lambda>first.
        if first = 0 then Some (Inr (0, CHILDBIT, h, tree))
        else
          let node = AVL_DATA2NODE first (avl_offset tree) in
          obind (Some (ld h node)) (\<lambda>n. destroy_right h tree (AVL_XPARENT n) node))
      else
        let parent = cookie AND NOT CHILDBIT in
        if parent = 0 then
          if avl_root tree \<noteq> 0 then
            obind (Some (verify (avl_numnodes tree = 1))) (\<lambda>_.
            Some (Inr (0, cookie, h, tree\<lparr>avl_root := 0, avl_numnodes := 0\<rparr>)))
          else Some (Inr (0, cookie, h, tree))
        else
          let child = (cookie AND CHILDBIT = 1) in
          obind (Some (upd (set_avl_child child 0) parent h)) (\<lambda>h.
          obind (Some (verify (avl_numnodes tree > 1))) (\<lambda>_.
          let tree = tree\<lparr>avl_numnodes := avl_numnodes tree - 1\<rparr> in
          obind (Some (ld h parent)) (\<lambda>p.
          if child \<or> avl_child p True = 0 then destroy_done h tree (AVL_XPARENT p) parent
          else
            obind (leftmost_loop h parent (avl_child p True)) (\<lambda>(parent, node).
            destroy_right h tree parent node)))))"

end
