(* ===== verification/Avl_Tree.thy ===== *)
theory Avl_Tree
  imports Avl
begin

text \<open>
  The trees that heaps of \<open>avl_node_t\<close>s represent. A tree is described by the addresses of its
  nodes and the balances stored in them; \<open>tree_at\<close> says that a heap holds it. For the loops
  that climb, a position in a tree is a context, the list of frames from there to the root.
\<close>

section \<open>Trees of addresses\<close>

text \<open>The two children are a function of the child index, so that both directions are one case.\<close>

datatype atree = Lf | Nd "bool \<Rightarrow> atree" addr int

lemma atree_induct [case_names Lf Nd, induct type: atree]:
  "P Lf \<Longrightarrow> (\<And>k x b. (\<And>d. P (k d)) \<Longrightarrow> P (Nd k x b)) \<Longrightarrow> P t"
  by (induction t rule: atree.induct) auto

primrec height :: "atree \<Rightarrow> nat" where
  "height Lf = 0"
| "height (Nd k x b) = Suc (max (height (k False)) (height (k True)))"

primrec inorder :: "atree \<Rightarrow> addr list" where
  "inorder Lf = []"
| "inorder (Nd k x b) = inorder (k False) @ x # inorder (k True)"

primrec root :: "atree \<Rightarrow> addr" where
  "root Lf = 0"
| "root (Nd k x b) = x"

primrec root_bal :: "atree \<Rightarrow> int" where
  "root_bal Lf = 0"
| "root_bal (Nd k x b) = b"

text \<open>The balance a node has whose children have heights \<open>a\<close> (index 0) and \<open>b\<close>.\<close>

definition balance :: "nat \<Rightarrow> nat \<Rightarrow> int" where
  "balance a b = int b - int a"

primrec avl :: "atree \<Rightarrow> bool" where
  "avl Lf = True"
| "avl (Nd k x b) = (avl (k False) \<and> avl (k True) \<and>
     b = balance (height (k False)) (height (k True)) \<and> bal_ok b)"

lemma avl_Nd: "avl (Nd k x b) \<longleftrightarrow> (\<forall>d. avl (k d)) \<and> b = balance (height (k False)) (height (k True)) \<and> bal_ok b"
  by (auto simp: all_bool_eq)

lemma inorder_Nil_iff [simp]: "inorder t = [] \<longleftrightarrow> t = Lf"
  by (cases t) auto

lemma height_0_iff [simp]: "height t = 0 \<longleftrightarrow> t = Lf"
  by (cases t) auto

definition side :: "bool \<Rightarrow> 'a list \<Rightarrow> 'a \<Rightarrow> 'a list \<Rightarrow> 'a list" where
  "side d as x bs = (if d then bs @ x # as else as @ x # bs)"

text \<open>The node read from the side of child \<open>d\<close>.\<close>

lemma inorder_side: "inorder (Nd k x b) = side d (inorder (k d)) x (inorder (k (\<not> d)))"
  by (cases d) (simp_all add: side_def)

lemma distinct_Nd:
  assumes "distinct (inorder (Nd k x b))"
  shows "x \<notin> set (inorder (k d))" and "distinct (inorder (k d))"
    and "a \<in> set (inorder (k d)) \<Longrightarrow> a \<notin> set (inorder (k (\<not> d)))"
  using assms by (cases d; auto)+

lemma in_Nd: "a \<in> set (inorder (k d)) \<Longrightarrow> a \<in> set (inorder (Nd k x b))"
  by (cases d) auto

lemma set_side [simp]: "set (side d as x bs) = set as \<union> {x} \<union> set bs"
  by (auto simp: side_def)

lemma distinct_side [simp]:
  "distinct (side d as x bs) \<longleftrightarrow>
     distinct as \<and> distinct bs \<and> x \<notin> set as \<and> x \<notin> set bs \<and> set as \<inter> set bs = {}"
  by (auto simp: side_def)

lemma height_side: "height (Nd k x b) = Suc (max (height (k d)) (height (k (\<not> d))))"
  by (cases d) (simp_all add: max.commute)

text \<open>The balance seen from child \<open>d\<close>: how much higher that side is.\<close>

lemma balance_side:
  "balance (height (k False)) (height (k True)) = avl_child2balance d * (int (height (k d)) - int (height (k (\<not> d))))"
  by (cases d) (simp_all add: balance_def avl_child2balance_def)

section \<open>Representation\<close>

definition good_addr :: "addr \<Rightarrow> bool" where
  "good_addr x \<longleftrightarrow> x \<noteq> 0 \<and> aligned8 x"

text \<open>The node at \<open>x\<close> has these children, parent, index in the parent and balance.\<close>

definition node_at :: "heap \<Rightarrow> addr \<Rightarrow> (bool \<Rightarrow> addr) \<Rightarrow> addr \<Rightarrow> bool \<Rightarrow> int \<Rightarrow> bool" where
  "node_at h x ch p c b \<longleftrightarrow> good_addr x \<and>
     (\<exists>n. h x = Some n \<and> avl_child n = ch \<and> AVL_XPARENT n = p \<and> AVL_XCHILD n = c \<and> AVL_XBALANCE n = b)"

primrec tree_at :: "heap \<Rightarrow> atree \<Rightarrow> addr \<Rightarrow> bool \<Rightarrow> bool" where
  "tree_at h Lf p c = True"
| "tree_at h (Nd k x b) p c = (node_at h x (\<lambda>d. root (k d)) p c b \<and>
     tree_at h (k False) x False \<and> tree_at h (k True) x True)"

lemma tree_at_Nd:
  "tree_at h (Nd k x b) p c \<longleftrightarrow> node_at h x (\<lambda>d. root (k d)) p c b \<and> (\<forall>d. tree_at h (k d) x d)"
  by (auto simp: all_bool_eq)

declare tree_at.simps(2) [simp del] tree_at_Nd [simp]

lemma tree_at_good: "tree_at h t p c \<Longrightarrow> a \<in> set (inorder t) \<Longrightarrow> good_addr a"
  by (induction t arbitrary: p c) (auto simp: node_at_def)

lemma tree_at_dom: "tree_at h t p c \<Longrightarrow> a \<in> set (inorder t) \<Longrightarrow> h a \<noteq> None"
proof (induction t arbitrary: p c)
  case (Nd k x b)
  then have "h x \<noteq> None" by (auto simp: node_at_def)
  moreover have "h a \<noteq> None" if "a \<in> set (inorder (k d))" for d
    using Nd.IH [of d x d] Nd.prems(1) that by simp
  ultimately show ?case using Nd.prems(2) by auto
qed simp

lemma root_0_iff: "tree_at h t p c \<Longrightarrow> root t = 0 \<longleftrightarrow> t = Lf"
  by (cases t) (auto simp: node_at_def good_addr_def)

lemma root_in: "t \<noteq> Lf \<Longrightarrow> root t \<in> set (inorder t)"
  by (cases t) auto

text \<open>Only the nodes of the tree matter.\<close>

lemma node_at_cong: "h' x = h x \<Longrightarrow> node_at h' x = node_at h x"
  by (simp add: node_at_def fun_eq_iff)

lemma tree_at_cong: "(\<And>a. a \<in> set (inorder t) \<Longrightarrow> h' a = h a) \<Longrightarrow> tree_at h' t p c = tree_at h t p c"
proof (induction t arbitrary: p c)
  case (Nd k x b)
  have "node_at h' x = node_at h x" by (rule node_at_cong) (simp add: Nd.prems)
  moreover have "tree_at h' (k d) x d = tree_at h (k d) x d" for d
    by (rule Nd.IH) (rule Nd.prems [OF in_Nd])
  ultimately show ?case by simp
qed simp

lemma tree_at_other: "a \<notin> set (inorder t) \<Longrightarrow> tree_at (h(a := v)) t p c = tree_at h t p c"
  by (rule tree_at_cong) auto

lemma node_at_ld: "node_at h x ch p c b \<Longrightarrow> \<exists>n. ld h x = Inr n \<and> h x = Some n \<and> avl_child n = ch \<and>
    AVL_XPARENT n = p \<and> AVL_XCHILD n = c \<and> AVL_XBALANCE n = b"
  by (auto simp: node_at_def ld_def)

section \<open>Single updates\<close>

text \<open>Each macro applied to a node changes one component of what \<open>node_at\<close> says.\<close>

lemma upd_node:
  assumes "node_at h x ch p c b"
  shows "\<exists>h'. upd (set_avl_child d v) x h = Inr h' \<and> node_at h' x (ch(d := v)) p c b \<and> (\<forall>a. a \<noteq> x \<longrightarrow> h' a = h a)"
    and "aligned8 q \<Longrightarrow> \<exists>h'. upd (AVL_SETPARENT q) x h = Inr h' \<and> node_at h' x ch q c b \<and> (\<forall>a. a \<noteq> x \<longrightarrow> h' a = h a)"
    and "\<exists>h'. upd (AVL_SETCHILD e) x h = Inr h' \<and> node_at h' x ch p e b \<and> (\<forall>a. a \<noteq> x \<longrightarrow> h' a = h a)"
    and "bal_ok v' \<Longrightarrow> \<exists>h'. upd (AVL_SETBALANCE v') x h = Inr h' \<and> node_at h' x ch p c v' \<and> (\<forall>a. a \<noteq> x \<longrightarrow> h' a = h a)"
proof -
  obtain n where n: "h x = Some n" "avl_child n = ch" "AVL_XPARENT n = p" "AVL_XCHILD n = c" "AVL_XBALANCE n = b"
    and g: "good_addr x"
    using assms by (auto simp: node_at_def)
  have ch: "avl_child (set_avl_child d v n) = ch(d := v)" using n(2) by (auto simp: fun_eq_iff)
  have ch': "avl_child (AVL_SETPARENT q n) = ch" "avl_child (AVL_SETCHILD e n) = ch" "avl_child (AVL_SETBALANCE v' n) = ch"
    using n(2) by (auto simp: fun_eq_iff)
  show "\<exists>h'. upd (set_avl_child d v) x h = Inr h' \<and> node_at h' x (ch(d := v)) p c b \<and> (\<forall>a. a \<noteq> x \<longrightarrow> h' a = h a)"
    using n g ch by (simp add: upd_def ld_def node_at_def)
  show "aligned8 q \<Longrightarrow> \<exists>h'. upd (AVL_SETPARENT q) x h = Inr h' \<and> node_at h' x ch q c b \<and> (\<forall>a. a \<noteq> x \<longrightarrow> h' a = h a)"
    using n g ch' by (simp add: upd_def ld_def node_at_def pcb.field_simps)
  show "\<exists>h'. upd (AVL_SETCHILD e) x h = Inr h' \<and> node_at h' x ch p e b \<and> (\<forall>a. a \<noteq> x \<longrightarrow> h' a = h a)"
    using n g ch' by (simp add: upd_def ld_def node_at_def pcb.field_simps)
  show "bal_ok v' \<Longrightarrow> \<exists>h'. upd (AVL_SETBALANCE v') x h = Inr h' \<and> node_at h' x ch p c v' \<and> (\<forall>a. a \<noteq> x \<longrightarrow> h' a = h a)"
    using n g ch' by (simp add: upd_def ld_def node_at_def pcb.field_simps)
qed

text \<open>Hanging a subtree under another parent.\<close>

lemma relink_tree:
  assumes "tree_at h t p c" and "distinct (inorder t)" and "aligned8 q"
  shows "\<exists>h'. relink (root t) q d h = Inr h' \<and> tree_at h' t q d \<and> (\<forall>a. a \<notin> set (inorder t) \<longrightarrow> h' a = h a)"
proof (cases t)
  case Lf
  then show ?thesis by (simp add: relink_def)
next
  case (Nd k x b)
  then have x: "node_at h x (\<lambda>d. root (k d)) p c b" and k: "\<And>d. tree_at h (k d) x d"
    using assms(1) by simp_all
  have x0: "x \<noteq> 0" using x by (simp add: node_at_def good_addr_def)
  have notin: "x \<notin> set (inorder (k d))" for d using distinct_Nd(1) assms(2) Nd by blast
  obtain h1 where h1: "upd (AVL_SETPARENT q) x h = Inr h1" "node_at h1 x (\<lambda>d. root (k d)) q c b"
    "\<forall>a. a \<noteq> x \<longrightarrow> h1 a = h a"
    using upd_node(2) [OF x(1) assms(3)] by blast
  obtain h2 where h2: "upd (AVL_SETCHILD d) x h1 = Inr h2" "node_at h2 x (\<lambda>d. root (k d)) q d b"
    "\<forall>a. a \<noteq> x \<longrightarrow> h2 a = h1 a"
    using upd_node(3) [OF h1(2)] by blast
  have "tree_at h2 (k e) x e" for e
  proof -
    have "tree_at h2 (k e) x e = tree_at h (k e) x e"
      by (rule tree_at_cong) (use notin h1(3) h2(3) in metis)
    then show ?thesis using k by simp
  qed
  moreover have "relink x q d h = Inr h2" using x0 h1(1) h2(1) by (simp add: relink_def)
  ultimately show ?thesis using Nd h1(3) h2(2,3) by simp
qed

end
