(* ===== verification/Avl_Context.thy ===== *)
theory Avl_Context
  imports Avl_Tree
begin

text \<open>
  Positions in a tree: a context is the list of frames from a hole up to the root, each with
  the index of the hole, the node, its stored balance and the other subtree. What the loops
  of \<open>avl.c\<close> keep true while they climb is stated over a context and the subtree in its hole.
\<close>

datatype frame = Fr bool addr int atree

type_synonym ctx = "frame list"

fun fill :: "frame \<Rightarrow> atree \<Rightarrow> atree" where
  "fill (Fr d x b s) t = Nd ((\<lambda>_. s)(d := t)) x b"

fun plug :: "ctx \<Rightarrow> atree \<Rightarrow> atree" where
  "plug [] t = t"
| "plug (f # c) t = plug c (fill f t)"

fun up :: "ctx \<Rightarrow> addr" where
  "up [] = 0"
| "up (Fr d x b s # c) = x"

fun dir :: "ctx \<Rightarrow> bool" where
  "dir [] = False"
| "dir (Fr d x b s # c) = d"

fun ctx_root :: "ctx \<Rightarrow> addr \<Rightarrow> addr" where
  "ctx_root [] a = a"
| "ctx_root (Fr d x b s # c) a = ctx_root c x"

fun cnodes :: "ctx \<Rightarrow> addr list" where
  "cnodes [] = []"
| "cnodes (Fr d x b s # c) = x # inorder s @ cnodes c"

fun around :: "ctx \<Rightarrow> addr list \<Rightarrow> addr list" where
  "around [] xs = xs"
| "around (Fr d x b s # c) xs = around c (side d xs x (inorder s))"

fun ctx_at :: "heap \<Rightarrow> ctx \<Rightarrow> addr \<Rightarrow> bool" where
  "ctx_at h [] a = True"
| "ctx_at h (Fr d x b s # c) a =
     (node_at h x ((\<lambda>_. root s)(d := a)) (up c) (dir c) b \<and> tree_at h s x (\<not> d) \<and> ctx_at h c x)"

text \<open>A context in which a subtree of height \<open>n\<close> makes a balanced tree.\<close>

fun avl_ctx :: "nat \<Rightarrow> ctx \<Rightarrow> bool" where
  "avl_ctx n [] = True"
| "avl_ctx n (Fr d x b s # c) =
     (avl s \<and> b = avl_child2balance d * (int n - int (height s)) \<and> bal_ok b \<and>
      avl_ctx (Suc (max n (height s))) c)"

section \<open>Plugging\<close>

lemma inorder_fill: "inorder (fill (Fr d x b s) t) = side d (inorder t) x (inorder s)"
  by (simp add: inorder_side [of _ x b d] del: inorder.simps)

lemma inorder_plug: "inorder (plug c t) = around c (inorder t)"
proof (induction c t rule: plug.induct)
  case (2 f c t)
  then show ?case by (cases f) (simp add: inorder_fill del: fill.simps)
qed simp

lemma root_plug: "root (plug c t) = ctx_root c (root t)"
proof (induction c t rule: plug.induct)
  case (2 f c t)
  then show ?case by (cases f) simp
qed simp

lemma set_around: "set (around c xs) = set xs \<union> set (cnodes c)"
  by (induction c xs rule: around.induct) auto

lemma distinct_around:
  "distinct (around c xs) \<longleftrightarrow> distinct xs \<and> distinct (cnodes c) \<and> set xs \<inter> set (cnodes c) = {}"
  by (induction c xs rule: around.induct) (auto simp: set_around)

lemma up_in: "c \<noteq> [] \<Longrightarrow> up c \<in> set (cnodes c)"
  by (cases c rule: up.cases) auto

lemma up_0_iff: "ctx_at h c a \<Longrightarrow> up c = 0 \<longleftrightarrow> c = []"
  by (cases c rule: up.cases) (auto simp: node_at_def good_addr_def)

lemma up_aligned: "ctx_at h c a \<Longrightarrow> aligned8 (up c)"
  by (cases c rule: up.cases) (auto simp: node_at_def good_addr_def)

lemma all_other: "(\<forall>e. P e) \<longleftrightarrow> P d \<and> P (\<not> d)" for P :: "bool \<Rightarrow> bool"
  by (cases d) (auto simp: all_bool_eq)

lemma plug_at: "tree_at h (plug c t) 0 False \<longleftrightarrow> ctx_at h c (root t) \<and> tree_at h t (up c) (dir c)"
proof (induction c t rule: plug.induct)
  case (2 f c t)
  obtain d x b s where f: "f = Fr d x b s" by (cases f)
  have "(\<lambda>e. root (((\<lambda>_. s)(d := t)) e)) = (\<lambda>_. root s)(d := root t)" by (auto simp: fun_eq_iff)
  then show ?case using 2 by (auto simp: f all_other [where d = d])
qed simp

lemma avl_plug: "avl (plug c t) \<longleftrightarrow> avl t \<and> avl_ctx (height t) c"
proof (induction c t rule: plug.induct)
  case (2 f c t)
  obtain d x b s where f: "f = Fr d x b s" by (cases f)
  let ?k = "(\<lambda>_. s)(d := t)"
  have "height (fill f t) = Suc (max (height t) (height s))"
    by (simp add: f height_side [of ?k x b d] del: height.simps)
  moreover have "avl (fill f t) \<longleftrightarrow> avl t \<and> avl s \<and> bal_ok b \<and>
      b = avl_child2balance d * (int (height t) - int (height s))"
    by (cases d) (auto simp: f balance_def avl_child2balance_def)
  ultimately show ?case using 2 by (auto simp: f)
qed simp

lemma ctx_at_cong: "(\<And>a. a \<in> set (cnodes c) \<Longrightarrow> h' a = h a) \<Longrightarrow> ctx_at h' c a = ctx_at h c a"
proof (induction c arbitrary: a)
  case (Cons f c)
  obtain d x b s where f: "f = Fr d x b s" by (cases f)
  have "node_at h' x = node_at h x" by (rule node_at_cong) (simp add: Cons.prems f)
  moreover have "tree_at h' s x (\<not> d) = tree_at h s x (\<not> d)"
    by (rule tree_at_cong) (simp add: Cons.prems f)
  ultimately show ?case using Cons by (simp add: f)
qed simp

section \<open>The link into a hole\<close>

lemma set_link_ctx:
  assumes "ctx_at h c a" and "distinct (cnodes c)"
  shows "\<exists>h'. set_link (up c) (dir c) v h tr =
      Inr (h', if c = [] then tr\<lparr>avl_root := v\<rparr> else tr) \<and>
    ctx_at h' c v \<and> (\<forall>a. a \<notin> set (cnodes c) \<longrightarrow> h' a = h a)"
proof (cases c rule: up.cases)
  case 1
  then show ?thesis by (simp add: set_link_def)
next
  case (2 d x b s c')
  have x: "node_at h x ((\<lambda>_. root s)(d := a)) (up c') (dir c') b" and s: "tree_at h s x (\<not> d)"
    and c': "ctx_at h c' x" and notin: "x \<notin> set (inorder s)" "x \<notin> set (cnodes c')"
    using assms by (simp_all add: 2)
  obtain h' where h': "upd (set_avl_child d v) x h = Inr h'"
      "node_at h' x (((\<lambda>_. root s)(d := a))(d := v)) (up c') (dir c') b" "\<forall>a. a \<noteq> x \<longrightarrow> h' a = h a"
    using upd_node(1) [OF x] by blast
  have "tree_at h' s x (\<not> d) = tree_at h s x (\<not> d)"
    by (rule tree_at_cong) (use h'(3) notin in auto)
  moreover have "ctx_at h' c' x = ctx_at h c' x"
    by (rule ctx_at_cong) (use h'(3) notin in auto)
  moreover have "x \<noteq> 0" using x by (simp add: node_at_def good_addr_def)
  ultimately show ?thesis using h' s c' by (auto simp: 2 set_link_def)
qed

text \<open>A heap and tree header that hold a tree.\<close>

definition whole :: "heap \<Rightarrow> avl_tree \<Rightarrow> atree \<Rightarrow> bool" where
  "whole h tr T \<longleftrightarrow> avl_root tr = root T \<and> tree_at h T 0 False \<and> distinct (inorder T)"

text \<open>... seen from a position inside it.\<close>

definition at_pos :: "heap \<Rightarrow> avl_tree \<Rightarrow> ctx \<Rightarrow> atree \<Rightarrow> bool" where
  "at_pos h tr c t \<longleftrightarrow> ctx_at h c (root t) \<and> tree_at h t (up c) (dir c) \<and>
     distinct (around c (inorder t)) \<and> avl_root tr = ctx_root c (root t)"

lemma whole_plug: "whole h tr (plug c t) \<longleftrightarrow> at_pos h tr c t"
  by (auto simp: whole_def at_pos_def plug_at inorder_plug root_plug)

lemma at_pos_Cons: "at_pos h tr (f # c) t \<longleftrightarrow> at_pos h tr c (fill f t)"
  using whole_plug [of h tr "f # c" t] whole_plug [of h tr c "fill f t"] by simp

lemma at_posD:
  assumes "at_pos h tr c t"
  shows "ctx_at h c (root t)" and "tree_at h t (up c) (dir c)" and "distinct (inorder t)"
    and "distinct (cnodes c)" and "set (inorder t) \<inter> set (cnodes c) = {}" and "avl_root tr = ctx_root c (root t)"
  using assms by (auto simp: at_pos_def distinct_around)

text \<open>The subtree in the hole replaced by one with the same nodes and relinked.\<close>

lemma at_pos_replace:
  assumes "at_pos h tr c t" and "ctx_at h' c (root t')" and "tree_at h' t' (up c) (dir c)"
    and "inorder t' = inorder t" and "tr' = (if c = [] then tr\<lparr>avl_root := root t'\<rparr> else tr)"
  shows "at_pos h' tr' c t'"
proof -
  have "avl_root tr' = ctx_root c (root t')"
    using assms(1,5) by (cases c rule: up.cases) (simp_all add: at_pos_def)
  then show ?thesis using assms by (simp add: at_pos_def)
qed

text \<open>Changes outside the tree do not matter.\<close>

lemma whole_cong: "(\<And>a. a \<in> set (inorder T) \<Longrightarrow> h' a = h a) \<Longrightarrow> avl_root tr' = avl_root tr \<Longrightarrow> whole h' tr' T = whole h tr T"
  using tree_at_cong [of T h' h 0 False] by (simp add: whole_def)

definition same_elsewhere :: "addr set \<Rightarrow> heap \<Rightarrow> heap \<Rightarrow> bool" where
  "same_elsewhere A h h' \<longleftrightarrow> (\<forall>a. a \<notin> A \<longrightarrow> h' a = h a)"

lemma same_elsewhere_trans:
  "same_elsewhere A h h' \<Longrightarrow> same_elsewhere A h' h'' \<Longrightarrow> same_elsewhere A h h''"
  by (simp add: same_elsewhere_def)

lemma same_elsewhere_mono: "A \<subseteq> B \<Longrightarrow> same_elsewhere A h h' \<Longrightarrow> same_elsewhere B h h'"
  by (auto simp: same_elsewhere_def)

end
