(* ===== verification/Avl_Rotate.thy ===== *)
theory Avl_Rotate
  imports Avl_Context
begin

text \<open>
  \<open>avl_rotation\<close> (\<open>src/lib/libavl/avl.c\<close>): on a subtree one side of which is two higher than
  the other it produces, in place, a balanced subtree of the same nodes in the same order, and
  reports whether that is lower than the subtree was.
\<close>

lemma upd_eq: "upd f a h = (case h a of None \<Rightarrow> Inl UB | Some n \<Rightarrow> Inr (h(a \<mapsto> f n)))"
  by (simp add: upd_def ld_def split: option.splits)

lemma node_atI:
  "h x = Some n \<Longrightarrow> good_addr x \<Longrightarrow> avl_child n = ch \<Longrightarrow> AVL_XPARENT n = p \<Longrightarrow> AVL_XCHILD n = c \<Longrightarrow>
   AVL_XBALANCE n = b \<Longrightarrow> node_at h x ch p c b"
  by (simp add: node_at_def)

section \<open>The straight-line parts\<close>

text \<open>What the updates between the relinking and the final link do to the two or three nodes.\<close>

lemma single_steps:
  assumes "h x = Some n" and "h y = Some m" and "x \<noteq> y"
  shows "bindr (upd (set_avl_child r x) y h) (\<lambda>h.
        bindr (upd (AVL_SETBALANCE (- cb)) x h) (\<lambda>h.
        bindr (upd (AVL_SETCHILD r) x h) (\<lambda>h.
        bindr (upd (AVL_SETPARENT y) x h) (\<lambda>h.
        bindr (upd (AVL_SETBALANCE cb) y h) (\<lambda>h.
        bindr (upd (AVL_SETCHILD w) y h) (\<lambda>h.
        bindr (upd (AVL_SETPARENT p) y h) K)))))) =
     K (h(x \<mapsto> AVL_SETPARENT y (AVL_SETCHILD r (AVL_SETBALANCE (- cb) n)),
          y \<mapsto> AVL_SETPARENT p (AVL_SETCHILD w (AVL_SETBALANCE cb (set_avl_child r x m)))))"
  using assms by (simp add: upd_eq fun_upd_twist)

lemma double_steps:
  assumes "h x = Some n" and "h y = Some m" and "h z = Some q" and "x \<noteq> y" "x \<noteq> z" "y \<noteq> z"
  shows "bindr (upd (set_avl_child l y) z h) (\<lambda>h.
        bindr (upd (AVL_SETBALANCE yb) y h) (\<lambda>h.
        bindr (upd (AVL_SETPARENT z) y h) (\<lambda>h.
        bindr (upd (AVL_SETCHILD l) y h) (\<lambda>h.
        bindr (upd (set_avl_child r x) z h) (\<lambda>h.
        bindr (upd (AVL_SETBALANCE xb) x h) (\<lambda>h.
        bindr (upd (AVL_SETPARENT z) x h) (\<lambda>h.
        bindr (upd (AVL_SETCHILD r) x h) (\<lambda>h.
        bindr (upd (AVL_SETBALANCE 0) z h) (\<lambda>h.
        bindr (upd (AVL_SETPARENT p) z h) (\<lambda>h.
        bindr (upd (AVL_SETCHILD w) z h) K)))))))))) =
     K (h(x \<mapsto> AVL_SETCHILD r (AVL_SETPARENT z (AVL_SETBALANCE xb n)),
          y \<mapsto> AVL_SETCHILD l (AVL_SETPARENT z (AVL_SETBALANCE yb m)),
          z \<mapsto> AVL_SETCHILD w (AVL_SETPARENT p (AVL_SETBALANCE 0
                (set_avl_child r x (set_avl_child l y q))))))"
  using assms by (simp add: upd_eq fun_upd_twist)

section \<open>The shapes\<close>

text \<open>\<open>x\<close> goes down on the side \<open>r\<close> away from its high child \<open>y\<close>.\<close>

definition rot1 :: "bool \<Rightarrow> (bool \<Rightarrow> atree) \<Rightarrow> addr \<Rightarrow> (bool \<Rightarrow> atree) \<Rightarrow> addr \<Rightarrow> int \<Rightarrow> atree" where
  "rot1 l k x ky y cb = Nd (ky((\<not> l) := Nd (k(l := ky (\<not> l))) x (- cb))) y cb"

definition rot2 :: "bool \<Rightarrow> (bool \<Rightarrow> atree) \<Rightarrow> addr \<Rightarrow> (bool \<Rightarrow> atree) \<Rightarrow> addr \<Rightarrow> (bool \<Rightarrow> atree) \<Rightarrow> addr \<Rightarrow> int \<Rightarrow> atree" where
  "rot2 l k x ky y kz z bz =
     Nd ((\<lambda>_. Nd (k(l := kz (\<not> l))) x (if bz = avl_child2balance l then - avl_child2balance l else 0))
         (l := Nd (ky((\<not> l) := kz l)) y (if bz = - avl_child2balance l then avl_child2balance l else 0))) z 0"

lemma inorder_rot1:
  "k l = Nd ky y by \<Longrightarrow> inorder (rot1 l k x ky y cb) = inorder (Nd k x b)"
  by (cases l) (simp_all add: rot1_def)

lemma inorder_rot2:
  "k l = Nd ky y by \<Longrightarrow> ky (\<not> l) = Nd kz z bz \<Longrightarrow> inorder (rot2 l k x ky y kz z bz') = inorder (Nd k x b)"
  by (cases l) (simp_all add: rot2_def)

lemma c2b_simps [simp]: "avl_child2balance True = 1" "avl_child2balance False = - 1"
  by (simp_all add: avl_child2balance_def)

text \<open>With \<open>y\<close> not leaning inwards a single rotation balances; otherwise a double one does.\<close>

lemma avl_rot1:
  assumes "k l = Nd ky y by" and "\<And>d. avl (k d)" and "height (k l) = height (k (\<not> l)) + 2"
    and "by \<noteq> - avl_child2balance l" and "cb = by - avl_child2balance l"
  shows "avl (rot1 l k x ky y cb)" and "cb = 0 \<longleftrightarrow> by \<noteq> 0"
    and "height (rot1 l k x ky y cb) = height (k l) + (if by = 0 then 1 else 0)"
    and "bal_ok cb" and "bal_ok (- cb)"
proof -
  have y: "avl (ky False)" "avl (ky True)" "by = int (height (ky True)) - int (height (ky False))" "bal_ok by"
    and kk: "avl (k False)" "avl (k True)"
    using assms(1) assms(2) [of l] assms(2) by (auto simp: balance_def)
  show "avl (rot1 l k x ky y cb)" "cb = 0 \<longleftrightarrow> by \<noteq> 0"
    "height (rot1 l k x ky y cb) = height (k l) + (if by = 0 then 1 else 0)" "bal_ok cb" "bal_ok (- cb)"
    using assms(1,3-5) y kk
    by (cases l; auto simp: rot1_def balance_def bal_ok_def max_def split: if_splits)+
qed

lemma avl_rot2:
  assumes "k l = Nd ky y by" and "ky (\<not> l) = Nd kz z bz" and "\<And>d. avl (k d)"
    and "height (k l) = height (k (\<not> l)) + 2" and "by = - avl_child2balance l"
  shows "avl (rot2 l k x ky y kz z bz)" and "height (rot2 l k x ky y kz z bz) = height (k l)" and "by \<noteq> 0"
proof -
  have y: "avl (ky False)" "avl (ky True)" "by = int (height (ky True)) - int (height (ky False))" "bal_ok by"
    and kk: "avl (k False)" "avl (k True)"
    using assms(1) assms(3) [of l] assms(3) by (auto simp: balance_def)
  have z: "avl (kz False)" "avl (kz True)" "bz = int (height (kz True)) - int (height (kz False))" "bal_ok bz"
    using assms(2) y(1,2) by (cases l; auto simp: balance_def)+
  show "avl (rot2 l k x ky y kz z bz)" "height (rot2 l k x ky y kz z bz) = height (k l)" "by \<noteq> 0"
    using assms(1,2,4,5) y kk z
    by (cases l; auto simp: rot2_def balance_def bal_ok_def max_def split: if_splits)+
qed

section \<open>Rotation in the heap\<close>

text \<open>A tree whose nodes a change did not touch is where it was.\<close>

lemma tree_at_keep:
  "tree_at h t p c \<Longrightarrow> (\<And>a. a \<in> set (inorder t) \<Longrightarrow> h' a = h a) \<Longrightarrow> tree_at h' t p c"
  using tree_at_cong by blast

lemma avl_rotation_single:
  assumes P: "at_pos h tr c (Nd k x b)" and kl: "k l = Nd ky y by"
    and yb: "by \<noteq> - avl_child2balance l" and cb: "cb = by - avl_child2balance l" "bal_ok cb" "bal_ok (- cb)"
  shows "\<exists>h' tr'. avl_rotation h tr x (2 * avl_child2balance l) = Inr (cb = 0, h', tr') \<and>
    at_pos h' tr' c (rot1 l k x ky y cb) \<and>
    same_elsewhere (set (around c (inorder (Nd k x b)))) h h' \<and> tr' = tr\<lparr>avl_root := avl_root tr'\<rparr>"
proof -
  let ?r = "\<not> l" and ?B = "ky (\<not> l)"
  have ctx: "ctx_at h c x" and X: "node_at h x (\<lambda>d. root (k d)) (up c) (dir c) b" and K: "\<And>d. tree_at h (k d) x d"
    and D: "distinct (inorder (Nd k x b))" and Dc: "distinct (cnodes c)"
    and dis: "set (inorder (Nd k x b)) \<inter> set (cnodes c) = {}" and rt: "avl_root tr = ctx_root c x"
    using at_posD [OF P] by (simp_all del: inorder.simps)
  have Y: "node_at h y (\<lambda>d. root (ky d)) x l by" and KY: "\<And>d. tree_at h (ky d) y d"
    using K [of l] kl by simp_all
  obtain n where n: "h x = Some n" "avl_child n = (\<lambda>d. root (k d))" "AVL_XPARENT n = up c" "AVL_XCHILD n = dir c"
    and gx: "good_addr x" using X by (auto simp: node_at_def)
  obtain m where m: "h y = Some m" "avl_child m = (\<lambda>d. root (ky d))" "AVL_XPARENT m = x" "AVL_XBALANCE m = by"
    and gy: "good_addr y" using Y by (auto simp: node_at_def)
  have xk: "x \<notin> set (inorder (k d))" for d by (rule distinct_Nd(1) [OF D])
  have in_y: "a \<in> set (inorder (ky d)) \<Longrightarrow> a \<in> set (inorder (k l))" for a d
    using kl by (simp only: in_Nd)
  have yl: "y \<in> set (inorder (k l))" using kl by simp
  have xy: "x \<noteq> y" using xk [of l] yl by auto
  have xky: "x \<notin> set (inorder (ky d))" for d using xk [of l] in_y by blast
  have Dl: "distinct (inorder (Nd ky y by))" using distinct_Nd(2) [OF D, of l] kl by simp
  have yky: "y \<notin> set (inorder (ky d))" for d by (rule distinct_Nd(1) [OF Dl])
  have sep: "a \<notin> set (inorder (k ?r))" if "a \<in> set (inorder (k l))" for a
    using distinct_Nd(3) [OF D that] .
  define h1 where "h1 = h(x \<mapsto> set_avl_child l (root ?B) n)"
  have "tree_at h1 ?B y ?r"
    by (rule tree_at_keep [OF KY]) (use xky in \<open>auto simp: h1_def\<close>)
  then obtain h2 where h2: "relink (root ?B) x l h1 = Inr h2" "tree_at h2 ?B x l"
    "\<And>a. a \<notin> set (inorder ?B) \<Longrightarrow> h2 a = h1 a"
    using relink_tree distinct_Nd(2) [OF Dl, of ?r] gx unfolding good_addr_def by blast
  have h2x: "h2 x = Some (set_avl_child l (root ?B) n)" and h2y: "h2 y = Some m"
    using h2(3) xky yky xy m(1) by (simp_all add: h1_def)
  define h3 where "h3 = h2(x \<mapsto> AVL_SETPARENT y (AVL_SETCHILD ?r (AVL_SETBALANCE (- cb) (set_avl_child l (root ?B) n))),
      y \<mapsto> AVL_SETPARENT (up c) (AVL_SETCHILD (dir c) (AVL_SETBALANCE cb (set_avl_child ?r x m))))"
  have out: "h3 a = h a" if "a \<noteq> x" "a \<noteq> y" "a \<notin> set (inorder ?B)" for a
    using that h2(3) by (simp add: h3_def h1_def)
  have not_neg: "(\<not> 2 * avl_child2balance l < 0) = l" and half: "2 * avl_child2balance l div 2 = avl_child2balance l"
    by (cases l; simp)+
  have code: "avl_rotation h tr x (2 * avl_child2balance l) =
      bindr (set_link (up c) (dir c) y h3 tr) (\<lambda>(h, tr). Inr (cb = 0, h, tr))"
    unfolding avl_rotation_def not_neg half Let_def
    using n(1-4) m(1,2,4) kl yb h2(1) single_steps [OF h2x h2y xy, of ?r cb "dir c" "up c"]
    by (simp add: ld_def upd_eq [of _ x h] flip: h1_def h3_def cb(1))
  have outc: "a \<noteq> x" "a \<notin> set (inorder (k d))" if "a \<in> set (cnodes c)" for a d
    using that dis in_Nd [of a k d x b] by auto
  have "h3 a = h a" if "a \<in> set (cnodes c)" for a
    using outc [OF that] in_y yl by (intro out) auto
  then have "ctx_at h3 c x" using ctx ctx_at_cong [of c h3 h x] by blast
  then obtain h4 where h4: "set_link (up c) (dir c) y h3 tr =
      Inr (h4, if c = [] then tr\<lparr>avl_root := y\<rparr> else tr)" "ctx_at h4 c y"
    "\<And>a. a \<notin> set (cnodes c) \<Longrightarrow> h4 a = h3 a"
    using set_link_ctx Dc by blast
  have keep: "h4 a = h a" if "a \<notin> set (cnodes c)" "a \<noteq> x" "a \<noteq> y" "a \<notin> set (inorder ?B)" for a
    using h4(3) out that by simp
  have in_k: "a \<notin> set (cnodes c)" "a \<noteq> x" if "a \<in> set (inorder (k d))" for a d
    using outc(2) that xk [of d] by blast+
  have cx: "x \<notin> set (cnodes c)" "y \<notin> set (cnodes c)" using outc yl by blast+
  have t1: "tree_at h4 (k ?r) x ?r"
    by (rule tree_at_keep [OF K]) (use in_k sep in_y yl keep in metis)
  have t2: "tree_at h4 ?B x l"
  proof (rule tree_at_keep [OF h2(2)])
    fix a assume a: "a \<in> set (inorder ?B)"
    then have "h4 a = h3 a" using h4(3) in_k(1) [of a l] in_y by blast
    also have "\<dots> = h2 a" using a xky yky by (auto simp: h3_def)
    finally show "h4 a = h2 a" .
  qed
  have t3: "tree_at h4 (ky l) y l"
    by (rule tree_at_keep [OF KY]) (use in_k [of _ l] in_y yky distinct_Nd(3) [OF Dl, of _ l] keep in metis)
  have nx: "node_at h4 x (\<lambda>d. root ((k(l := ?B)) d)) y ?r (- cb)"
  proof (rule node_atI [OF _ gx])
    show "h4 x = Some (AVL_SETPARENT y (AVL_SETCHILD ?r (AVL_SETBALANCE (- cb) (set_avl_child l (root ?B) n))))"
      using h4(3) [OF cx(1)] xy by (simp add: h3_def)
  qed (use gy cb n in \<open>auto simp: good_addr_def pcb.field_simps fun_eq_iff\<close>)
  have ny: "node_at h4 y (\<lambda>d. root ((ky(?r := Nd (k(l := ?B)) x (- cb))) d)) (up c) (dir c) cb"
  proof (rule node_atI [OF _ gy])
    show "h4 y = Some (AVL_SETPARENT (up c) (AVL_SETCHILD (dir c) (AVL_SETBALANCE cb (set_avl_child ?r x m))))"
      using h4(3) [OF cx(2)] xy by (simp add: h3_def)
  qed (use up_aligned [OF ctx] cb m in \<open>auto simp: pcb.field_simps fun_eq_iff\<close>)
  have T: "tree_at h4 (rot1 l k x ky y cb) (up c) (dir c)"
    using nx ny t1 t2 t3 by (simp add: rot1_def all_other [where d = l])
  have "at_pos h4 (if c = [] then tr\<lparr>avl_root := y\<rparr> else tr) c (rot1 l k x ky y cb)"
    by (rule at_pos_replace [OF P _ T inorder_rot1 [where k = k and l = l, OF kl]]) (use h4(2) in \<open>simp_all add: rot1_def\<close>)
  moreover have "same_elsewhere (set (around c (inorder (Nd k x b)))) h h4"
    unfolding same_elsewhere_def set_around
    using keep in_Nd [of _ k l x b] in_y yl by (metis UnCI in_set_conv_decomp inorder.simps(2))
  ultimately show ?thesis using code h4(1) by auto
qed

lemma avl_rotation_double:
  assumes P: "at_pos h tr c (Nd k x b)" and kl: "k l = Nd ky y by" and kr: "ky (\<not> l) = Nd kz z bz"
    and yb: "by = - avl_child2balance l"
  shows "\<exists>h' tr'. avl_rotation h tr x (2 * avl_child2balance l) = Inr (True, h', tr') \<and>
    at_pos h' tr' c (rot2 l k x ky y kz z bz) \<and>
    same_elsewhere (set (around c (inorder (Nd k x b)))) h h' \<and> tr' = tr\<lparr>avl_root := avl_root tr'\<rparr>"
proof -
  let ?r = "\<not> l" and ?L = "kz l" and ?R = "kz (\<not> l)"
  define bx where "bx = (if bz = avl_child2balance l then - avl_child2balance l else 0)"
  define ybal where "ybal = (if bz = - avl_child2balance l then avl_child2balance l else 0)"
  have bals: "bal_ok bx" "bal_ok ybal" by (simp_all add: bx_def ybal_def bal_ok_def avl_child2balance_def)
  have ctx: "ctx_at h c x" and X: "node_at h x (\<lambda>d. root (k d)) (up c) (dir c) b" and K: "\<And>d. tree_at h (k d) x d"
    and D: "distinct (inorder (Nd k x b))" and Dc: "distinct (cnodes c)"
    and dis: "set (inorder (Nd k x b)) \<inter> set (cnodes c) = {}"
    using at_posD [OF P] by (simp_all del: inorder.simps)
  have Y: "node_at h y (\<lambda>d. root (ky d)) x l by" and KY: "\<And>d. tree_at h (ky d) y d"
    using K [of l] kl by simp_all
  have Z: "node_at h z (\<lambda>d. root (kz d)) y ?r bz" and KZ: "\<And>d. tree_at h (kz d) z d"
    using KY [of ?r] kr by simp_all
  obtain n where n: "h x = Some n" "avl_child n = (\<lambda>d. root (k d))" "AVL_XPARENT n = up c" "AVL_XCHILD n = dir c"
    and gx: "good_addr x" using X by (auto simp: node_at_def)
  obtain m where m: "h y = Some m" "avl_child m = (\<lambda>d. root (ky d))" "AVL_XBALANCE m = by"
    and gy: "good_addr y" using Y by (auto simp: node_at_def)
  obtain q where q: "h z = Some q" "avl_child q = (\<lambda>d. root (kz d))" "AVL_XBALANCE q = bz"
    and gz: "good_addr z" using Z by (auto simp: node_at_def)
  have xk: "x \<notin> set (inorder (k d))" for d by (rule distinct_Nd(1) [OF D])
  have in_y: "a \<in> set (inorder (ky d)) \<Longrightarrow> a \<in> set (inorder (k l))" for a d
    using kl by (simp only: in_Nd)
  have in_z: "a \<in> set (inorder (kz d)) \<Longrightarrow> a \<in> set (inorder (ky ?r))" for a d
    using kr by (simp only: in_Nd)
  have yl: "y \<in> set (inorder (k l))" using kl by simp
  have zr: "z \<in> set (inorder (ky ?r))" using kr by simp
  have Dl: "distinct (inorder (Nd ky y by))" using distinct_Nd(2) [OF D, of l] kl by simp
  have Dz: "distinct (inorder (Nd kz z bz))" using distinct_Nd(2) [OF Dl, of ?r] kr by simp
  have yky: "y \<notin> set (inorder (ky d))" for d by (rule distinct_Nd(1) [OF Dl])
  have zkz: "z \<notin> set (inorder (kz d))" for d by (rule distinct_Nd(1) [OF Dz])
  have xky: "x \<notin> set (inorder (ky d))" for d using xk [of l] in_y by blast
  have xkz: "x \<notin> set (inorder (kz d))" "y \<notin> set (inorder (kz d))" for d using xky yky in_z by blast+
  have ne: "x \<noteq> y" "x \<noteq> z" "y \<noteq> z" using xk [of l] yl xky zr yky by blast+
  have sep: "a \<notin> set (inorder (k ?r))" if "a \<in> set (inorder (k l))" for a
    using distinct_Nd(3) [OF D that] .
  have sepy: "a \<notin> set (inorder (ky ?r))" if "a \<in> set (inorder (ky l))" for a
    using distinct_Nd(3) [OF Dl that] .
  have sepz: "a \<notin> set (inorder ?R)" if "a \<in> set (inorder ?L)" for a
    using distinct_Nd(3) [OF Dz that] .
  define h1 where "h1 = h(x \<mapsto> set_avl_child l (root ?R) n)"
  have "tree_at h1 ?R z ?r"
    by (rule tree_at_keep [OF KZ]) (use xkz in \<open>auto simp: h1_def\<close>)
  then obtain h2 where h2: "relink (root ?R) x l h1 = Inr h2" "tree_at h2 ?R x l"
    "\<And>a. a \<notin> set (inorder ?R) \<Longrightarrow> h2 a = h1 a"
    using relink_tree distinct_Nd(2) [OF Dz, of ?r] gx unfolding good_addr_def by blast
  define h2' where "h2' = h2(y \<mapsto> set_avl_child ?r (root ?L) m)"
  have "tree_at h2' ?L z l"
    by (rule tree_at_keep [OF KZ]) (use xkz sepz h2(3) in \<open>auto simp: h1_def h2'_def\<close>)
  then obtain h3 where h3: "relink (root ?L) y ?r h2' = Inr h3" "tree_at h3 ?L y ?r"
    "\<And>a. a \<notin> set (inorder ?L) \<Longrightarrow> h3 a = h2' a"
    using relink_tree distinct_Nd(2) [OF Dz, of l] gy unfolding good_addr_def by blast
  have h2y: "h2 y = Some m" using h2(3) xkz m(1) ne by (simp add: h1_def)
  have h3x: "h3 x = Some (set_avl_child l (root ?R) n)" and h3y: "h3 y = Some (set_avl_child ?r (root ?L) m)"
    and h3z: "h3 z = Some q"
    using h2(3) h3(3) xkz zkz ne q(1) by (simp_all add: h1_def h2'_def)
  define h4 where "h4 = h3(x \<mapsto> AVL_SETCHILD ?r (AVL_SETPARENT z (AVL_SETBALANCE bx (set_avl_child l (root ?R) n))),
          y \<mapsto> AVL_SETCHILD l (AVL_SETPARENT z (AVL_SETBALANCE ybal (set_avl_child ?r (root ?L) m))),
          z \<mapsto> AVL_SETCHILD (dir c) (AVL_SETPARENT (up c) (AVL_SETBALANCE 0
                (set_avl_child ?r x (set_avl_child l y q)))))"
  have out: "h4 a = h a" if "a \<noteq> x" "a \<noteq> y" "a \<notin> set (inorder (ky ?r))" for a
  proof -
    have "a \<notin> set (inorder (kz d))" "a \<noteq> z" for d using that(3) in_z zr by blast+
    then show ?thesis using that(1,2) h2(3) [of a] h3(3) [of a] by (simp add: h4_def h1_def h2'_def)
  qed
  have not_neg: "(\<not> 2 * avl_child2balance l < 0) = l" and half: "2 * avl_child2balance l div 2 = avl_child2balance l"
    by (cases l; simp)+
  have code: "avl_rotation h tr x (2 * avl_child2balance l) =
      bindr (set_link (up c) (dir c) z h4 tr) (\<lambda>(h, tr). Inr (True, h, tr))"
    unfolding avl_rotation_def not_neg half Let_def
    using n(1-4) m q kl kr yb h2(1) h2y h3(1) h3z double_steps [OF h3x h3y h3z ne, of l ybal ?r bx "up c" "dir c"]
    by (simp add: ld_def upd_eq [of _ x h] upd_eq [of _ y h2] flip: bx_def ybal_def h1_def h2'_def h4_def)
  have outc: "a \<noteq> x" "a \<notin> set (inorder (k d))" if "a \<in> set (cnodes c)" for a d
    using that dis in_Nd [of a k d x b] by auto
  have "h4 a = h a" if "a \<in> set (cnodes c)" for a
    using outc [OF that] in_y yl by (intro out) auto
  then have "ctx_at h4 c x" using ctx ctx_at_cong [of c h4 h x] by blast
  then obtain h5 where h5: "set_link (up c) (dir c) z h4 tr =
      Inr (h5, if c = [] then tr\<lparr>avl_root := z\<rparr> else tr)" "ctx_at h5 c z"
    "\<And>a. a \<notin> set (cnodes c) \<Longrightarrow> h5 a = h4 a"
    using set_link_ctx Dc by blast
  have keep: "h5 a = h a" if "a \<notin> set (cnodes c)" "a \<noteq> x" "a \<noteq> y" "a \<notin> set (inorder (ky ?r))" for a
    using h5(3) out that by simp
  have in_k: "a \<notin> set (cnodes c)" "a \<noteq> x" if "a \<in> set (inorder (k d))" for a d
    using outc(2) that xk [of d] by blast+
  have in_kz: "a \<notin> set (cnodes c)" "a \<noteq> x" "a \<noteq> y" "a \<noteq> z" if "a \<in> set (inorder (kz d))" for a d
    using in_k [of a l] in_y [OF in_z [OF that]] that xkz zkz by blast+
  have cx: "x \<notin> set (cnodes c)" "y \<notin> set (cnodes c)" "z \<notin> set (cnodes c)"
    using outc yl in_y [OF zr] by blast+
  have t1: "tree_at h5 (k ?r) x ?r"
    by (rule tree_at_keep [OF K]) (use in_k sep in_y yl keep in metis)
  have t2: "tree_at h5 ?R x l"
  proof (rule tree_at_keep [OF h2(2)])
    fix a assume a: "a \<in> set (inorder ?R)"
    then have "a \<notin> set (inorder ?L)" using sepz by blast
    then show "h5 a = h2 a" using h5(3) h3(3) in_kz [OF a] by (simp add: h4_def h2'_def)
  qed
  have t3: "tree_at h5 ?L y ?r"
    by (rule tree_at_keep [OF h3(2)]) (use h5(3) in_kz in \<open>simp add: h4_def\<close>)
  have t4: "tree_at h5 (ky l) y l"
    by (rule tree_at_keep [OF KY]) (use in_k [of _ l] in_y yky sepy keep in metis)
  have nx: "node_at h5 x (\<lambda>d. root ((k(l := ?R)) d)) z ?r bx"
  proof (rule node_atI [OF _ gx])
    show "h5 x = Some (AVL_SETCHILD ?r (AVL_SETPARENT z (AVL_SETBALANCE bx (set_avl_child l (root ?R) n))))"
      using h5(3) [OF cx(1)] ne by (simp add: h4_def)
  qed (use gz n bals in \<open>auto simp: good_addr_def pcb.field_simps fun_eq_iff\<close>)
  have ny: "node_at h5 y (\<lambda>d. root ((ky(?r := ?L)) d)) z l ybal"
  proof (rule node_atI [OF _ gy])
    show "h5 y = Some (AVL_SETCHILD l (AVL_SETPARENT z (AVL_SETBALANCE ybal (set_avl_child ?r (root ?L) m))))"
      using h5(3) [OF cx(2)] ne by (simp add: h4_def)
  qed (use gz m bals in \<open>auto simp: good_addr_def pcb.field_simps fun_eq_iff\<close>)
  have nz: "node_at h5 z ((\<lambda>_. x)(l := y)) (up c) (dir c) 0"
  proof (rule node_atI [OF _ gz])
    show "h5 z = Some (AVL_SETCHILD (dir c) (AVL_SETPARENT (up c) (AVL_SETBALANCE 0
                (set_avl_child ?r x (set_avl_child l y q)))))"
      using h5(3) [OF cx(3)] ne by (simp add: h4_def)
  qed (use up_aligned [OF ctx] q in \<open>auto simp: pcb.field_simps fun_eq_iff bal_ok_def\<close>)
  have ch: "(\<lambda>d. root (((\<lambda>_. Nd (k(l := ?R)) x bx)(l := Nd (ky(?r := ?L)) y ybal)) d)) = (\<lambda>_. x)(l := y)"
    by (auto simp: fun_eq_iff)
  have T: "tree_at h5 (rot2 l k x ky y kz z bz) (up c) (dir c)"
    unfolding rot2_def tree_at_Nd bx_def [symmetric] ybal_def [symmetric] ch
    using nx ny nz t1 t2 t3 t4 by (auto simp: all_other [where d = l])
  have "at_pos h5 (if c = [] then tr\<lparr>avl_root := z\<rparr> else tr) c (rot2 l k x ky y kz z bz)"
    by (rule at_pos_replace [OF P _ T inorder_rot2 [where k = k and l = l and ky = ky, OF kl kr]])
      (use h5(2) in \<open>simp_all add: rot2_def\<close>)
  moreover have "same_elsewhere (set (around c (inorder (Nd k x b)))) h h5"
    unfolding same_elsewhere_def set_around
    using keep in_Nd [of _ k l x b] in_y yl by (metis UnCI in_set_conv_decomp inorder.simps(2))
  ultimately show ?thesis using code h5(1) by auto
qed

section \<open>Rotation restores the balance\<close>

text \<open>
  The two cases together, as the loops use it: \<open>x\<close> has balanced subtrees, the one on side \<open>l\<close>
  two higher. The result says whether the subtree became lower than it was with \<open>x\<close> on top.
\<close>

lemma avl_rotation_ok:
  assumes P: "at_pos h tr c (Nd k x b)" and bal: "\<And>d. avl (k d)"
    and high: "height (k l) = height (k (\<not> l)) + 2"
  shows "\<exists>h' tr' T. avl_rotation h tr x (2 * avl_child2balance l) = Inr (root_bal (k l) \<noteq> 0, h', tr') \<and>
    at_pos h' tr' c T \<and> avl T \<and> inorder T = inorder (Nd k x b) \<and>
    height T = height (k l) + (if root_bal (k l) = 0 then 1 else 0) \<and>
    same_elsewhere (set (around c (inorder (Nd k x b)))) h h' \<and> tr' = tr\<lparr>avl_root := avl_root tr'\<rparr>"
proof -
  obtain ky y yb where kl: "k l = Nd ky y yb" using high by (cases "k l") auto
  show ?thesis
  proof (cases "yb = - avl_child2balance l")
    case False
    define cb where "cb = yb - avl_child2balance l"
    note a = avl_rot1 [where k = k and l = l, OF kl bal high False cb_def]
    obtain h' tr' where "avl_rotation h tr x (2 * avl_child2balance l) = Inr (cb = 0, h', tr')"
      "at_pos h' tr' c (rot1 l k x ky y cb)" "same_elsewhere (set (around c (inorder (Nd k x b)))) h h'"
      "tr' = tr\<lparr>avl_root := avl_root tr'\<rparr>"
      using avl_rotation_single [where k = k and l = l, OF P kl False cb_def a(4,5)] by blast
    moreover have "inorder (rot1 l k x ky y cb) = inorder (Nd k x b)"
      using kl by (rule inorder_rot1)
    ultimately show ?thesis
      using a(1-3) kl by (intro exI [of _ h'] exI [of _ tr'] exI [of _ "rot1 l k x ky y cb"])
        (simp del: inorder.simps)
  next
    case True
    have "yb = int (height (ky True)) - int (height (ky False))"
      using bal [of l] kl by (simp add: balance_def)
    then have "height (ky (\<not> l)) \<noteq> 0"
      using True by (cases l) (auto simp del: height_0_iff)
    then obtain kz z bz where kr: "ky (\<not> l) = Nd kz z bz" by (cases "ky (\<not> l)") auto
    note a = avl_rot2 [where k = k and l = l and ky = ky, OF kl kr bal high True]
    obtain h' tr' where "avl_rotation h tr x (2 * avl_child2balance l) = Inr (True, h', tr')"
      "at_pos h' tr' c (rot2 l k x ky y kz z bz)" "same_elsewhere (set (around c (inorder (Nd k x b)))) h h'"
      "tr' = tr\<lparr>avl_root := avl_root tr'\<rparr>"
      using avl_rotation_double [where k = k and l = l and ky = ky, OF P kl kr True] by blast
    moreover have "inorder (rot2 l k x ky y kz z bz) = inorder (Nd k x b)"
      using kl kr by (rule inorder_rot2)
    ultimately show ?thesis
      using a kl by (intro exI [of _ h'] exI [of _ tr'] exI [of _ "rot2 l k x ky y kz z bz"])
        (simp del: inorder.simps)
  qed
qed

end
