(* ===== verification/Avl_Insert.thy ===== *)
theory Avl_Insert
  imports Avl_Rotate
begin

text \<open>
  \<open>avl_insert\<close> (\<open>src/lib/libavl/avl.c\<close>): hanging a new node into an empty place of a balanced
  tree, and the loop that climbs from there, leave a balanced tree with the new node at that
  place of the order and all others where they were.
\<close>

lemma same_elsewhere_fun_upd: "x \<in> A \<Longrightarrow> same_elsewhere A h (h(x := v))"
  by (auto simp: same_elsewhere_def)

lemma at_pos_node:
  assumes "at_pos h tr (Fr d x b s # c) t"
  obtains n where "h x = Some n" and "x \<noteq> 0" and "AVL_XBALANCE n = b" and "AVL_XPARENT n = up c"
    and "AVL_XCHILD n = dir c" and "avl_child n = (\<lambda>_. root s)(d := root t)"
  using at_posD(1) [OF assms] by (auto simp: node_at_def good_addr_def)

lemma set_balance_pos:
  assumes "at_pos h tr c (Nd k x b)" and "h x = Some n" and "bal_ok b'"
  shows "at_pos (h(x \<mapsto> AVL_SETBALANCE b' n)) tr c (Nd k x b')"
proof -
  let ?h = "h(x \<mapsto> AVL_SETBALANCE b' n)"
  note P = at_posD [OF assms(1)]
  have X: "node_at h x (\<lambda>d. root (k d)) (up c) (dir c) b" using P(2) by simp
  have xk: "x \<notin> set (inorder (k d))" for d by (rule distinct_Nd(1) [OF P(3)])
  have "tree_at ?h (k d) x d" for d
    by (rule tree_at_keep [where h = h]) (use P(2) xk in \<open>auto\<close>)
  moreover have "node_at ?h x (\<lambda>d. root (k d)) (up c) (dir c) b'"
    using X assms(2,3) by (auto simp: node_at_def pcb.field_simps fun_eq_iff)
  moreover have "ctx_at ?h c x"
    using P(1,5) by (subst ctx_at_cong [where h = h]) auto
  ultimately show ?thesis
    using P(1,3-6) by (simp add: at_pos_def distinct_around)
qed

section \<open>Climbing after an insertion\<close>

text \<open>
  The subtree in the hole has grown by one over the height \<open>n\<close> the context is balanced for;
  unless it is a single node, it leans to one side.
\<close>

lemma insert_up_ok:
  "at_pos h tr c t \<Longrightarrow> avl t \<Longrightarrow> avl_ctx n c \<Longrightarrow> height t = Suc n \<Longrightarrow> root_bal t \<noteq> 0 \<or> n = 0 \<Longrightarrow>
   \<exists>h' tr' T. insert_up h tr (up c) (dir c) = Some (Inr (h', tr')) \<and> whole h' tr' T \<and> avl T \<and>
     inorder T = around c (inorder t) \<and> same_elsewhere (set (around c (inorder t))) h h' \<and>
     tr' = tr\<lparr>avl_root := avl_root tr'\<rparr>"
proof (induction c arbitrary: h t n)
  case Nil
  then show ?case
    using whole_plug [of h tr "[]" t]
    by (intro exI [of _ h] exI [of _ tr] exI [of _ t]) (simp add: insert_up.simps [of h tr] same_elsewhere_def)
next
  case (Cons f c)
  obtain d x b s where f: "f = Fr d x b s" by (cases f)
  let ?k = "(\<lambda>_. s)(d := t)" and ?c2b = "avl_child2balance d"
  have P: "at_pos h tr c (Nd ?k x b)" using Cons.prems(1) by (simp add: f at_pos_Cons)
  have ctx: "avl s" "b = ?c2b * (int n - int (height s))" "bal_ok b" "avl_ctx (Suc (max n (height s))) c"
    using Cons.prems(3) unfolding f avl_ctx.simps by blast+
  obtain m where m: "h x = Some m" "x \<noteq> 0" "AVL_XBALANCE m = b" "AVL_XPARENT m = up c" "AVL_XCHILD m = dir c"
    using Cons.prems(1) at_pos_node unfolding f by blast
  have nodes: "around c (inorder (Nd ?k x b')) = around (f # c) (inorder t)" for b'
    by (simp add: f inorder_side [of ?k x b' d] del: inorder.simps)
  have hgt: "height (Nd ?k x b') = Suc (max (Suc n) (height s))" for b'
    using Cons.prems(4) height_side [of ?k x b' d] by simp
  have av: "avl (Nd ?k x b')" if "b' = ?c2b * (int (Suc n) - int (height s))" "bal_ok b'" for b'
    using that Cons.prems(2,4) ctx(1) balance_side [of ?k d] by (auto simp: avl_Nd all_other [where d = d])
  have xin: "x \<in> set (around (f # c) (inorder t))" by (simp add: f set_around)
  have code: "insert_up h tr (up (f # c)) (dir (f # c)) =
     (if b + ?c2b = 0 then Some (Inr (h(x \<mapsto> AVL_SETBALANCE 0 m), tr))
      else if b \<noteq> 0 then
        (case avl_rotation h tr x (b + ?c2b) of Inl e \<Rightarrow> Some (Inl e) | Inr (_, h, tree) \<Rightarrow> Some (Inr (h, tree)))
      else insert_up (h(x \<mapsto> AVL_SETBALANCE ?c2b m)) tr (up c) (dir c))"
    using m ctx(3) pcb.parent_set_bal [of ?c2b m] pcb.which_set_bal [of ?c2b m]
    by (subst insert_up.simps) (auto simp: f ld_def Let_def bal_ok_def avl_child2balance_def)
  consider (even) "b + ?c2b = 0" | (lean) "b = 0" | (rotate) "b = ?c2b"
    using ctx(3) by (cases d) (auto simp: bal_ok_def)
  then show ?case
  proof cases
    case even
    then have "int (height s) = int (Suc n)" using ctx(2) by (cases d) auto
    then have n: "height s = Suc n" by linarith
    have Q: "at_pos (h(x \<mapsto> AVL_SETBALANCE 0 m)) tr c (Nd ?k x 0)"
      by (rule set_balance_pos [OF P m(1)]) (simp add: bal_ok_def)
    have "avl (Nd ?k x 0)" by (rule av) (use n in \<open>simp_all add: bal_ok_def\<close>)
    then have "avl (plug c (Nd ?k x 0))"
      using ctx(4) hgt n by (simp add: avl_plug del: avl.simps height.simps)
    moreover have "whole (h(x \<mapsto> AVL_SETBALANCE 0 m)) tr (plug c (Nd ?k x 0))"
      using Q by (simp add: whole_plug)
    moreover have "inorder (plug c (Nd ?k x 0)) = around (f # c) (inorder t)"
      by (simp add: inorder_plug nodes del: inorder.simps)
    moreover have "insert_up h tr (up (f # c)) (dir (f # c)) = Some (Inr (h(x \<mapsto> AVL_SETBALANCE 0 m), tr))"
      using code even by simp
    ultimately show ?thesis
      using same_elsewhere_fun_upd [OF xin] by fastforce
  next
    case lean
    then have n: "height s = n" using ctx(2) by (cases d) auto
    have b1: "bal_ok ?c2b" by (simp add: bal_ok_def avl_child2balance_def)
    have Q: "at_pos (h(x \<mapsto> AVL_SETBALANCE ?c2b m)) tr c (Nd ?k x ?c2b)"
      by (rule set_balance_pos [OF P m(1) b1])
    have "avl (Nd ?k x ?c2b)" by (rule av [OF _ b1]) (simp add: n)
    moreover have "avl_ctx (Suc n) c" "height (Nd ?k x ?c2b) = Suc (Suc n)"
      using ctx(4) n hgt [of ?c2b] by simp_all
    moreover have "root_bal (Nd ?k x ?c2b) \<noteq> 0 \<or> Suc n = 0" by (simp add: avl_child2balance_def)
    ultimately obtain h' tr' T where
      "insert_up (h(x \<mapsto> AVL_SETBALANCE ?c2b m)) tr (up c) (dir c) = Some (Inr (h', tr'))" "whole h' tr' T" "avl T"
      "inorder T = around c (inorder (Nd ?k x ?c2b))"
      "same_elsewhere (set (around c (inorder (Nd ?k x ?c2b)))) (h(x \<mapsto> AVL_SETBALANCE ?c2b m)) h'"
      "tr' = tr\<lparr>avl_root := avl_root tr'\<rparr>"
      using Cons.IH [OF Q, of "Suc n"] by blast
    moreover have "b + ?c2b \<noteq> 0" using lean by (simp add: avl_child2balance_def)
    ultimately show ?thesis
      using code lean nodes same_elsewhere_trans [OF same_elsewhere_fun_upd [OF xin]] by auto
  next
    case rotate
    then have n: "n = Suc (height s)" using ctx(2) by (cases d) auto
    have "\<And>e. avl (?k e)" using Cons.prems(2) ctx(1) by auto
    moreover have "height (?k d) = height (?k (\<not> d)) + 2" using Cons.prems(4) n by simp
    ultimately obtain h' tr' T where T: "avl_rotation h tr x (2 * ?c2b) = Inr (root_bal t \<noteq> 0, h', tr')"
      "at_pos h' tr' c T" "avl T" "inorder T = inorder (Nd ?k x b)"
      "height T = height t + (if root_bal t = 0 then 1 else 0)"
      "same_elsewhere (set (around c (inorder (Nd ?k x b)))) h h'" "tr' = tr\<lparr>avl_root := avl_root tr'\<rparr>"
      using avl_rotation_ok [OF P, of d] by auto
    have "root_bal t \<noteq> 0" using Cons.prems(5) n by simp
    then have "avl (plug c T)" using T(3,5) ctx(4) n Cons.prems(4) by (simp add: avl_plug)
    moreover have "insert_up h tr (up (f # c)) (dir (f # c)) = Some (Inr (h', tr'))"
      using code rotate T(1) by (simp add: avl_child2balance_def split: if_splits)
    ultimately show ?thesis
      using T nodes by (intro exI [of _ h'] exI [of _ tr'] exI [of _ "plug c T"])
        (simp add: whole_plug inorder_plug del: inorder.simps)
  qed
qed

section \<open>Inserting at a cookie\<close>

definition new_leaf :: "addr \<Rightarrow> atree" where
  "new_leaf x = Nd (\<lambda>_. Lf) x 0"

lemma new_leaf_simps [simp]:
  "inorder (new_leaf x) = [x]" "root (new_leaf x) = x" "height (new_leaf x) = 1" "avl (new_leaf x)"
  by (simp_all add: new_leaf_def balance_def bal_ok_def)

text \<open>The cookie of an empty place: the node above it and the side it is on.\<close>

definition cookie :: "ctx \<Rightarrow> u64" where
  "cookie c = AVL_MKINDEX (up c) (dir c)"

lemma avl_insert_ok:
  assumes P: "at_pos h tr c Lf" and bal: "avl_ctx 0 c"
    and new: "good_addr x" "x \<notin> set (cnodes c)" "h x \<noteq> None"
    and d: "x = AVL_DATA2NODE data (avl_offset tr)" "data AND 7 = 0"
  shows "\<exists>h' tr' T. avl_insert h tr data (cookie c) = Some (Inr (h', tr')) \<and> whole h' tr' T \<and> avl T \<and>
     inorder T = around c [x] \<and> same_elsewhere (set (around c [x])) h h' \<and>
     tr' = tr\<lparr>avl_numnodes := avl_numnodes tr + 1, avl_root := avl_root tr'\<rparr>"
proof -
  let ?tr = "tr\<lparr>avl_numnodes := avl_numnodes tr + 1\<rparr>"
  obtain n where n: "h x = Some n" using new(3) by auto
  define n' where "n' = AVL_SETPARENT (up c) (AVL_SETBALANCE 0 (AVL_SETCHILD (dir c)
      (set_avl_child True 0 (set_avl_child False 0 n))))"
  define h1 where "h1 = h(x \<mapsto> n')"
  have Pc: "ctx_at h c 0" "distinct (cnodes c)" "avl_root tr = ctx_root c 0" using at_posD [OF P] by simp_all
  note upc = up_aligned [OF Pc(1)]
  have ctx1: "ctx_at h1 c 0" using Pc(1) new(2) by (subst ctx_at_cong [where h = h]) (auto simp: h1_def)
  obtain h2 where h2: "set_link (up c) (dir c) x h1 ?tr =
      Inr (h2, if c = [] then ?tr\<lparr>avl_root := x\<rparr> else ?tr)" "ctx_at h2 c x" "\<And>a. a \<notin> set (cnodes c) \<Longrightarrow> h2 a = h1 a"
    using set_link_ctx [OF ctx1 Pc(2)] by blast
  let ?tr2 = "if c = [] then ?tr\<lparr>avl_root := x\<rparr> else ?tr"
  have link: "(if up c \<noteq> 0 then
        bindr (ld h1 (up c)) (\<lambda>p. bindr (verify (avl_child p (dir c) = 0)) (\<lambda>_.
          Inr (h1(up c \<mapsto> set_avl_child (dir c) x p), ?tr)))
      else bindr (verify (avl_root ?tr = 0)) (\<lambda>_. Inr (h1, ?tr\<lparr>avl_root := x\<rparr>))) = Inr (h2, ?tr2)"
    using h2(1) ctx1 Pc(3) by (cases c rule: up.cases)
      (auto simp: set_link_def upd_eq ld_def node_at_def good_addr_def split: option.splits)
  have "avl_child n' = (\<lambda>_. 0)" "AVL_XPARENT n' = up c" "AVL_XCHILD n' = dir c" "AVL_XBALANCE n' = 0"
    using upc by (auto simp: n'_def fun_eq_iff pcb.field_simps bal_ok_def)
  then have "node_at h2 x (\<lambda>_. 0) (up c) (dir c) 0"
    using h2(3) [OF new(2)] new(1) by (simp add: node_at_def h1_def)
  then have "at_pos h2 ?tr2 c (new_leaf x)"
    using h2(2) Pc new(2) by (cases c rule: up.cases) (auto simp: at_pos_def distinct_around new_leaf_def)
  from insert_up_ok [OF this _ bal] obtain h' tr' T where
    T: "insert_up h2 ?tr2 (up c) (dir c) = Some (Inr (h', tr'))" "whole h' tr' T" "avl T"
      "inorder T = around c [x]" "same_elsewhere (set (around c [x])) h2 h'"
      "tr' = ?tr2\<lparr>avl_root := avl_root tr'\<rparr>"
    by auto
  have "avl_insert h tr data (cookie c) = obind (Some (if up c \<noteq> 0 then
        bindr (ld h1 (up c)) (\<lambda>p. bindr (verify (avl_child p (dir c) = 0)) (\<lambda>_.
          Inr (h1(up c \<mapsto> set_avl_child (dir c) x p), ?tr)))
      else bindr (verify (avl_root ?tr = 0)) (\<lambda>_. Inr (h1, ?tr\<lparr>avl_root := x\<rparr>))))
      (\<lambda>(h, tree). insert_up h tree (up c) (dir c))"
    using d(2) n upc
    by (simp add: avl_insert_def cookie_def upd_eq d(1) [symmetric] n'_def [symmetric] h1_def [symmetric] Let_def
        cong: if_cong split del: if_split)
  then have "avl_insert h tr data (cookie c) = insert_up h2 ?tr2 (up c) (dir c)"
    unfolding link by simp
  moreover have "same_elsewhere (set (around c [x])) h h2"
    using h2(3) by (auto simp: same_elsewhere_def set_around h1_def)
  ultimately show ?thesis
    using T same_elsewhere_trans by (intro exI [of _ h'] exI [of _ tr'] exI [of _ T]) (auto split: if_splits)
qed

end
