(* ===== verification/Avl_Find.thy ===== *)
theory Avl_Find
  imports Avl_Insert
begin

text \<open>
  \<open>avl_find\<close> and \<open>avl_add\<close> (\<open>src/lib/libavl/avl.c\<close>) on a tree whose nodes are in the order of
  the comparison function, and the abstract state of a tree: the list of its data.
\<close>

section \<open>Searching a list in order\<close>

text \<open>
  \<open>f a\<close> is what comparing the value with node \<open>a\<close> returns. Along the nodes it is first 1, then
  0 at most once, then -1.
\<close>

definition separates :: "(addr \<Rightarrow> int) \<Rightarrow> addr list \<Rightarrow> bool" where
  "separates f xs \<longleftrightarrow> (\<forall>a\<in>set xs. f a \<in> {-1, 0, 1}) \<and> sorted_wrt (\<lambda>a b. f a \<le> 0 \<longrightarrow> f b < 0) xs"

lemma separates_append:
  "separates f (xs @ x # ys) \<longleftrightarrow> separates f xs \<and> separates f ys \<and> f x \<in> {-1, 0, 1} \<and>
     (\<forall>a\<in>set xs. (f a \<le> 0 \<longrightarrow> f x < 0) \<and> (\<forall>b\<in>set ys. f a \<le> 0 \<longrightarrow> f b < 0)) \<and>
     (\<forall>b\<in>set ys. f x \<le> 0 \<longrightarrow> f b < 0)"
  by (auto simp: separates_def sorted_wrt_append)

definition before :: "(addr \<Rightarrow> int) \<Rightarrow> addr list \<Rightarrow> addr list" where
  "before f xs = filter (\<lambda>a. 0 < f a) xs"

definition behind :: "(addr \<Rightarrow> int) \<Rightarrow> addr list \<Rightarrow> addr list" where
  "behind f xs = filter (\<lambda>a. f a < 0) xs"

lemma separates_left:
  assumes "separates f (xs @ x # ys)" and "f x < 0"
  shows "before f (xs @ x # ys) = before f xs" and "behind f (xs @ x # ys) = behind f xs @ x # ys"
    and "\<forall>a\<in>set ys. f a \<noteq> 0"
  using assms by (force simp: separates_append before_def behind_def filter_empty_conv filter_id_conv)+

lemma separates_right:
  assumes "separates f (xs @ x # ys)" and "0 < f x"
  shows "before f (xs @ x # ys) = xs @ x # before f ys" and "behind f (xs @ x # ys) = behind f ys"
    and "\<forall>a\<in>set xs. f a \<noteq> 0"
proof -
  have "0 < f a" if "a \<in> set xs" for a
    using assms that by (auto simp: separates_append)
  then have "\<forall>a\<in>set xs. 0 < f a" by blast
  then show "before f (xs @ x # ys) = xs @ x # before f ys" "behind f (xs @ x # ys) = behind f ys"
    "\<forall>a\<in>set xs. f a \<noteq> 0"
    using assms(2) by (force simp: before_def behind_def filter_empty_conv filter_id_conv)+
qed

section \<open>avl_find\<close>

definition cmp_at :: "compar_env \<Rightarrow> avl_tree \<Rightarrow> addr \<Rightarrow> addr \<Rightarrow> int" where
  "cmp_at call tr v a = call (avl_compar tr) v (AVL_NODE2DATA a (avl_offset tr))"

lemma tree_at_child:
  assumes "tree_at h (Nd k x b) p c"
  obtains n where "h x = Some n" and "x \<noteq> 0" and "avl_child n = (\<lambda>d. root (k d))"
proof -
  obtain n where "h x = Some n" "x \<noteq> 0" "avl_child n = (\<lambda>d. root (k d))"
    using assms by (auto simp: node_at_def good_addr_def)
  then show thesis by (rule that)
qed

text \<open>
  The loop from a subtree in its context: it ends at the one node that compares equal, or at
  the empty place that has the smaller nodes before it and the greater ones behind it.
\<close>

lemma find_loop_ok:
  "tree_at h t (up c) (dir c) \<Longrightarrow> separates (cmp_at call tr v) (inorder t) \<Longrightarrow>
   (\<exists>a\<in>set (inorder t). cmp_at call tr v a = 0 \<and>
      find_loop call h tr v (root t) (up c) (dir c) = Some (Inr (AVL_NODE2DATA a (avl_offset tr), None))) \<or>
   (\<forall>a\<in>set (inorder t). cmp_at call tr v a \<noteq> 0) \<and>
   (\<exists>c'. find_loop call h tr v (root t) (up c) (dir c) = Some (Inr (0, Some (cookie c'))) \<and>
      plug c' Lf = plug c t \<and>
      (\<forall>ys. around c' ys = around c (before (cmp_at call tr v) (inorder t) @ ys @
         behind (cmp_at call tr v) (inorder t))))"
proof (induction t arbitrary: c)
  case Lf
  have "find_loop call h tr v 0 (up c) (dir c) = Some (Inr (0, Some (cookie c)))"
    by (simp add: find_loop.simps [of _ _ _ _ 0] cookie_def)
  then show ?case by (auto simp: before_def behind_def)
next
  case (Nd k x b)
  let ?f = "cmp_at call tr v"
  obtain n where n: "h x = Some n" "x \<noteq> 0" "avl_child n = (\<lambda>d. root (k d))"
    using Nd.prems(1) by (rule tree_at_child)
  have sep: "separates ?f (inorder (k False) @ x # inorder (k True))" using Nd.prems(2) by simp
  then have fx: "?f x \<in> {-1, 0, 1}" by (auto simp: separates_append)
  have sepd: "separates ?f (inorder (k d))" for d
    using sep by (cases d) (simp_all add: separates_append)
  have unf: "find_loop call h tr v x (up c) (dir c) =
      (if ?f x = 0 then Some (Inr (AVL_NODE2DATA x (avl_offset tr), None))
       else find_loop call h tr v (root (k (0 < ?f x))) x (0 < ?f x))"
    using n fx by (subst find_loop.simps)
      (auto simp: cmp_at_def Let_def ld_def avl_balance2child_def)
  show ?case
  proof (cases "?f x = 0")
    case True
    then show ?thesis using unf by auto
  next
    case False
    define d where "d = (0 < ?f x)"
    have go: "find_loop call h tr v x (up c) (dir c) = find_loop call h tr v (root (k d)) x d"
      using unf False by (simp add: d_def)
    let ?c = "Fr d x b (k (\<not> d)) # c"
    have "tree_at h (k d) (up ?c) (dir ?c)" using Nd.prems(1) by simp
    note IH = Nd.IH [OF this sepd]
    have rest: "before ?f (inorder (Nd k x b)) @ ys @ behind ?f (inorder (Nd k x b)) =
        side d (before ?f (inorder (k d)) @ ys @ behind ?f (inorder (k d))) x (inorder (k (\<not> d)))"
      and other: "\<forall>a\<in>set (inorder (k (\<not> d))). ?f a \<noteq> 0" for ys
      using separates_left [OF sep] separates_right [OF sep] False
      by (cases "0 < ?f x"; simp add: d_def side_def)+
    have nodes: "a \<in> set (inorder (Nd k x b)) \<longleftrightarrow> a = x \<or> a \<in> set (inorder (k d)) \<or> a \<in> set (inorder (k (\<not> d)))" for a
      by (cases d) auto
    have "fill (Fr d x b (k (\<not> d))) (k d) = Nd k x b"
      by (cases d) (auto simp: fun_eq_iff)
    then have pl: "plug ?c (k d) = plug c (Nd k x b)" by simp
    from IH show ?thesis
    proof
      assume "\<exists>a\<in>set (inorder (k d)). ?f a = 0 \<and>
        find_loop call h tr v (root (k d)) (up ?c) (dir ?c) = Some (Inr (AVL_NODE2DATA a (avl_offset tr), None))"
      then obtain a where "a \<in> set (inorder (k d))" "?f a = 0"
        "find_loop call h tr v x (up c) (dir c) = Some (Inr (AVL_NODE2DATA a (avl_offset tr), None))"
        using go by auto
      then show ?thesis using in_Nd [of a k d x b] by (intro disjI1 bexI [of _ a]) simp_all
    next
      assume "(\<forall>a\<in>set (inorder (k d)). ?f a \<noteq> 0) \<and>
        (\<exists>c'. find_loop call h tr v (root (k d)) (up ?c) (dir ?c) = Some (Inr (0, Some (cookie c'))) \<and>
          plug c' Lf = plug ?c (k d) \<and>
          (\<forall>ys. around c' ys = around ?c (before ?f (inorder (k d)) @ ys @ behind ?f (inorder (k d)))))"
      then obtain c' where no: "\<forall>a\<in>set (inorder (k d)). ?f a \<noteq> 0"
        and c': "find_loop call h tr v x (up c) (dir c) = Some (Inr (0, Some (cookie c')))" "plug c' Lf = plug c (Nd k x b)"
          "\<And>ys. around c' ys = around ?c (before ?f (inorder (k d)) @ ys @ behind ?f (inorder (k d)))"
        using go pl by auto
      have "\<forall>a\<in>set (inorder (Nd k x b)). ?f a \<noteq> 0" unfolding Ball_def nodes using no other False by blast
      moreover have "around c' ys = around c (before ?f (inorder (Nd k x b)) @ ys @ behind ?f (inorder (Nd k x b)))" for ys
        by (simp only: c'(3) around.simps rest)
      ultimately show ?thesis using c'(1,2) by (intro disjI2 conjI exI [of _ c']) simp_all
    qed
  qed
qed

lemma avl_find_ok:
  assumes "whole h tr T" and "separates (cmp_at call tr v) (inorder T)"
  shows "(\<exists>a\<in>set (inorder T). cmp_at call tr v a = 0 \<and>
      avl_find call h tr v = Some (Inr (AVL_NODE2DATA a (avl_offset tr), None))) \<or>
   (\<forall>a\<in>set (inorder T). cmp_at call tr v a \<noteq> 0) \<and>
   (\<exists>c. avl_find call h tr v = Some (Inr (0, Some (cookie c))) \<and> plug c Lf = T \<and>
      (\<forall>ys. around c ys = before (cmp_at call tr v) (inorder T) @ ys @ behind (cmp_at call tr v) (inorder T)))"
  using find_loop_ok [of h T "[]" call tr v] assms by (simp add: whole_def avl_find_def)

end
