(* ===== verification/Avl_Spec.thy ===== *)
theory Avl_Spec
  imports Avl_Find
begin

text \<open>
  The abstract state of a tree of \<open>avl.c\<close>: the list of its data pointers, in the strict order of
  their keys. \<open>avl_holds\<close> relates it to the heap; \<open>avl_find\<close> and \<open>avl_add\<close> are specified over it.
\<close>

text \<open>The comparator helper of \<open>src/include/sys/avl.h\<close>, and comparators that are one.\<close>

definition AVL_CMP :: "'k::linorder \<Rightarrow> 'k \<Rightarrow> int" where
  "AVL_CMP a b = of_bool (a > b) - of_bool (a < b)"

lemma AVL_CMP_iff [simp]:
  "AVL_CMP a b = 0 \<longleftrightarrow> a = b" "0 < AVL_CMP a b \<longleftrightarrow> b < a" "AVL_CMP a b < 0 \<longleftrightarrow> a < b"
  "AVL_CMP a b \<le> 0 \<longleftrightarrow> a \<le> b" "0 \<le> AVL_CMP a b \<longleftrightarrow> b \<le> a" "AVL_CMP a b \<in> {- 1, 0, 1}"
  by (auto simp: AVL_CMP_def)

definition compar_is :: "compar_env \<Rightarrow> avl_tree \<Rightarrow> (addr \<Rightarrow> 'k::linorder) \<Rightarrow> bool" where
  "compar_is call tr key \<longleftrightarrow> (\<forall>a b. call (avl_compar tr) a b = AVL_CMP (key a) (key b))"

definition tree_data :: "avl_tree \<Rightarrow> atree \<Rightarrow> addr list" where
  "tree_data tr T = map (\<lambda>a. AVL_NODE2DATA a (avl_offset tr)) (inorder T)"

definition avl_holds :: "compar_env \<Rightarrow> (addr \<Rightarrow> 'k::linorder) \<Rightarrow> heap \<Rightarrow> avl_tree \<Rightarrow> addr list \<Rightarrow> bool" where
  "avl_holds call key h tr ds \<longleftrightarrow>
     (\<exists>T. whole h tr T \<and> avl T \<and> tree_data tr T = ds) \<and> compar_is call tr key \<and>
     sorted_wrt (\<lambda>a b. key a < key b) ds \<and> 0 \<notin> set ds \<and> aligned8 (avl_offset tr) \<and>
     unat (avl_numnodes tr) = length ds"

text \<open>A data object that may be put into the tree: its node is allocated and aligned.\<close>

definition addable :: "heap \<Rightarrow> avl_tree \<Rightarrow> addr \<Rightarrow> bool" where
  "addable h tr d \<longleftrightarrow> d \<noteq> 0 \<and> d AND 7 = 0 \<and> AVL_DATA2NODE d (avl_offset tr) \<noteq> 0 \<and>
     h (AVL_DATA2NODE d (avl_offset tr)) \<noteq> None"

lemma aligned8_dvd: "aligned8 p \<longleftrightarrow> 2 ^ 3 dvd p"
  unfolding aligned8_def masks(1) by (simp only: take_bit_eq_mask [symmetric] take_bit_eq_0_iff)

lemma aligned8_add: "aligned8 a \<Longrightarrow> aligned8 b \<Longrightarrow> aligned8 (a + b)"
  unfolding aligned8_dvd by (rule dvd_add)

lemma aligned8_diff: "aligned8 a \<Longrightarrow> aligned8 b \<Longrightarrow> aligned8 (a - b)"
  unfolding aligned8_dvd by (rule dvd_diff)

lemma addable_good: "addable h tr d \<Longrightarrow> aligned8 (avl_offset tr) \<Longrightarrow> good_addr (AVL_DATA2NODE d (avl_offset tr))"
  using aligned8_add [of d "avl_offset tr"] by (simp add: addable_def good_addr_def AVL_DATA2NODE_def aligned8_def)

lemma length_nodes:
  assumes "whole h tr T"
  shows "length (inorder T) < 2 ^ 64"
proof -
  have "set (inorder T) \<subseteq> UNIV - {0}"
    using assms tree_at_good [of h T 0 False] by (auto simp: whole_def good_addr_def)
  then have "card (set (inorder T)) \<le> card (UNIV - {0 :: addr})"
    by (intro card_mono) simp_all
  also have "\<dots> < 2 ^ 64" by (simp add: card_Diff_singleton card_word)
  finally show ?thesis using assms by (simp add: whole_def distinct_card)
qed

section \<open>Lookup\<close>

lemma cmp_key: "compar_is call tr key \<Longrightarrow> cmp_at call tr v a = AVL_CMP (key v) (key (AVL_NODE2DATA a (avl_offset tr)))"
  by (simp add: cmp_at_def compar_is_def)

lemma separates_sorted:
  "compar_is call tr key \<Longrightarrow> sorted_wrt (\<lambda>a b. key a < key b) (tree_data tr T) \<Longrightarrow>
   separates (cmp_at call tr v) (inorder T)"
  unfolding separates_def tree_data_def sorted_wrt_map
  by (auto simp: cmp_key simp del: insert_iff elim!: sorted_wrt_mono_rel [rotated])

lemma map_before: "compar_is call tr key \<Longrightarrow>
    map (\<lambda>a. AVL_NODE2DATA a (avl_offset tr)) (before (cmp_at call tr v) (inorder T)) =
    filter (\<lambda>d. key d < key v) (tree_data tr T)"
  by (simp add: before_def tree_data_def filter_map o_def cmp_key)

lemma map_behind: "compar_is call tr key \<Longrightarrow>
    map (\<lambda>a. AVL_NODE2DATA a (avl_offset tr)) (behind (cmp_at call tr v) (inorder T)) =
    filter (\<lambda>d. key v < key d) (tree_data tr T)"
  by (simp add: behind_def tree_data_def filter_map o_def cmp_key)

text \<open>What a lookup returns: the one element with the key of \<open>v\<close>, or none and a cookie.\<close>

lemma avl_find_holds:
  assumes "avl_holds call key h tr ds"
  shows "(\<exists>d\<in>set ds. key d = key v \<and> avl_find call h tr v = Some (Inr (d, None))) \<or>
    (\<forall>d\<in>set ds. key d \<noteq> key v) \<and> (\<exists>where. avl_find call h tr v = Some (Inr (0, Some where)))"
proof -
  obtain T where T: "whole h tr T" "tree_data tr T = ds" and c: "compar_is call tr key"
    and s: "sorted_wrt (\<lambda>a b. key a < key b) (tree_data tr T)"
    using assms by (auto simp: avl_holds_def)
  from avl_find_ok [OF T(1) separates_sorted [OF c s], of v] show ?thesis
  proof
    assume "\<exists>a\<in>set (inorder T). cmp_at call tr v a = 0 \<and>
      avl_find call h tr v = Some (Inr (AVL_NODE2DATA a (avl_offset tr), None))"
    then show ?thesis using T(2) by (auto simp: tree_data_def cmp_key [OF c])
  next
    assume "(\<forall>a\<in>set (inorder T). cmp_at call tr v a \<noteq> 0) \<and>
      (\<exists>c. avl_find call h tr v = Some (Inr (0, Some (cookie c))) \<and> plug c Lf = T \<and>
        (\<forall>ys. around c ys = before (cmp_at call tr v) (inorder T) @ ys @ behind (cmp_at call tr v) (inorder T)))"
    then show ?thesis using T(2) by (auto simp: tree_data_def cmp_key [OF c] eq_commute [of "key v"])
  qed
qed

section \<open>Insertion\<close>

text \<open>A tree header whose root and counter changed is for the same data type.\<close>

lemma tree_data_cong: "avl_offset tr' = avl_offset tr \<Longrightarrow> tree_data tr' T = tree_data tr T"
  by (simp add: tree_data_def)

lemma inorder_mem_data: "x \<in> set (inorder T) \<Longrightarrow> AVL_NODE2DATA x (avl_offset tr) \<in> set (tree_data tr T)"
  by (simp add: tree_data_def)

lemma avl_add_holds:
  assumes H: "avl_holds call key h tr ds" and d: "addable h tr d" and new: "\<forall>x\<in>set ds. key x \<noteq> key d"
  shows "\<exists>h' tr'. avl_add call h tr d = Some (Inr (h', tr')) \<and>
    avl_holds call key h' tr' (filter (\<lambda>x. key x < key d) ds @ d # filter (\<lambda>x. key d < key x) ds) \<and>
    avl_compar tr' = avl_compar tr \<and> avl_offset tr' = avl_offset tr \<and> dom h' = dom h"
proof -
  let ?x = "AVL_DATA2NODE d (avl_offset tr)" and ?D = "\<lambda>a. AVL_NODE2DATA a (avl_offset tr)"
  obtain T where T: "whole h tr T" "avl T" "tree_data tr T = ds" and c: "compar_is call tr key"
    and s: "sorted_wrt (\<lambda>a b. key a < key b) (tree_data tr T)" and z: "0 \<notin> set ds"
    and off: "aligned8 (avl_offset tr)" and num: "unat (avl_numnodes tr) = length ds"
    using H by (auto simp: avl_holds_def)
  have no: "\<not> (\<exists>a\<in>set (inorder T). cmp_at call tr d a = 0 \<and> P a)" for P
    using new inorder_mem_data [of _ T tr] T(3) by (force simp: cmp_key [OF c])
  from avl_find_ok [OF T(1) separates_sorted [OF c s], of d] no obtain cx where
    f: "avl_find call h tr d = Some (Inr (0, Some (cookie cx)))" and pl: "plug cx Lf = T"
    and ar: "\<And>ys. around cx ys = before (cmp_at call tr d) (inorder T) @ ys @ behind (cmp_at call tr d) (inorder T)"
    by blast
  have P: "at_pos h tr cx Lf" using T(1) pl whole_plug by metis
  have "avl_ctx 0 cx" using T(2) avl_plug [of cx Lf] pl by simp
  moreover have "set (inorder T) = set (cnodes cx)" using inorder_plug [of cx Lf] pl by (simp add: set_around)
  then have xn: "?x \<notin> set (cnodes cx)" using new inorder_mem_data [of ?x T tr] T(3) by auto
  ultimately obtain h' tr' T' where i: "avl_insert h tr d (cookie cx) = Some (Inr (h', tr'))" "whole h' tr' T'" "avl T'"
    "inorder T' = around cx [?x]" "same_elsewhere (set (around cx [?x])) h h'"
    "tr' = tr\<lparr>avl_numnodes := avl_numnodes tr + 1, avl_root := avl_root tr'\<rparr>"
    using avl_insert_ok [OF P _ addable_good [OF d off]] d unfolding addable_def by metis
  have o: "avl_offset tr' = avl_offset tr" "avl_compar tr' = avl_compar tr"
    "avl_numnodes tr' = avl_numnodes tr + 1" by (subst i(6), simp)+
  let ?ds = "filter (\<lambda>x. key x < key d) ds @ d # filter (\<lambda>x. key d < key x) ds"
  have D: "tree_data tr' T' = ?ds"
    unfolding tree_data_cong [OF o(1)] using T(3)
    by (simp add: tree_data_def [of tr T'] i(4) ar map_before [OF c] map_behind [OF c])
  have s': "sorted_wrt (\<lambda>a b. key a < key b) ?ds"
    using s T(3) by (auto simp: sorted_wrt_append sorted_wrt_filter)
  have "filter (\<lambda>x. \<not> key x < key d) ds = filter (\<lambda>x. key d < key x) ds"
    by (rule filter_cong [OF refl]) (use new in auto)
  then have len: "length ?ds = Suc (length ds)"
    using sum_length_filter_compl [of "\<lambda>x. key x < key d" ds] by simp
  have "Suc (length ds) < 2 ^ 64" using length_nodes [OF i(2)] D len by (metis length_map tree_data_def)
  then have "unat (avl_numnodes tr') = Suc (length ds)"
    using num by (simp add: o unat_word_ariths)
  moreover have "\<exists>T. whole h' tr' T \<and> avl T \<and> tree_data tr' T = ?ds" using i(2,3) D by blast
  moreover have "0 \<notin> set ?ds" using z d by (auto simp: addable_def)
  moreover have "compar_is call tr' key" using c by (simp add: compar_is_def o(2))
  ultimately have "avl_holds call key h' tr' ?ds"
    unfolding avl_holds_def o(1) len using s' off by blast
  moreover have "dom h' = dom h"
  proof -
    have "h' a \<noteq> None \<longleftrightarrow> h a \<noteq> None" for a
    proof (cases "a \<in> set (around cx [?x])")
      case True
      have "h' a \<noteq> None" using i(2,4) True tree_at_dom [of h' T' 0 False a] by (simp add: whole_def)
      moreover have "h a \<noteq> None"
        using True d T(1) pl tree_at_dom [of h T 0 False a] inorder_plug [of cx Lf]
        by (auto simp: whole_def addable_def set_around)
      ultimately show ?thesis by simp
    qed (use i(5) in \<open>simp add: same_elsewhere_def\<close>)
    then show ?thesis by (simp add: dom_def)
  qed
  moreover have "avl_add call h tr d = Some (Inr (h', tr'))" using f i(1) by (simp add: avl_add_def)
  ultimately show ?thesis using o by blast
qed

text \<open>Adding an element whose key is there already fails the assertion of \<open>avl_add\<close>.\<close>

lemma avl_add_duplicate:
  assumes H: "avl_holds call key h tr ds" and dup: "\<exists>x\<in>set ds. key x = key d"
  shows "avl_add call h tr d = Some (Inl Abort)"
proof -
  obtain x where "x \<in> set ds" "avl_find call h tr d = Some (Inr (x, None))"
    using avl_find_holds [OF H, of d] dup by auto
  moreover have "x \<noteq> 0" using H \<open>x \<in> set ds\<close> by (auto simp: avl_holds_def)
  ultimately show ?thesis by (simp add: avl_add_def)
qed

end
