(* ===== verification/Avl_Move.thy ===== *)
theory Avl_Move
  imports Avl_Spec
begin

text \<open>
  Moving a node of a tree to another address, as \<open>avl_remove\<close> (\<open>src/lib/libavl/avl.c\<close>) does
  twice when the node to delete has two children: its neighbour moves to a copy on the stack,
  then the neighbour's memory takes the place of the deleted node.
\<close>

section \<open>Updates as functions on heaps\<close>

definition hset :: "(avl_node \<Rightarrow> avl_node) \<Rightarrow> addr \<Rightarrow> heap \<Rightarrow> heap" where
  "hset f a h = (if a = 0 then h else h(a := map_option f (h a)))"

lemma hset_0 [simp]: "hset f 0 h = h"
  by (simp add: hset_def)

lemma hset_apply: "hset f a h b = (if a \<noteq> 0 \<and> b = a then map_option f (h b) else h b)"
  by (simp add: hset_def)

lemma hset_None_iff [simp]: "hset f a h b = None \<longleftrightarrow> h b = None"
  by (simp add: hset_apply)

lemma upd_hset: "a \<noteq> 0 \<Longrightarrow> h a \<noteq> None \<Longrightarrow> upd f a h = Inr (hset f a h)"
  by (auto simp: upd_eq hset_def)

lemma set_link_hset:
  "(p \<noteq> 0 \<Longrightarrow> h p \<noteq> None) \<Longrightarrow> set_link p e v h tr =
     Inr (hset (set_avl_child e v) p h, if p = 0 then tr\<lparr>avl_root := v\<rparr> else tr)"
  by (simp add: set_link_def upd_hset)

text \<open>Reparenting a subtree.\<close>

lemma hset_parent_tree:
  assumes "tree_at h t p d" and "distinct (inorder t)" and "aligned8 q"
  shows "tree_at (hset (AVL_SETPARENT q) (root t) h) t q d"
proof (cases t)
  case (Nd k x b)
  then have X: "node_at h x (\<lambda>e. root (k e)) p d b" and K: "\<And>e. tree_at h (k e) x e" using assms(1) by simp_all
  have "x \<notin> set (inorder (k e))" for e using distinct_Nd(1) assms(2) Nd by blast
  then have "tree_at (hset (AVL_SETPARENT q) x h) (k e) x e" for e
    using K [of e] by (subst tree_at_cong [where h = h]) (auto simp: hset_apply)
  moreover have "node_at (hset (AVL_SETPARENT q) x h) x (\<lambda>e. root (k e)) q d b"
    using X assms(3) by (auto simp: node_at_def hset_apply good_addr_def pcb.field_simps fun_eq_iff)
  ultimately show ?thesis by (simp add: Nd)
qed simp

lemma hset_link_ctx:
  assumes "ctx_at h c a" and "distinct (cnodes c)"
  shows "ctx_at (hset (set_avl_child (dir c) v) (up c) h) c v"
proof (cases c rule: up.cases)
  case (2 d x b s c')
  have "x \<noteq> 0" "h x \<noteq> None" using assms(1) by (auto simp: 2 node_at_def good_addr_def)
  then have "set_link (up c) (dir c) v h tr = Inr (hset (set_avl_child (dir c) v) (up c) h, tr)" for tr
    by (simp add: set_link_def upd_hset 2)
  moreover obtain h' where "set_link (up c) (dir c) v h undefined =
      Inr (h', if c = [] then undefined\<lparr>avl_root := v\<rparr> else undefined)" "ctx_at h' c v"
    using set_link_ctx [OF assms] by blast
  ultimately show ?thesis by (simp add: 2)
qed simp

section \<open>Moving one node\<close>

definition moved :: "heap \<Rightarrow> addr \<Rightarrow> addr \<Rightarrow> heap" where
  "moved h a a' = (case h a of None \<Rightarrow> h
     | Some n \<Rightarrow>
        hset (AVL_SETPARENT a') (avl_child n True) (hset (AVL_SETPARENT a') (avl_child n False)
          (hset (set_avl_child (AVL_XCHILD n) a') (AVL_XPARENT n) (h(a' \<mapsto> n)))))"

lemma moved_ok:
  assumes P: "at_pos h tr c (Nd k a b)" and a': "good_addr a'" "a' \<notin> set (around c (inorder (Nd k a b)))"
  shows "at_pos (moved h a a') (if c = [] then tr\<lparr>avl_root := a'\<rparr> else tr) c (Nd k a' b)"
proof -
  note D = at_posD [OF P]
  have A: "node_at h a (\<lambda>e. root (k e)) (up c) (dir c) b" and K: "\<And>e. tree_at h (k e) a e" using D(2) by simp_all
  then obtain n where n: "h a = Some n" "avl_child n = (\<lambda>e. root (k e))" "AVL_XPARENT n = up c" "AVL_XCHILD n = dir c"
    and b: "AVL_XBALANCE n = b"
    by (auto simp: node_at_def)
  define h1 where "h1 = hset (set_avl_child (dir c) a') (up c) (h(a' \<mapsto> n))"
  define h2 where "h2 = hset (AVL_SETPARENT a') (root (k False)) h1"
  define h3 where "h3 = hset (AVL_SETPARENT a') (root (k True)) h2"
  have m: "moved h a a' = h3" using n by (simp add: moved_def h1_def h2_def h3_def)
  have al: "aligned8 a'" "a' \<noteq> 0" using a'(1) by (auto simp: good_addr_def)
  have nk: "set (inorder (k e)) \<inter> set (cnodes c) = {}" "a' \<notin> set (inorder (k e))" "distinct (inorder (k e))" for e
    using D(5) a'(2) distinct_Nd(2) [OF D(3)] in_Nd [of _ k e a b] by (auto simp: set_around)
  have kk: "set (inorder (k False)) \<inter> set (inorder (k True)) = {}" using D(3) by auto
  have nc: "a' \<notin> set (cnodes c)" using a'(2) by (simp add: set_around)
  have up: "up c \<noteq> 0 \<Longrightarrow> up c \<in> set (cnodes c)" using up_in by (cases c rule: up.cases) auto
  have rk: "root (k e) \<noteq> 0 \<Longrightarrow> root (k e) \<in> set (inorder (k e))" for e using root_in by (cases "k e") auto
  have "ctx_at (h(a' \<mapsto> n)) c a" using D(1) nc by (subst ctx_at_cong [where h = h]) auto
  then have c1: "ctx_at h1 c a'" unfolding h1_def by (rule hset_link_ctx [OF _ D(4)])
  have c3: "ctx_at h3 c a'"
    using c1 nk(1) rk by (subst ctx_at_cong [where h = h1]) (auto simp: h3_def h2_def hset_apply)
  have t1: "tree_at h1 (k e) a e" for e
    using K [of e] nk [of e] up by (subst tree_at_cong [where h = h]) (auto simp: h1_def hset_apply)
  have "tree_at h2 (k False) a' False"
    unfolding h2_def by (rule hset_parent_tree [OF t1 nk(3) al(1)])
  then have t3F: "tree_at h3 (k False) a' False"
    using kk rk by (subst tree_at_cong [where h = h2]) (auto simp: h3_def hset_apply)
  have "tree_at h2 (k True) a True"
    using t1 kk rk by (subst tree_at_cong [where h = h1]) (auto simp: h2_def hset_apply)
  then have t3T: "tree_at h3 (k True) a' True"
    unfolding h3_def by (rule hset_parent_tree [OF _ nk(3) al(1)])
  have "h3 a' = Some n" using nk(2) rk up nc by (auto simp: h3_def h2_def h1_def hset_apply)
  then have "node_at h3 a' (\<lambda>e. root (k e)) (up c) (dir c) b" using n b a'(1) by (simp add: node_at_def)
  moreover have "distinct (around c (inorder (Nd k a' b)))"
    using D(3-5) nk nc a'(2) by (auto simp: distinct_around)
  moreover have "tree_at h3 (k e) a' e" for e using t3F t3T by (cases e) simp_all
  ultimately show ?thesis unfolding m using c3 D(6)
    by (cases c rule: up.cases) (simp_all add: at_pos_def del: inorder.simps)
qed

section \<open>The end of a subtree\<close>

lemma plug_append: "plug (c @ c') t = plug c' (plug c t)"
  by (induction c t rule: plug.induct) simp_all

lemma around_append: "around (c @ c') xs = around c' (around c xs)"
  by (induction c xs rule: around.induct) simp_all

lemma around_split: "\<exists>A B. \<forall>xs. around c xs = A @ xs @ B"
proof (induction c)
  case Nil
  show ?case by (intro exI [of _ "[]"]) simp
next
  case (Cons f c)
  then obtain A B where "\<And>xs. around c xs = A @ xs @ B" by blast
  moreover obtain d x b s where "f = Fr d x b s" by (cases f)
  ultimately show ?case
    by (cases d) (auto simp: side_def intro: exI [of _ "A @ inorder s @ [x]"] exI [of _ "A"])
qed

text \<open>The balance condition does not depend on the addresses of the nodes.\<close>

lemma avl_ctx_rename: "avl_ctx n (c @ Fr d x b s # c') = avl_ctx n (c @ Fr d x' b s # c')"
  by (induction n c rule: avl_ctx.induct) simp_all

lemma fill_same: "fill (Fr d x b (k (\<not> d))) (k d) = Nd k x b"
  by (cases d) (auto simp: fun_eq_iff)

text \<open>Walking down in one direction ends at the last node on that side.\<close>

lemma walk_down_ok:
  "tree_at h t p e \<Longrightarrow> t \<noteq> Lf \<Longrightarrow>
   \<exists>c k y b. t = plug c (Nd k y b) \<and> k d = Lf \<and> walk_down h d (root t) = Some (Inr y) \<and>
     (\<exists>P. \<forall>xs. around c xs = (if d then P @ xs else xs @ P))"
proof (induction t arbitrary: p e)
  case (Nd k x b)
  obtain n where n: "h x = Some n" "avl_child n = (\<lambda>d. root (k d))"
    using Nd.prems(1) by (rule tree_at_child)
  have K: "tree_at h (k d) x d" using Nd.prems(1) by simp
  have unf: "walk_down h d x = (if root (k d) = 0 then Some (Inr x) else walk_down h d (root (k d)))"
    using n by (subst walk_down.simps) (simp add: ld_def)
  show ?case
  proof (cases "k d = Lf")
    case True
    then show ?thesis using unf
      by (intro exI [of _ "[]"] exI [of _ k] exI [of _ x] exI [of _ b]) simp
  next
    case False
    from Nd.IH [OF K this] obtain c k' y b' P where
      c: "k d = plug c (Nd k' y b')" "k' d = Lf" "walk_down h d (root (k d)) = Some (Inr y)"
      and P: "\<And>xs. around c xs = (if d then P @ xs else xs @ P)" by blast
    let ?c = "c @ [Fr d x b (k (\<not> d))]"
    have "Nd k x b = plug ?c (Nd k' y b')" using fill_same [of d x b k] by (simp add: plug_append c(1) [symmetric])
    moreover have "\<forall>xs. around ?c xs = (if d then (inorder (k (\<not> d)) @ x # P) @ xs else xs @ P @ x # inorder (k (\<not> d)))"
      by (simp add: around_append P side_def)
    then have "\<exists>P. \<forall>xs. around ?c xs = (if d then P @ xs else xs @ P)" by (cases d) auto
    moreover have "walk_down h d (root (Nd k x b)) = Some (Inr y)" using unf c(3) False root_0_iff [OF K] by simp
    ultimately show ?thesis using c(2) by blast
  qed
qed simp

section \<open>The swap with a neighbour\<close>

lemma set_child_set_parent: "set_avl_child c v (AVL_SETPARENT p n) = AVL_SETPARENT p (set_avl_child c v n)"
  by (simp add: set_avl_child_def AVL_SETPARENT_def)

lemma set_child_twice: "set_avl_child c v (set_avl_child c v n) = set_avl_child c v n"
  by (simp add: set_avl_child_def)

lemma hset_comm:
  "a = 0 \<or> b = 0 \<or> a \<noteq> b \<or> (\<forall>n. f (g n) = g (f n)) \<Longrightarrow> hset f a (hset g b h) = hset g b (hset f a h)"
  by (rule ext) (auto simp: hset_apply option.map_comp o_def)

lemma hset_put: "a \<noteq> y \<Longrightarrow> (hset f a h)(y \<mapsto> n) = hset f a (h(y \<mapsto> n))"
  by (rule ext) (auto simp: hset_apply)

text \<open>
  \<open>remove_swap\<close> moves the neighbour to the stack and the deleted node's contents to the
  neighbour, except that the deleted node itself keeps stale links.
\<close>

lemma remove_swap_moves:
  assumes x: "h x = Some nx" and y: "h y = Some ny" and l: "avl_balance2child (AVL_XBALANCE nx + 1) = Inr l"
    and walk: "walk_down h (\<not> l) (avl_child nx l) = Some (Inr y)" and outer: "avl_child ny (\<not> l) = 0"
    and fresh: "x \<noteq> y" "tmp \<noteq> x" "tmp \<noteq> y" "x \<noteq> 0" "y \<noteq> 0" "tmp \<noteq> 0" "aligned8 y"
    and kr: "avl_child nx (\<not> l) \<notin> {0, x, y, tmp, AVL_XPARENT nx, AVL_XPARENT ny, avl_child nx l, avl_child ny l}"
      "h (avl_child nx (\<not> l)) \<noteq> None"
    and px: "AVL_XPARENT nx \<notin> {x, y, tmp}" "AVL_XPARENT nx = 0 \<or> AVL_XPARENT nx \<noteq> AVL_XPARENT ny"
      "AVL_XPARENT nx \<noteq> 0 \<longrightarrow> h (AVL_XPARENT nx) \<noteq> None"
    and q: "AVL_XPARENT ny \<notin> {0, y, tmp}" "h (AVL_XPARENT ny) \<noteq> None"
    and yl: "avl_child ny l \<notin> {x, y, tmp}" "avl_child ny l = 0 \<or> avl_child ny l \<notin> {AVL_XPARENT nx, AVL_XPARENT ny, avl_child nx l}"
      "avl_child ny l \<noteq> 0 \<longrightarrow> h (avl_child ny l) \<noteq> None"
    and kl: "avl_child nx l \<notin> {0, x, tmp, AVL_XPARENT nx}" "h (avl_child nx l) \<noteq> None"
    and next_to: "AVL_XPARENT ny = x \<longleftrightarrow> avl_child nx l = y" "avl_child nx l = y \<Longrightarrow> AVL_XCHILD ny = l"
  shows "\<exists>h' tr'. remove_swap h tr tmp x = Some (Inr (tmp, h', tr')) \<and>
    (\<forall>a. a \<noteq> x \<longrightarrow> h' a = moved (moved h y tmp) x y a) \<and>
    tr' = (if AVL_XPARENT nx = 0 then tr\<lparr>avl_root := y\<rparr> else tr) \<and> h' x \<noteq> None \<and>
    (\<forall>a. a = 0 \<or> a \<notin> {tmp, y, AVL_XPARENT nx, AVL_XPARENT ny, avl_child nx l, avl_child nx (\<not> l), avl_child ny l} \<longrightarrow>
       h' a = h a)"
proof -
  define q' where "q' = (if avl_child nx l = y then y else AVL_XPARENT ny)"
  define n1 where "n1 = (if avl_child nx l = y then set_avl_child l tmp nx else nx)"
  define g2 where "g2 = hset (set_avl_child (AVL_XCHILD nx) y) (AVL_XPARENT nx) (h(tmp \<mapsto> ny, y \<mapsto> n1))"
  define g4 where "g4 = hset (AVL_SETPARENT y) (avl_child nx (\<not> l)) (hset (AVL_SETPARENT y) (avl_child n1 l) g2)"
  define g6 where "g6 = hset (AVL_SETPARENT tmp) (avl_child ny l) (hset (set_avl_child (AVL_XCHILD ny) tmp) q' g4)"
  have which: "avl_child ny (avl_child ny True \<noteq> 0) = avl_child ny l"
    using outer by (cases l; cases "avl_child ny True = 0") simp_all
  let ?tr = "if AVL_XPARENT nx = 0 then tr\<lparr>avl_root := y\<rparr> else tr"
  have n1: "AVL_XPARENT n1 = AVL_XPARENT nx" "AVL_XCHILD n1 = AVL_XCHILD nx" "avl_child n1 (\<not> l) = avl_child nx (\<not> l)"
    "avl_child n1 l = (if avl_child nx l = y then tmp else avl_child nx l)"
    by (auto simp: n1_def)
  have s1: "(if avl_child nx l = y then upd (set_avl_child l tmp) y (h(tmp \<mapsto> ny, y \<mapsto> nx)) else Inr (h(tmp \<mapsto> ny, y \<mapsto> nx))) =
      Inr (h(tmp \<mapsto> ny, y \<mapsto> n1))"
    by (simp add: n1_def upd_eq)
  have s2: "set_link (AVL_XPARENT n1) (AVL_XCHILD n1) y (h(tmp \<mapsto> ny, y \<mapsto> n1)) tr = Inr (g2, ?tr)"
    using px fresh by (subst set_link_hset) (auto simp: n1 g2_def)
  have g2: "g2 y = Some n1" "g2 tmp = Some ny" using px fresh by (auto simp: g2_def hset_apply)
  have g2n: "g2 a \<noteq> None \<longleftrightarrow> h a \<noteq> None \<or> a = tmp" for a using y by (auto simp: g2_def)
  have s4: "obind (Some (upd (AVL_SETPARENT y) (avl_child n1 l) g2)) (\<lambda>h.
      obind (Some (upd (AVL_SETPARENT y) (avl_child n1 (\<not> l)) h)) K) = K g4" for K :: "heap \<Rightarrow> (fault + addr \<times> heap \<times> avl_tree) option"
    using kr kl fresh g2n by (auto simp: n1 g4_def upd_hset)
  define t where "t = (if avl_child nx l = y then AVL_SETPARENT y ny else ny)"
  have g4: "g4 tmp = Some t" using g2 kr(1) kl(1) fresh by (auto simp: g4_def hset_apply n1 t_def)
  have t: "AVL_XCHILD t = AVL_XCHILD ny" "AVL_XPARENT t = q'" "avl_child t = avl_child ny"
    using fresh by (auto simp: t_def q'_def pcb.field_simps fun_eq_iff)
  have q': "q' \<noteq> 0" "g4 q' \<noteq> None" "q' \<noteq> tmp" using q y fresh g2n by (auto simp: q'_def g4_def)
  have s5: "upd (set_avl_child (AVL_XCHILD t) tmp) (AVL_XPARENT t) g4 = Inr (hset (set_avl_child (AVL_XCHILD ny) tmp) q' g4)"
    using q' by (simp add: t upd_hset)
  have g5: "hset (set_avl_child (AVL_XCHILD ny) tmp) q' g4 tmp = Some t" using q' g4 by (simp add: hset_apply)
  have s6: "(if avl_child t (avl_child t True \<noteq> 0) \<noteq> 0 then upd (AVL_SETPARENT tmp) (avl_child t (avl_child t True \<noteq> 0)) (hset (set_avl_child (AVL_XCHILD ny) tmp) q' g4)
      else Inr (hset (set_avl_child (AVL_XCHILD ny) tmp) q' g4)) = Inr g6"
    using yl g2n unfolding t which by (auto simp: g6_def upd_hset g4_def)
  have run: "remove_swap h tr tmp x = Some (Inr (tmp, g6, ?tr))"
    using x y walk fresh
    by (simp add: remove_swap_def ld_def l Let_def s1 s2 g2 s4 g4 s5 g5 s6 split del: if_split cong: if_cong)
  have "g6 a = moved (moved h y tmp) x y a" if "a \<noteq> x" for a
  proof -
    have m1: "moved h y tmp = hset (AVL_SETPARENT tmp) (avl_child ny l) (hset (set_avl_child (AVL_XCHILD ny) tmp) (AVL_XPARENT ny) (h(tmp \<mapsto> ny)))"
      using y outer by (cases l) (simp_all add: moved_def)
    have m1x: "moved h y tmp x = Some n1"
      using x fresh yl(1) next_to by (auto simp: m1 hset_apply n1_def)
    have comm: "hset (AVL_SETPARENT y) (avl_child n1 True) (hset (AVL_SETPARENT y) (avl_child n1 False) H) =
        hset (AVL_SETPARENT y) (avl_child n1 (\<not> l)) (hset (AVL_SETPARENT y) (avl_child n1 l) H)" for H
      using kr(1) fresh by (cases l) (auto simp: n1 hset_def fun_upd_twist)
    have m2: "moved (moved h y tmp) x y = hset (AVL_SETPARENT y) (avl_child nx (\<not> l)) (hset (AVL_SETPARENT y) (avl_child n1 l)
        (hset (set_avl_child (AVL_XCHILD nx) y) (AVL_XPARENT nx) ((moved h y tmp)(y \<mapsto> n1))))"
      using m1x comm by (simp add: moved_def [of "moved h y tmp"] n1)
    show ?thesis
    proof (cases "avl_child nx l = y")
      case True
      then have near: "AVL_XPARENT ny = x" "AVL_XCHILD ny = l" "q' = y" "avl_child n1 l = tmp"
        using next_to True by (simp_all add: q'_def n1)
      have "n1 = set_avl_child l tmp nx" using True by (simp add: n1_def)
      then have put: "set_avl_child l tmp n1 = n1" by (simp add: set_child_twice)
      let ?Q = "hset (set_avl_child l tmp)" and ?F = "hset (AVL_SETPARENT tmp) (avl_child ny l)"
        and ?K = "hset (AVL_SETPARENT y) (avl_child nx (\<not> l))" and ?L = "hset (AVL_SETPARENT y) tmp"
        and ?P = "hset (set_avl_child (AVL_XCHILD nx) y) (AVL_XPARENT nx)"
      have "?Q y (?K H) = ?K (?Q y H)" "?K (?Q x H) = ?Q x (?K H)" for H using kr(1) by (intro hset_comm; force)+
      moreover have "?Q y (?L H) = ?L (?Q y H)" "?L (?Q x H) = ?Q x (?L H)" for H using fresh by (intro hset_comm; force)+
      moreover have "?Q y (?P H) = ?P (?Q y H)" "?P (?Q x H) = ?Q x (?P H)" for H using px(1) by (intro hset_comm; force)+
      moreover have "?F (?K H) = ?K (?F H)" for H using kr(1) by (intro hset_comm) auto
      moreover have "?F (?L H) = ?L (?F H)" for H using yl(1) by (intro hset_comm) auto
      moreover have "?F (?P H) = ?P (?F H)" for H using yl(2) by (intro hset_comm) auto
      moreover have "?F (?Q x H) = ?Q x (?F H)" for H using yl(1) by (intro hset_comm) auto
      moreover have "(?F H)(y \<mapsto> n1) = ?F (H(y \<mapsto> n1))" "(?Q x H)(y \<mapsto> n1) = ?Q x (H(y \<mapsto> n1))" for H
        using yl(1) fresh by (simp_all add: hset_put)
      moreover have "?Q y (H(y \<mapsto> n1)) = H(y \<mapsto> n1)" for H
        by (rule ext) (simp add: hset_apply put)
      moreover have "?Q x H a = H a" for H using that by (simp add: hset_apply)
      ultimately show ?thesis unfolding m2 unfolding m1 g6_def g4_def g2_def near(1-4) by simp
    next
      case False
      let ?Q = "hset (set_avl_child (AVL_XCHILD ny) tmp) (AVL_XPARENT ny)" and ?F = "hset (AVL_SETPARENT tmp) (avl_child ny l)"
        and ?K = "hset (AVL_SETPARENT y) (avl_child nx (\<not> l))" and ?L = "hset (AVL_SETPARENT y) (avl_child nx l)"
        and ?P = "hset (set_avl_child (AVL_XCHILD nx) y) (AVL_XPARENT nx)"
      have far: "n1 = nx" "q' = AVL_XPARENT ny" using False by (simp_all add: n1_def q'_def)
      have "?Q (?K H) = ?K (?Q H)" for H using kr(1) by (intro hset_comm) auto
      moreover have "?Q (?L H) = ?L (?Q H)" for H by (rule hset_comm) (simp add: set_child_set_parent)
      moreover have "?Q (?P H) = ?P (?Q H)" for H using px(2) by (intro hset_comm) metis
      moreover have "?F (?K H) = ?K (?F H)" for H using kr(1) by (intro hset_comm) auto
      moreover have "?F (?L H) = ?L (?F H)" for H using yl(2) by (intro hset_comm) auto
      moreover have "?F (?P H) = ?P (?F H)" for H using yl(2) by (intro hset_comm) auto
      moreover have "(?F (?Q H))(y \<mapsto> nx) = ?F (?Q (H(y \<mapsto> nx)))" for H
        using yl(1) q(1) by (simp add: hset_put)
      ultimately show ?thesis unfolding m2 unfolding m1 g6_def g4_def g2_def far by simp
    qed
  qed
  moreover have "g6 x \<noteq> None" using x g2n by (simp add: g6_def g4_def)
  moreover have "g6 a = h a"
    if "a = 0 \<or> a \<notin> {tmp, y, AVL_XPARENT nx, AVL_XPARENT ny, avl_child nx l, avl_child nx (\<not> l), avl_child ny l}" for a
  proof -
    have o: "hset f b H a = H a"
      if "b \<in> {tmp, y, AVL_XPARENT nx, AVL_XPARENT ny, avl_child nx l, avl_child nx (\<not> l), avl_child ny l}" for f b H
      using that \<open>a = 0 \<or> _\<close> by (auto simp: hset_def)
    have "a \<noteq> tmp" "a \<noteq> y" using that fresh by auto
    then show ?thesis by (simp add: g6_def g4_def g2_def o q'_def n1)
  qed
  ultimately show ?thesis using run by blast
qed

end
