(* ===== verification/Avl_Swap.thy ===== *)
theory Avl_Swap
  imports Avl_Move
begin

text \<open>
  The first half of \<open>avl_remove\<close> (\<open>src/lib/libavl/avl.c\<close>) for a node with two children, over
  positions in the tree: the neighbour on the taller side takes the place of the deleted node,
  and the copy on the stack that of the neighbour.
\<close>

section \<open>The swap as a change of addresses\<close>

lemma root_mem: "root t \<noteq> 0 \<Longrightarrow> root t \<in> set (inorder t)"
  by (cases t) auto

lemma up_mem: "up c \<noteq> 0 \<Longrightarrow> up c \<in> set (cnodes c)"
  by (cases c rule: up.cases) auto

lemma at_pos_Nd:
  assumes "at_pos h tr c (Nd k x b)"
  obtains n where "h x = Some n" and "avl_child n = (\<lambda>d. root (k d))" and "AVL_XPARENT n = up c"
    and "AVL_XCHILD n = dir c" and "AVL_XBALANCE n = b" and "good_addr x"
  using at_posD(2) [OF assms] by (auto simp: node_at_def)

lemma at_pos_mapped:
  assumes "at_pos h tr c t" and "a \<in> set (around c (inorder t))"
  shows "h a \<noteq> None"
proof -
  have "whole h tr (plug c t)" using assms(1) by (simp add: whole_plug)
  then show ?thesis using tree_at_dom [of h "plug c t" 0 False a] assms(2) by (simp add: whole_def inorder_plug)
qed

lemma set_inorder_Nd: "set (inorder (Nd k x b)) = insert x (set (inorder (k d)) \<union> set (inorder (k (\<not> d))))"
  by (cases d) auto

lemma at_pos_good:
  assumes "at_pos h tr c t" and "a \<in> set (around c (inorder t))"
  shows "good_addr a"
proof -
  have "whole h tr (plug c t)" using assms(1) by (simp add: whole_plug)
  then show ?thesis using tree_at_good [of h "plug c t" 0 False a] assms(2) by (simp add: whole_def inorder_plug)
qed

lemma cnodes_append: "cnodes (c @ c') = cnodes c @ cnodes c'"
  by (induction c rule: cnodes.induct) simp_all

lemma up_append: "up (c @ c') = (if c = [] then up c' else up c)" "dir (c @ c') = (if c = [] then dir c' else dir c)"
  by (cases c rule: up.cases; simp)+

lemma ctx_root_mem: "c \<noteq> [] \<Longrightarrow> ctx_root c a \<in> set (cnodes c)"
proof (induction c a rule: ctx_root.induct)
  case (2 d x b s c a)
  then show ?case by (cases "c = []") auto
qed simp

lemma plug_swap: "plug (c2 @ Fr l x b (k (\<not> l)) # c) t = plug c (Nd ((\<lambda>_. k (\<not> l))(l := plug c2 t)) x b)"
  by (simp add: plug_append)

lemma at_pos_below:
  assumes "at_pos h tr c (Nd k x b)" and "k l = plug c2 t"
  shows "at_pos h tr (c2 @ Fr l x b (k (\<not> l)) # c) t"
    and "set (around c (inorder (Nd k x b))) = set (around (c2 @ Fr l x b (k (\<not> l)) # c) (inorder t))"
proof -
  have "plug (c2 @ Fr l x b (k (\<not> l)) # c) t = plug c (Nd k x b)"
    using fill_same [of l x b k] by (simp add: plug_append assms(2) [symmetric])
  then show "at_pos h tr (c2 @ Fr l x b (k (\<not> l)) # c) t"
    "set (around c (inorder (Nd k x b))) = set (around (c2 @ Fr l x b (k (\<not> l)) # c) (inorder t))"
    using assms(1) whole_plug inorder_plug by metis+
qed

text \<open>The code on the two nodes: the conditions of \<open>remove_swap_moves\<close> from their positions.\<close>

lemma remove_swap_runs:
  assumes P: "at_pos h tr c (Nd k x b)" and full: "\<And>d. k d \<noteq> Lf" and b: "bal_ok b"
    and tmp: "good_addr tmp" "tmp \<notin> set (around c (inorder (Nd k x b)))"
    and l: "l = (0 < b)" and y: "k l = plug c2 (Nd ky y yb)" "ky (\<not> l) = Lf"
    and walk: "walk_down h (\<not> l) (root (k l)) = Some (Inr y)"
  shows "\<exists>h' tr'. remove_swap h tr tmp x = Some (Inr (tmp, h', tr')) \<and>
    (\<forall>a. a \<noteq> x \<longrightarrow> h' a = moved (moved h y tmp) x y a) \<and> tr' = (if c = [] then tr\<lparr>avl_root := y\<rparr> else tr) \<and>
    h' x \<noteq> None \<and> same_elsewhere (insert tmp (set (around c (inorder (Nd k x b))))) h h'"
proof -
  let ?C = "c2 @ Fr l x b (k (\<not> l)) # c"
  note PC = at_pos_below(1) [OF P y(1)] and all = at_pos_below(2) [OF P y(1)]
  note D = at_posD [OF PC]
  obtain nx where nx: "h x = Some nx" "avl_child nx = (\<lambda>d. root (k d))" "AVL_XPARENT nx = up c" "AVL_XBALANCE nx = b" "good_addr x"
    using at_pos_Nd [OF P] .
  obtain ny where ny: "h y = Some ny" "avl_child ny = (\<lambda>d. root (ky d))" "AVL_XPARENT ny = up ?C" "AVL_XCHILD ny = dir ?C" "good_addr y"
    using at_pos_Nd [OF PC] .
  have N: "set (inorder (Nd ky y yb)) = insert y (set (inorder (ky l)))"
    using set_inorder_Nd [of ky y yb l] y(2) by simp
  have nodes: "set (cnodes ?C) = set (cnodes c2) \<union> {x} \<union> set (inorder (k (\<not> l))) \<union> set (cnodes c)"
    by (auto simp: cnodes_append)
  have sets: "distinct (cnodes c2 @ x # inorder (k (\<not> l)) @ cnodes c)" "y \<notin> set (cnodes ?C)"
    "set (inorder (ky l)) \<inter> set (cnodes ?C) = {}" "y \<notin> set (inorder (ky l))"
    using D(4,5) distinct_Nd(1) [OF D(3)] unfolding N by (auto simp: cnodes_append)
  have t: "tmp \<noteq> y" "tmp \<notin> set (cnodes ?C)" "tmp \<notin> set (inorder (ky l))"
    using tmp(2) unfolding all unfolding set_around N by auto
  have mapped: "h a \<noteq> None" if "a \<in> set (cnodes ?C) \<union> set (inorder (ky l))" for a
    using at_pos_mapped [OF PC, of a] that unfolding set_around N by auto
  have nz: "a \<noteq> 0" if "a \<in> set (cnodes ?C)" for a
    using that at_pos_good [OF PC, of a] by (auto simp: set_around good_addr_def)
  have roots: "root (k (\<not> l)) \<in> set (inorder (k (\<not> l)))" "root (k l) = ctx_root c2 y"
    "root (ky l) \<noteq> 0 \<Longrightarrow> root (ky l) \<in> set (inorder (ky l))"
    using root_in [of "k (\<not> l)"] full [of "\<not> l"] root_mem [of "ky l"] by (simp_all add: y(1) root_plug)
  have ups: "up ?C = (if c2 = [] then x else up c2)" "dir ?C = (if c2 = [] then l else dir c2)"
    "up c \<noteq> 0 \<Longrightarrow> up c \<in> set (cnodes c)"
    "c2 \<noteq> [] \<Longrightarrow> up c2 \<in> set (cnodes c2) \<and> ctx_root c2 y \<in> set (cnodes c2)"
    using up_mem [of c] up_in [of c2] ctx_root_mem [of c2 y] by (auto simp: up_append)
  have "\<exists>h' tr'. remove_swap h tr tmp x = Some (Inr (tmp, h', tr')) \<and>
    (\<forall>a. a \<noteq> x \<longrightarrow> h' a = moved (moved h y tmp) x y a) \<and>
    tr' = (if AVL_XPARENT nx = 0 then tr\<lparr>avl_root := y\<rparr> else tr) \<and> h' x \<noteq> None \<and>
    (\<forall>a. a = 0 \<or> a \<notin> {tmp, y, AVL_XPARENT nx, AVL_XPARENT ny, avl_child nx l, avl_child nx (\<not> l), avl_child ny l} \<longrightarrow>
       h' a = h a)"
  proof (rule remove_swap_moves [OF nx(1) ny(1)])
    show "avl_balance2child (AVL_XBALANCE nx + 1) = Inr l"
      using b by (auto simp: nx(4) l bal_ok_def avl_balance2child_def)
    show "walk_down h (\<not> l) (avl_child nx l) = Some (Inr y)" using walk by (simp add: nx(2))
    show "avl_child ny (\<not> l) = 0" using y(2) by (simp add: ny(2))
  qed (use sets nodes t mapped roots ups nz nx(5) ny(1,5) tmp(1) in
      \<open>auto simp: nx(2,3) ny(2-4) good_addr_def split: if_splits\<close>)
  then obtain h' tr' where run: "remove_swap h tr tmp x = Some (Inr (tmp, h', tr'))"
    "\<forall>a. a \<noteq> x \<longrightarrow> h' a = moved (moved h y tmp) x y a" "tr' = (if up c = 0 then tr\<lparr>avl_root := y\<rparr> else tr)"
    "h' x \<noteq> None" "\<And>a. a = 0 \<or> a \<notin> {tmp, y, up c, up ?C, root (k l), root (k (\<not> l)), root (ky l)} \<Longrightarrow> h' a = h a"
    unfolding nx(2,3) ny(2,3) by blast
  have "same_elsewhere (insert tmp (set (around c (inorder (Nd k x b))))) h h'"
    unfolding all unfolding set_around N same_elsewhere_def using roots ups
    by (intro allI impI run(5)) (auto simp: nodes split: if_splits)
  then show ?thesis using run(1,2,4) up_0_iff [OF at_posD(1) [OF P]] unfolding run(3) by auto
qed

text \<open>What is left of the tree: the copy on the stack in the place of the neighbour.\<close>

lemma remove_swap_ok:
  assumes P: "at_pos h tr c (Nd k x b)" and full: "\<And>d. k d \<noteq> Lf" and b: "bal_ok b"
    and tmp: "good_addr tmp" "tmp \<notin> set (around c (inorder (Nd k x b)))"
    and l: "l = (0 < b)" and y: "k l = plug c2 (Nd ky y yb)" "ky (\<not> l) = Lf"
    and walk: "walk_down h (\<not> l) (root (k l)) = Some (Inr y)"
  shows "\<exists>h' tr'. remove_swap h tr tmp x = Some (Inr (tmp, h', tr')) \<and>
    at_pos h' tr' (c2 @ Fr l y b (k (\<not> l)) # c) (Nd ky tmp yb) \<and> tr' = tr\<lparr>avl_root := avl_root tr'\<rparr> \<and>
    h' x \<noteq> None \<and> same_elsewhere (insert tmp (set (around c (inorder (Nd k x b))))) h h'"
proof -
  obtain h' tr' where run: "remove_swap h tr tmp x = Some (Inr (tmp, h', tr'))"
    "\<And>a. a \<noteq> x \<Longrightarrow> h' a = moved (moved h y tmp) x y a" "tr' = (if c = [] then tr\<lparr>avl_root := y\<rparr> else tr)"
    "h' x \<noteq> None" "same_elsewhere (insert tmp (set (around c (inorder (Nd k x b))))) h h'"
    using remove_swap_runs [OF assms] by blast
  let ?C = "\<lambda>x. c2 @ Fr l x b (k (\<not> l)) # c" and ?k1 = "(\<lambda>_. k (\<not> l))(l := plug c2 (Nd ky tmp yb))"
  note PC = at_pos_below(1) [OF P y(1)] and all = at_pos_below(2) [OF P y(1)]
  note D = at_posD [OF PC]
  have N: "set (inorder (Nd ky z yb)) = insert z (set (inorder (ky l)))" for z
    using set_inorder_Nd [of ky z yb l] y(2) by simp
  have new_nodes: "set (around c (inorder (Nd ?k1 z b))) = insert tmp (set (inorder (ky l)) \<union> set (cnodes (?C z)))" for z
    unfolding inorder_plug [symmetric] plug_swap [symmetric] unfolding inorder_plug set_around N by blast
  have t: "tmp \<noteq> y" "tmp \<notin> set (cnodes (?C x))" using tmp(2) unfolding all unfolding set_around N by auto
  have m1: "at_pos (moved h y tmp) tr (?C x) (Nd ky tmp yb)"
    using moved_ok [OF PC tmp(1)] tmp(2) all by auto
  then have m1': "at_pos (moved h y tmp) tr c (Nd ?k1 x b)"
    unfolding whole_plug [symmetric] plug_swap .
  have "y \<notin> set (around c (inorder (Nd ?k1 x b)))"
    unfolding new_nodes using t D(5) distinct_Nd(1) [OF D(3)] N by auto
  from moved_ok [OF m1' _ this] at_pos_good [OF PC, of y]
  have m2: "at_pos (moved (moved h y tmp) x y) tr' c (Nd ?k1 y b)" unfolding run(3) by (simp add: set_around N)
  have "x \<notin> set (around c (inorder (Nd ?k1 y b)))"
    unfolding new_nodes using t D(4,5) unfolding N by (auto simp: cnodes_append)
  then have "whole h' tr' (plug c (Nd ?k1 y b)) = whole (moved (moved h y tmp) x y) tr' (plug c (Nd ?k1 y b))"
    using run(2) by (intro whole_cong refl) (metis inorder_plug)
  then have "at_pos h' tr' (?C y) (Nd ky tmp yb)" using m2 unfolding whole_plug [symmetric] plug_swap by blast
  then show ?thesis using run(1,3-5) by auto
qed

end
