(* ===== verification/Avl_Remove.thy ===== *)
theory Avl_Remove
  imports Avl_Swap
begin

text \<open>
  \<open>avl_remove\<close> (\<open>src/lib/libavl/avl.c\<close>): the swap with a neighbour as two moves of a node to
  another address, unlinking a node with one empty child, and the loop that climbs from there.
\<close>

section \<open>Climbing after a removal\<close>

text \<open>The subtree in the hole is one lower than the height the context is balanced for.\<close>

lemma remove_up_ok:
  "at_pos h tr c t \<Longrightarrow> avl t \<Longrightarrow> avl_ctx (Suc (height t)) c \<Longrightarrow> c \<noteq> [] \<Longrightarrow>
   \<exists>h' tr' T. remove_up h tr (up c) (dir c) = Some (Inr (h', tr')) \<and> whole h' tr' T \<and> avl T \<and>
     inorder T = around c (inorder t) \<and> same_elsewhere (set (around c (inorder t))) h h' \<and>
     tr' = tr\<lparr>avl_root := avl_root tr'\<rparr>"
proof (induction c arbitrary: h t tr)
  case Nil
  then show ?case by simp
next
  case (Cons f c)
  obtain d x b s where f: "f = Fr d x b s" by (cases f)
  let ?k = "(\<lambda>_. s)(d := t)" and ?c2b = "avl_child2balance d"
  have P: "at_pos h tr c (Nd ?k x b)" using Cons.prems(1) by (simp add: f at_pos_Cons)
  have ctx: "avl s" "b = ?c2b * (int (Suc (height t)) - int (height s))" "bal_ok b"
    "avl_ctx (Suc (max (Suc (height t)) (height s))) c"
    using Cons.prems(3) unfolding f avl_ctx.simps by blast+
  obtain m where m: "h x = Some m" "x \<noteq> 0" "AVL_XBALANCE m = b" "AVL_XPARENT m = up c" "AVL_XCHILD m = dir c"
    using Cons.prems(1) at_pos_node unfolding f by blast
  have nodes: "around c (inorder (Nd ?k x b')) = around (f # c) (inorder t)" for b'
    by (simp add: f inorder_side [of ?k x b' d] del: inorder.simps)
  have hgt: "height (Nd ?k x b') = Suc (max (height t) (height s))" for b'
    using height_side [of ?k x b' d] by simp
  have av: "avl (Nd ?k x b')" if "b' = ?c2b * (int (height t) - int (height s))" "bal_ok b'" for b'
    using that Cons.prems(2) ctx(1) balance_side [of ?k d] by (auto simp: avl_Nd all_other [where d = d])
  have xin: "x \<in> set (around (f # c) (inorder t))" by (simp add: f set_around)
  have code: "remove_up h tr (up (f # c)) (dir (f # c)) =
     (if b = 0 then Some (Inr (h(x \<mapsto> AVL_SETBALANCE (- ?c2b) m), tr))
      else if b - ?c2b = 0 then
        if up c \<noteq> 0 then remove_up (h(x \<mapsto> AVL_SETBALANCE 0 m)) tr (up c) (dir c)
        else Some (Inr (h(x \<mapsto> AVL_SETBALANCE 0 m), tr))
      else
        (case avl_rotation h tr x (b - ?c2b) of Inl e \<Rightarrow> Some (Inl e)
         | Inr (shrunk, h, tree) \<Rightarrow>
             if \<not> shrunk then Some (Inr (h, tree))
             else if up c \<noteq> 0 then remove_up h tree (up c) (dir c) else Some (Inr (h, tree))))"
    using m by (subst remove_up.simps) (simp add: f ld_def Let_def)
  have upc: "up c = 0 \<longleftrightarrow> c = []" using up_0_iff at_posD(1) [OF P] by blast
  text \<open>going on from a position one lower than before\<close>
  have climb: "\<exists>h'' tr'' T'. (if up c \<noteq> 0 then remove_up h1 tr1 (up c) (dir c) else Some (Inr (h1, tr1))) = Some (Inr (h'', tr'')) \<and>
      whole h'' tr'' T' \<and> avl T' \<and> inorder T' = around (f # c) (inorder t) \<and>
      same_elsewhere (set (around (f # c) (inorder t))) h h'' \<and> tr'' = tr\<lparr>avl_root := avl_root tr''\<rparr>"
    if "at_pos h1 tr1 c t1" "avl t1" "height t1 = max (Suc (height t)) (height s)"
      "inorder t1 = inorder (Nd ?k x b)" "same_elsewhere (set (around (f # c) (inorder t))) h h1"
      "tr1 = tr\<lparr>avl_root := avl_root tr1\<rparr>" for h1 tr1 t1
  proof (cases "c = []")
    case True
    then have "whole h1 tr1 t1" using that(1) whole_plug [of h1 tr1 c t1] by simp
    moreover have "inorder t1 = around (f # c) (inorder t)" using True that(4) nodes by simp
    ultimately show ?thesis
      using True that(2,5,6) by (intro exI [of _ h1] exI [of _ tr1] exI [of _ t1]) simp
  next
    case False
    have "avl_ctx (Suc (height t1)) c" using that(3) ctx(4) by simp
    from Cons.IH [OF that(1,2) this False] obtain h'' tr'' T' where
      T: "remove_up h1 tr1 (up c) (dir c) = Some (Inr (h'', tr''))" "whole h'' tr'' T'" "avl T'"
      "inorder T' = around c (inorder t1)" "same_elsewhere (set (around c (inorder t1))) h1 h''"
      "tr'' = tr1\<lparr>avl_root := avl_root tr''\<rparr>" by blast
    have "tr'' = tr\<lparr>avl_root := avl_root tr''\<rparr>" by (subst T(6), subst that(6)) simp
    moreover have "around c (inorder t1) = around (f # c) (inorder t)" using that(4) nodes by simp
    ultimately show ?thesis
      using T False upc same_elsewhere_trans [OF that(5)]
      by (intro exI [of _ h''] exI [of _ tr''] exI [of _ T']) simp
  qed
  consider (even) "b = 0" | (lean) "b = ?c2b" | (rotate) "b = - ?c2b"
    using ctx(3) by (cases d) (auto simp: bal_ok_def)
  then show ?case
  proof cases
    case even
    then have n: "height s = Suc (height t)" using ctx(2) by (cases d) auto
    have b1: "bal_ok (- ?c2b)" by (simp add: bal_ok_def avl_child2balance_def)
    let ?h = "h(x \<mapsto> AVL_SETBALANCE (- ?c2b) m)"
    have Q: "at_pos ?h tr c (Nd ?k x (- ?c2b))" by (rule set_balance_pos [OF P m(1) b1])
    have "avl (Nd ?k x (- ?c2b))" by (rule av [OF _ b1]) (simp add: n)
    then have "avl (plug c (Nd ?k x (- ?c2b)))"
      using ctx(4) hgt n by (simp add: avl_plug del: avl.simps height.simps)
    moreover have "whole ?h tr (plug c (Nd ?k x (- ?c2b)))" using Q by (simp add: whole_plug)
    moreover have "inorder (plug c (Nd ?k x (- ?c2b))) = around (f # c) (inorder t)"
      by (simp add: inorder_plug nodes del: inorder.simps)
    moreover have "remove_up h tr (up (f # c)) (dir (f # c)) = Some (Inr (?h, tr))" using code even by simp
    ultimately show ?thesis using same_elsewhere_fun_upd [OF xin] by fastforce
  next
    case lean
    then have n: "height s = height t" using ctx(2) by (cases d) auto
    have Q: "at_pos (h(x \<mapsto> AVL_SETBALANCE 0 m)) tr c (Nd ?k x 0)"
      by (rule set_balance_pos [OF P m(1)]) (simp add: bal_ok_def)
    have a: "avl (Nd ?k x 0)" by (rule av) (use n in \<open>simp_all add: bal_ok_def\<close>)
    have i: "inorder (Nd ?k x 0) = inorder (Nd ?k x b)" by simp
    have "b \<noteq> 0" using lean by (simp add: avl_child2balance_def)
    with climb [OF Q a _ i same_elsewhere_fun_upd [OF xin]] show ?thesis
      using code lean n hgt by (simp del: height.simps)
  next
    case rotate
    then have n: "height s = height t + 2" using ctx(2) by (cases d) auto
    have neg: "- ?c2b - ?c2b = 2 * avl_child2balance (\<not> d)" by (simp add: avl_child2balance_def)
    have "\<And>e. avl (?k e)" using Cons.prems(2) ctx(1) by auto
    moreover have "height (?k (\<not> d)) = height (?k (\<not> \<not> d)) + 2" using n by simp
    ultimately obtain h' tr' T where T: "avl_rotation h tr x (2 * avl_child2balance (\<not> d)) = Inr (root_bal s \<noteq> 0, h', tr')"
      "at_pos h' tr' c T" "avl T" "inorder T = inorder (Nd ?k x b)"
      "height T = height s + (if root_bal s = 0 then 1 else 0)"
      "same_elsewhere (set (around c (inorder (Nd ?k x b)))) h h'" "tr' = tr\<lparr>avl_root := avl_root tr'\<rparr>"
      using avl_rotation_ok [OF P, of "\<not> d"] by auto
    have fr: "same_elsewhere (set (around (f # c) (inorder t))) h h'" using T(6) nodes by simp
    have "b \<noteq> 0" "b - ?c2b \<noteq> 0" using rotate by (auto simp: avl_child2balance_def split: if_splits)
    then have code': "remove_up h tr (up (f # c)) (dir (f # c)) =
        (if root_bal s = 0 then Some (Inr (h', tr'))
         else if up c \<noteq> 0 then remove_up h' tr' (up c) (dir c) else Some (Inr (h', tr')))"
      using code T(1) neg rotate by simp
    show ?thesis
    proof (cases "root_bal s = 0")
      case True
      then have "avl (plug c T)" using T(3,5) ctx(4) n by (simp add: avl_plug)
      then show ?thesis
        using code' True T fr nodes by (intro exI [of _ h'] exI [of _ tr'] exI [of _ "plug c T"])
          (simp add: whole_plug inorder_plug del: inorder.simps)
    next
      case False
      with climb [OF T(2,3) _ T(4) fr T(7)] show ?thesis
        using code' T(5) n by simp
    qed
  qed
qed

section \<open>Unlinking\<close>

text \<open>The second half of \<open>avl_remove\<close>, from the node that has an empty child.\<close>

definition remove_unlink :: "addr \<Rightarrow> heap \<Rightarrow> avl_tree \<Rightarrow> addr \<Rightarrow> (fault + heap \<times> avl_tree) option" where
  "remove_unlink tmp h tree delete =
     obind (Some (verify (avl_numnodes tree > 0))) (\<lambda>_.
     let tree = tree\<lparr>avl_numnodes := avl_numnodes tree - 1\<rparr> in
     obind (Some (ld h delete)) (\<lambda>dn.
     let parent = AVL_XPARENT dn; which_child = AVL_XCHILD dn;
         node = (if avl_child dn False \<noteq> 0 then avl_child dn False else avl_child dn True) in
     obind (Some (relink node parent which_child h)) (\<lambda>h.
     obind (if parent = 0 then Some (Inr (h, tree\<lparr>avl_root := node\<rparr>))
            else obind (Some (upd (set_avl_child which_child node) parent h)) (\<lambda>h.
                 remove_up h tree parent which_child)) (\<lambda>(h, tree).
     Some (Inr (h(tmp := None), tree))))))"

lemma avl_remove_unlink:
  "avl_remove tmp h tree data =
     (let delete = AVL_DATA2NODE data (avl_offset tree) in
      obind (Some (ld h delete)) (\<lambda>dn.
      obind (if avl_child dn False \<noteq> 0 \<and> avl_child dn True \<noteq> 0 then remove_swap h tree tmp delete
             else Some (Inr (delete, h, tree))) (\<lambda>(delete, h, tree). remove_unlink tmp h tree delete)))"
  by (simp add: avl_remove_def remove_unlink_def Let_def)

lemma remove_unlink_ok:
  assumes P: "at_pos h tr c (Nd k x b)" and Lf: "k d = Lf" and bal: "avl (plug c (Nd k x b))"
    and num: "avl_numnodes tr > 0" and tmp: "tmp \<notin> set (around c (inorder (k (\<not> d))))"
  shows "\<exists>h' tr' T. remove_unlink tmp h tr x = Some (Inr (h', tr')) \<and> whole h' tr' T \<and> avl T \<and>
    inorder T = around c (inorder (k (\<not> d))) \<and>
    same_elsewhere (insert tmp (set (around c (inorder (k (\<not> d)))))) h h' \<and> h' tmp = None \<and>
    tr' = tr\<lparr>avl_numnodes := avl_numnodes tr - 1, avl_root := avl_root tr'\<rparr>"
proof -
  let ?t = "k (\<not> d)" and ?tr = "tr\<lparr>avl_numnodes := avl_numnodes tr - 1\<rparr>"
  note D = at_posD [OF P]
  obtain n where n: "h x = Some n" "avl_child n = (\<lambda>d. root (k d))" "AVL_XPARENT n = up c" "AVL_XCHILD n = dir c"
    using at_pos_Nd [OF P] .
  have node: "(if root (k False) \<noteq> 0 then root (k False) else root (k True)) = root ?t"
    using Lf by (cases d) simp_all
  have T: "tree_at h ?t x (\<not> d)" using D(2) by simp
  have dist: "distinct (inorder ?t)" by (rule distinct_Nd(2) [OF D(3)])
  have disj: "set (inorder ?t) \<inter> set (cnodes c) = {}" using D(5) in_Nd [of _ k "\<not> d" x b] by blast
  obtain h1 where h1: "relink (root ?t) (up c) (dir c) h = Inr h1" "tree_at h1 ?t (up c) (dir c)"
    "\<And>a. a \<notin> set (inorder ?t) \<Longrightarrow> h1 a = h a"
    using relink_tree [OF T dist up_aligned [OF D(1)]] by blast
  have C1: "ctx_at h1 c x" using D(1) disj h1(3) by (subst ctx_at_cong [where h = h]) auto
  obtain h2 where h2: "set_link (up c) (dir c) (root ?t) h1 ?tr =
      Inr (h2, if c = [] then ?tr\<lparr>avl_root := root ?t\<rparr> else ?tr)" "ctx_at h2 c (root ?t)"
    "\<And>a. a \<notin> set (cnodes c) \<Longrightarrow> h2 a = h1 a"
    using set_link_ctx [OF C1 D(4)] by blast
  let ?tr2 = "if c = [] then ?tr\<lparr>avl_root := root ?t\<rparr> else ?tr"
  have T2: "tree_at h2 ?t (up c) (dir c)" using h1(2) h2(3) disj by (subst tree_at_cong [where h = h1]) auto
  have P2: "at_pos h2 ?tr2 c ?t"
    using h2(2) T2 dist disj D(4,6) by (cases c rule: up.cases) (auto simp: at_pos_def distinct_around)
  have av: "avl ?t" "avl_ctx (Suc (height ?t)) c"
    using bal height_side [of k x b d] Lf by (auto simp: avl_plug avl_Nd simp del: avl.simps height.simps(2))
  have same: "same_elsewhere (set (around c (inorder ?t))) h h2"
    using h1(3) h2(3) by (auto simp: same_elsewhere_def set_around)
  obtain h3 tr3 T3 where r: "(if up c = 0 then Some (Inr (h1, ?tr\<lparr>avl_root := root ?t\<rparr>))
        else obind (Some (upd (set_avl_child (dir c) (root ?t)) (up c) h1)) (\<lambda>h. remove_up h ?tr (up c) (dir c))) =
      Some (Inr (h3, tr3))" "whole h3 tr3 T3" "avl T3" "inorder T3 = around c (inorder ?t)"
    "same_elsewhere (set (around c (inorder ?t))) h2 h3" "tr3 = ?tr\<lparr>avl_root := avl_root tr3\<rparr>"
  proof (cases "c = []")
    case True
    then show thesis
      using that [of h2 "?tr\<lparr>avl_root := root ?t\<rparr>" ?t] h2(1) P2 whole_plug [of h2 ?tr2 "[]" ?t] av(1)
      by (auto simp: set_link_def same_elsewhere_def)
  next
    case False
    then have up: "up c \<noteq> 0" using up_0_iff [OF D(1)] by blast
    then have "upd (set_avl_child (dir c) (root ?t)) (up c) h1 = Inr h2"
      using h2(1) by (cases "upd (set_avl_child (dir c) (root ?t)) (up c) h1") (simp_all add: set_link_def)
    then show thesis using remove_up_ok [OF P2 av False] that False up by auto
  qed
  have "remove_unlink tmp h tr x = Some (Inr (h3(tmp := None), tr3))"
    using num r(1) h1(1)
    by (simp add: remove_unlink_def ld_def n node Let_def split del: if_split cong: if_cong)
  moreover have "whole (h3(tmp := None)) tr3 T3"
    using r(2) tmp r(4) by (subst whole_cong [where h = h3 and tr = tr3]) auto
  moreover have "same_elsewhere (insert tmp (set (around c (inorder ?t)))) h (h3(tmp := None))"
    using same r(5) by (auto simp: same_elsewhere_def)
  ultimately show ?thesis using r(3,4,6)
    by (intro exI [of _ "h3(tmp := None)"] exI [of _ tr3] exI [of _ T3]) simp
qed

section \<open>avl_remove\<close>

lemma distinct_split_eq:
  assumes "a @ x # b = a' @ x # b'" and "distinct (a' @ x # b')"
  shows "a = a'" and "b = b'"
proof -
  have "x \<notin> set a" "x \<notin> set a'" using assms by (metis distinct_append distinct.simps(2) not_distinct_conv_prefix, simp)
  then have "takeWhile (\<lambda>z. z \<noteq> x) (a @ x # b) = a" "takeWhile (\<lambda>z. z \<noteq> x) (a' @ x # b') = a'"
    by (auto simp: takeWhile_append)
  then show "a = a'" using assms(1) by simp
  then show "b = b'" using assms(1) by simp
qed

lemma height_rename: "height (Nd k x b) = height (Nd k x' b')"
  by simp

lemma avl_rename: "avl (Nd k x b) = avl (Nd k x' b)"
  by simp

text \<open>The position of a node.\<close>

lemma node_pos:
  assumes "x \<in> set (inorder t)"
  shows "\<exists>c k b. t = plug c (Nd k x b)"
  using assms
proof (induction t)
  case (Nd k y b)
  show ?case
  proof (cases "x = y")
    case True
    then show ?thesis by (intro exI [of _ "[]"]) auto
  next
    case False
    then obtain d where "x \<in> set (inorder (k d))" using Nd.prems by auto
    then obtain c k' b' where "k d = plug c (Nd k' x b')" using Nd.IH by blast
    then have "Nd k y b = plug (c @ [Fr d y b (k (\<not> d))]) (Nd k' x b')"
      using fill_same [of d y b k] by (simp add: plug_append)
    then show ?thesis by blast
  qed
qed simp

text \<open>The node leaves its place in the order; the others keep theirs.\<close>

lemma avl_remove_ok:
  assumes W: "whole h tr T" "avl T" and x: "AVL_DATA2NODE data (avl_offset tr) = x" "inorder T = A @ x # B"
    and num: "avl_numnodes tr > 0" and tmp: "good_addr tmp" "tmp \<notin> set (inorder T)"
  shows "\<exists>h' tr' T'. avl_remove tmp h tr data = Some (Inr (h', tr')) \<and> whole h' tr' T' \<and> avl T' \<and>
    inorder T' = A @ B \<and> h' tmp = None \<and> h' x \<noteq> None \<and> same_elsewhere (insert tmp (set (inorder T))) h h' \<and>
    tr' = tr\<lparr>avl_numnodes := avl_numnodes tr - 1, avl_root := avl_root tr'\<rparr>"
proof -
  obtain c k b where T: "T = plug c (Nd k x b)" using node_pos [of x T] x(2) by auto
  have P: "at_pos h tr c (Nd k x b)" using W(1) by (simp add: T whole_plug)
  obtain n where n: "h x = Some n" "avl_child n = (\<lambda>d. root (k d))" using at_pos_Nd [OF P] .
  have K: "tree_at h (k d) x d" for d using at_posD(2) [OF P] by simp
  have b: "bal_ok b" using W(2) unfolding T avl_plug avl.simps by blast
  have i: "around c (inorder (k False) @ x # inorder (k True)) = A @ x # B" using x(2) by (simp add: T inorder_plug)
  obtain A' B' where ar: "\<And>xs. around c xs = A' @ xs @ B'" using around_split by blast
  have d0: "distinct (A @ x # B)" using W(1) x(2) by (simp add: whole_def)
  have i': "(A' @ inorder (k False)) @ x # (inorder (k True) @ B') = A @ x # B" using i by (simp add: ar)
  note AB = distinct_split_eq [OF i' d0]
  have sub: "insert tmp (set (A @ B)) \<subseteq> insert tmp (set (inorder T))" using x(2) by auto
  have xAB: "x \<notin> insert tmp (set (A @ B))" using d0 tmp(2) x(2) by auto
  show ?thesis
  proof (cases "\<exists>d. k d = Lf")
    case True
    then obtain d where d: "k d = Lf" by blast
    then have "\<not> (avl_child n False \<noteq> 0 \<and> avl_child n True \<noteq> 0)" by (cases d) (auto simp: n(2))
    then have run: "avl_remove tmp h tr data = remove_unlink tmp h tr x"
      using n(1) by (auto simp: avl_remove_unlink x(1) ld_def)
    have rest: "around c (inorder (k (\<not> d))) = A @ B" using AB d by (cases d) (simp_all add: ar)
    then have "tmp \<notin> set (around c (inorder (k (\<not> d))))" using tmp(2) x(2) by simp
    from remove_unlink_ok [OF P d _ num this] obtain h' tr' T' where
      U: "avl_remove tmp h tr data = Some (Inr (h', tr'))" "whole h' tr' T'" "avl T'" "inorder T' = A @ B" "h' tmp = None"
      "same_elsewhere (insert tmp (set (A @ B))) h h'" "tr' = tr\<lparr>avl_numnodes := avl_numnodes tr - 1, avl_root := avl_root tr'\<rparr>"
      unfolding run rest using W(2) T by blast
    have "h' x \<noteq> None" using U(6) xAB n(1) by (simp add: same_elsewhere_def)
    then show ?thesis using U same_elsewhere_mono [OF sub] by blast
  next
    case False
    then have full: "\<And>d. k d \<noteq> Lf" by blast
    define l where "l = (0 < b)"
    obtain c2 ky y yb Q where y: "k l = plug c2 (Nd ky y yb)" "ky (\<not> l) = Lf"
      "walk_down h (\<not> l) (root (k l)) = Some (Inr y)" and Q: "\<And>xs. around c2 xs = (if \<not> l then Q @ xs else xs @ Q)"
      using walk_down_ok [OF K full, of l "\<not> l"] by blast
    have tmp2: "tmp \<notin> set (around c (inorder (Nd k x b)))" using tmp(2) by (simp add: T inorder_plug)
    let ?C = "c2 @ Fr l y b (k (\<not> l)) # c"
    obtain h1 tr1 where sw: "remove_swap h tr tmp x = Some (Inr (tmp, h1, tr1))" "at_pos h1 tr1 ?C (Nd ky tmp yb)"
      "tr1 = tr\<lparr>avl_root := avl_root tr1\<rparr>" "h1 x \<noteq> None" "same_elsewhere (insert tmp (set (inorder T))) h h1"
      unfolding T inorder_plug using remove_swap_ok [OF P full b tmp(1) tmp2 l_def y] by blast
    have "avl_child n False \<noteq> 0 \<and> avl_child n True \<noteq> 0"
      using full root_0_iff [OF K] by (simp add: n(2))
    then have run: "avl_remove tmp h tr data = remove_unlink tmp h1 tr1 tmp"
      using n(1) sw(1) by (simp add: avl_remove_unlink x(1) ld_def)
    have "plug (c2 @ Fr l x b (k (\<not> l)) # c) (Nd ky y yb) = T"
      using fill_same [of l x b k] by (simp add: plug_append y(1) [symmetric] T)
    then have av: "avl (plug ?C (Nd ky tmp yb))"
      using W(2) avl_ctx_rename [of _ c2 l x b "k (\<not> l)" c y] by (metis avl_plug avl_rename height_rename)
    have ky: "inorder (k l) = around c2 (side l (inorder (ky l)) y [])"
      using y(2) inorder_side [of ky y yb l] by (simp add: y(1) inorder_plug)
    then have rest: "around ?C (inorder (ky l)) = A @ B"
      using AB by (cases l) (simp_all add: around_append ar Q side_def)
    have "set (around ?C (inorder (ky l))) \<subseteq> set (around ?C (inorder (Nd ky tmp yb)))"
      by (auto simp: set_around in_Nd simp del: inorder.simps)
    have num1: "avl_numnodes tr1 > 0" by (subst sw(3)) (simp add: num)
    have "tmp \<notin> set (around ?C (inorder (ky (\<not> \<not> l))))" using rest tmp(2) x(2) by simp
    from remove_unlink_ok [OF sw(2) y(2) av num1 this] obtain h' tr' T' where
      U: "avl_remove tmp h tr data = Some (Inr (h', tr'))" "whole h' tr' T'" "avl T'" "inorder T' = A @ B" "h' tmp = None"
      "same_elsewhere (insert tmp (set (A @ B))) h1 h'" "tr' = tr1\<lparr>avl_numnodes := avl_numnodes tr1 - 1, avl_root := avl_root tr'\<rparr>"
      unfolding run using rest by auto
    from U(7) have "tr' = tr\<lparr>avl_numnodes := avl_numnodes tr - 1, avl_root := avl_root tr'\<rparr>"
      by (subst (asm) sw(3), subst (asm) (2) sw(3)) simp
    moreover have "h' x \<noteq> None" using U(6) xAB sw(4) by (simp add: same_elsewhere_def)
    moreover have "same_elsewhere (insert tmp (set (inorder T))) h h'"
      by (rule same_elsewhere_trans [OF sw(5) same_elsewhere_mono [OF sub U(6)]])
    ultimately show ?thesis using U(1-5) by blast
  qed
qed

end
