(* ===== verification/Avl_Walk.thy ===== *)
theory Avl_Walk
  imports Avl_Remove
begin

text \<open>
  The walks of \<open>src/lib/libavl/avl.c\<close>: \<open>avl_first\<close>, \<open>avl_last\<close>, \<open>AVL_NEXT\<close>, \<open>AVL_PREV\<close>,
  \<open>avl_nearest\<close> and \<open>avl_insert_here\<close> move along the list of the data of a tree, whatever its
  comparison function says.
\<close>

section \<open>A tree and the list of its data\<close>

definition avl_shape :: "heap \<Rightarrow> avl_tree \<Rightarrow> addr list \<Rightarrow> bool" where
  "avl_shape h tr ds \<longleftrightarrow>
     (\<exists>T. whole h tr T \<and> avl T \<and> tree_data tr T = ds) \<and> 0 \<notin> set ds \<and> aligned8 (avl_offset tr) \<and>
     unat (avl_numnodes tr) = length ds"

lemma avl_holds_iff:
  "avl_holds call key h tr ds \<longleftrightarrow> avl_shape h tr ds \<and> compar_is call tr key \<and> sorted_wrt (\<lambda>a b. key a < key b) ds"
  by (auto simp: avl_holds_def avl_shape_def)

lemma avl_shapeE:
  assumes "avl_shape h tr ds"
  obtains T where "whole h tr T" and "avl T" and "ds = map (\<lambda>a. AVL_NODE2DATA a (avl_offset tr)) (inorder T)"
    and "0 \<notin> set ds" and "aligned8 (avl_offset tr)" and "unat (avl_numnodes tr) = length ds"
  using assms by (auto simp: avl_shape_def tree_data_def)

text \<open>The element next to a place between two lists, on one side.\<close>

definition adj :: "bool \<Rightarrow> addr list \<Rightarrow> addr list \<Rightarrow> addr" where
  "adj d A B = (if d then (if B = [] then 0 else hd B) else (if A = [] then 0 else last A))"

lemma adj_simps [simp]:
  "adj True A [] = 0" "adj True A (b # B) = b" "adj False [] B = 0" "adj False (A @ [a]) B = a"
  by (simp_all add: adj_def)

lemma adj_map:
  assumes "\<And>a. a \<in> set A \<union> set B \<Longrightarrow> a \<noteq> 0"
  shows "(if adj d A B = 0 then 0 else f (adj d A B)) = adj d (map f A) (map f B)"
  using assms [of "hd B"] assms [of "last A"] by (auto simp: adj_def hd_map last_map)

fun bef :: "ctx \<Rightarrow> addr list" where
  "bef [] = []"
| "bef (Fr d x b s # c) = bef c @ (if d then inorder s @ [x] else [])"

fun beh :: "ctx \<Rightarrow> addr list" where
  "beh [] = []"
| "beh (Fr d x b s # c) = (if d then [] else x # inorder s) @ beh c"

lemma around_bef_beh: "around c xs = bef c @ xs @ beh c"
  by (induction c xs rule: around.induct) (simp_all add: side_def)

lemma length_bef_beh: "length (bef c) + length (beh c) = length (cnodes c)"
  by (induction c rule: bef.induct) auto

lemma inorder_pos: "inorder (plug c (Nd k x b)) = (bef c @ inorder (k False)) @ x # (inorder (k True) @ beh c)"
  by (simp add: inorder_plug around_bef_beh)

section \<open>Ends of a subtree\<close>

lemma walk_down_end:
  assumes "tree_at h t p e" and "t \<noteq> Lf"
  shows "walk_down h d (root t) = Some (Inr (if d then last (inorder t) else hd (inorder t)))"
proof -
  obtain c k y b P where t: "t = plug c (Nd k y b)" "k d = Lf" "walk_down h d (root t) = Some (Inr y)"
    and P: "\<And>xs. around c xs = (if d then P @ xs else xs @ P)"
    using walk_down_ok [OF assms, of d] by blast
  have "inorder t = (if d then P @ inorder (k False) @ [y] else y # inorder (k True) @ P)"
    using t(1,2) by (cases d) (simp_all add: inorder_plug P)
  then show ?thesis using t(3) by (cases d) simp_all
qed

lemma edge_loop_ok:
  "tree_at h t p e \<Longrightarrow> edge_loop h d (root t) prev =
     Some (Inr (if t = Lf then prev else if d then last (inorder t) else hd (inorder t)))"
proof (induction t arbitrary: p e prev)
  case Lf
  then show ?case by (simp add: edge_loop.simps [of _ _ 0])
next
  case (Nd k x b)
  obtain n where n: "h x = Some n" "x \<noteq> 0" "avl_child n = (\<lambda>d. root (k d))"
    using Nd.prems by (rule tree_at_child)
  have "edge_loop h d x prev = edge_loop h d (root (k d)) x"
    using n by (subst edge_loop.simps) (simp add: ld_def)
  moreover have "tree_at h (k d) x d" using Nd.prems by simp
  ultimately show ?case using Nd.IH [of d x d x] by (cases d; cases "k d = Lf") (auto simp: hd_append)
qed

section \<open>Steps\<close>

lemma walk_up_ok:
  "ctx_at h c x \<Longrightarrow> node_at h x ch (up c) (dir c) b \<Longrightarrow> walk_up h (\<not> d) x = Some (Inr (adj d (bef c) (beh c)))"
proof (induction c arbitrary: x ch b)
  case Nil
  then obtain n where "h x = Some n" "AVL_XPARENT n = 0" by (auto simp: node_at_def)
  then show ?case by (subst walk_up.simps) (cases d; simp add: ld_def)
next
  case (Cons f c)
  obtain e y yb s where f: "f = Fr e y yb s" by (cases f)
  obtain n where n: "h x = Some n" "AVL_XPARENT n = y" "AVL_XCHILD n = e"
    using Cons.prems(2) by (auto simp: node_at_def f)
  have Y: "node_at h y ((\<lambda>_. root s)(e := x)) (up c) (dir c) yb" "ctx_at h c y"
    using Cons.prems(1) by (simp_all add: f)
  then have "y \<noteq> 0" by (simp add: node_at_def good_addr_def)
  then have unf: "walk_up h (\<not> d) x = (if e \<noteq> d then Some (Inr y) else walk_up h (\<not> d) y)"
    using n by (subst walk_up.simps) (auto simp: ld_def)
  show ?case
  proof (cases "e = d")
    case True
    then show ?thesis using unf Cons.IH [OF Y(2,1)] by (cases d) (simp_all add: f adj_def)
  next
    case False
    then show ?thesis using unf by (cases d; cases e) (simp_all add: f adj_def)
  qed
qed

lemma child_ix_of_bool [simp]: "child_ix (of_bool d) = Inr d"
  by (simp add: child_ix_def)

lemma avl_walk_pos:
  assumes P: "at_pos h tr c (Nd k x b)"
  shows "avl_walk h tr (AVL_NODE2DATA x (avl_offset tr)) (of_bool d) =
    (let z = adj d (bef c @ inorder (k False)) (inorder (k True) @ beh c) in
     Some (Inr (if z = 0 then 0 else AVL_NODE2DATA z (avl_offset tr))))"
proof -
  obtain n where n: "h x = Some n" "avl_child n = (\<lambda>d. root (k d))" "good_addr x" using at_pos_Nd [OF P] .
  have K: "tree_at h (k d) x d" and X: "node_at h x (\<lambda>d. root (k d)) (up c) (dir c) b"
    using at_posD(2) [OF P] by simp_all
  have step: "(if avl_child n d \<noteq> 0 then walk_down h (\<not> d) (avl_child n d) else walk_up h (\<not> d) x) =
      Some (Inr (adj d (bef c @ inorder (k False)) (inorder (k True) @ beh c)))"
  proof (cases "k d = Lf")
    case True
    then show ?thesis using walk_up_ok [OF at_posD(1) [OF P, simplified] X, of d]
      by (cases d) (simp_all add: n(2) adj_def)
  next
    case False
    then show ?thesis using walk_down_end [OF K False, of "\<not> d"] root_0_iff [OF K]
      by (cases d) (simp_all add: n(2) adj_def)
  qed
  show ?thesis
    using n(1,3) step by (simp add: avl_walk_def ld_def Let_def good_addr_def split del: if_split cong: if_cong)
qed

lemma shape_pos:
  assumes S: "avl_shape h tr ds" and ds: "ds = A @ v # B"
  obtains c k x b where "at_pos h tr c (Nd k x b)" and "v = AVL_NODE2DATA x (avl_offset tr)"
    and "A = map (\<lambda>a. AVL_NODE2DATA a (avl_offset tr)) (bef c @ inorder (k False))"
    and "B = map (\<lambda>a. AVL_NODE2DATA a (avl_offset tr)) (inorder (k True) @ beh c)"
    and "avl (plug c (Nd k x b))"
proof -
  let ?D = "\<lambda>a. AVL_NODE2DATA a (avl_offset tr)"
  obtain T where T: "whole h tr T" "avl T" "ds = map ?D (inorder T)" using avl_shapeE [OF S] .
  then obtain A' x B' where i: "inorder T = A' @ x # B'" "A = map ?D A'" "v = ?D x" "B = map ?D B'"
    using ds by (auto simp: append_eq_map_conv Cons_eq_map_conv)
  then obtain c k b where pl: "T = plug c (Nd k x b)" using node_pos [of x T] by auto
  have "distinct (A' @ x # B')" using T(1) i(1) by (simp add: whole_def)
  then have "bef c @ inorder (k False) = A'" "inorder (k True) @ beh c = B'"
    using distinct_split_eq [of "bef c @ inorder (k False)" x "inorder (k True) @ beh c" A' B']
      inorder_pos [of c k x b] i(1) pl by simp_all
  then show thesis using that [of c k x b] T(1,2) i pl by (simp add: whole_plug)
qed

text \<open>\<open>AVL_NEXT\<close> (1) and \<open>AVL_PREV\<close> (0).\<close>

lemma avl_walk_shape:
  assumes S: "avl_shape h tr (A @ v # B)"
  shows "avl_walk h tr v (of_bool d) = Some (Inr (adj d A B))"
proof -
  obtain c k x b where p: "at_pos h tr c (Nd k x b)" "v = AVL_NODE2DATA x (avl_offset tr)"
    "A = map (\<lambda>a. AVL_NODE2DATA a (avl_offset tr)) (bef c @ inorder (k False))"
    "B = map (\<lambda>a. AVL_NODE2DATA a (avl_offset tr)) (inorder (k True) @ beh c)"
    using shape_pos [OF S refl] .
  have "a \<noteq> 0" if "a \<in> set (around c (inorder (Nd k x b)))" for a
    using at_pos_good [OF p(1) that] by (simp add: good_addr_def)
  then have nz: "a \<noteq> 0" if "a \<in> set (bef c @ inorder (k False)) \<union> set (inorder (k True) @ beh c)" for a
    using that by (auto simp: around_bef_beh)
  let ?A = "bef c @ inorder (k False)" and ?B = "inorder (k True) @ beh c"
  have "(if adj d ?A ?B = 0 then 0 else AVL_NODE2DATA (adj d ?A ?B) (avl_offset tr)) = adj d A B"
    unfolding p(3,4) by (rule adj_map) (rule nz)
  then show ?thesis by (simp only: p(2) avl_walk_pos [OF p(1)] Let_def)
qed

lemma avl_first_shape:
  assumes S: "avl_shape h tr ds"
  shows "avl_first h tr = Some (Inr (adj True [] ds))" and "avl_last h tr = Some (Inr (adj False ds []))"
proof -
  obtain T where T: "whole h tr T" "ds = map (\<lambda>a. AVL_NODE2DATA a (avl_offset tr)) (inorder T)" using avl_shapeE [OF S] .
  then have W: "tree_at h T 0 False" "avl_root tr = root T" by (simp_all add: whole_def)
  have nz: "a \<noteq> 0" if "a \<in> set (inorder T)" for a using tree_at_good [OF W(1) that] by (simp add: good_addr_def)
  show "avl_first h tr = Some (Inr (adj True [] ds))" "avl_last h tr = Some (Inr (adj False ds []))"
    unfolding avl_first_def avl_last_def W(2) edge_loop_ok [OF W(1)] T(2)
    using nz by (auto simp: adj_def hd_map last_map)
qed

section \<open>From a cookie\<close>

text \<open>\<open>avl_nearest\<close>: the neighbour, on either side, of the empty place a lookup ended at.\<close>

lemma avl_nearest_cookie:
  assumes W: "whole h tr (plug c Lf)"
  shows "avl_nearest h tr (cookie c) (of_bool d) =
    (let z = adj d (bef c) (beh c) in Some (Inr (if z = 0 then 0 else AVL_NODE2DATA z (avl_offset tr))))"
proof (cases c rule: up.cases)
  case 1
  have "avl_root tr = 0" using W by (simp add: whole_def 1)
  then show ?thesis by (cases d) (simp_all add: 1 avl_nearest_def cookie_def adj_def)
next
  case (2 e y b s c')
  have P: "at_pos h tr c' (Nd ((\<lambda>_. s)(e := Lf)) y b)" using W by (simp add: 2 whole_plug at_pos_Cons)
  have y: "y \<noteq> 0" "aligned8 y" using at_pos_Nd [OF P] by (auto simp: good_addr_def)
  then have ck: "AVL_INDEX2NODE (cookie c) = y" "AVL_INDEX2CHILD (cookie c) = e" by (simp_all add: 2 cookie_def)
  have run: "avl_nearest h tr (cookie c) (of_bool d) =
      (if e = d then avl_walk h tr (AVL_NODE2DATA y (avl_offset tr)) (of_bool d) else Some (Inr (AVL_NODE2DATA y (avl_offset tr))))"
    unfolding avl_nearest_def ck Let_def using y(1) by auto
  show ?thesis
  proof (cases "e = d")
    case True
    then show ?thesis using run avl_walk_pos [OF P, of d] by (cases d) (simp_all add: 2 adj_def)
  next
    case False
    then show ?thesis using run y(1) by (cases d; cases e) (simp_all add: 2 adj_def)
  qed
qed

text \<open>\<open>avl_insert_here\<close>: a new element right after (1) or before (0) one that is there.\<close>

lemma avl_insert_here_pos:
  assumes P: "at_pos h tr c (Nd k x b)" and bal: "avl (plug c (Nd k x b))"
    and new: "addable h tr v" "aligned8 (avl_offset tr)" "AVL_DATA2NODE v (avl_offset tr) \<notin> set (around c (inorder (Nd k x b)))"
    and here: "AVL_NODE2DATA x (avl_offset tr) \<noteq> 0"
  shows "\<exists>h' tr' T'. avl_insert_here h tr v (AVL_NODE2DATA x (avl_offset tr)) (of_bool d) = Some (Inr (h', tr')) \<and>
    whole h' tr' T' \<and> avl T' \<and>
    inorder T' = (let A = bef c @ inorder (k False); B = inorder (k True) @ beh c in
      if d then A @ x # AVL_DATA2NODE v (avl_offset tr) # B else A @ AVL_DATA2NODE v (avl_offset tr) # x # B) \<and>
    same_elsewhere (set (inorder T')) h h' \<and>
    tr' = tr\<lparr>avl_numnodes := avl_numnodes tr + 1, avl_root := avl_root tr'\<rparr>"
proof -
  let ?z = "AVL_DATA2NODE v (avl_offset tr)"
  obtain n where n: "h x = Some n" "avl_child n = (\<lambda>d. root (k d))" "good_addr x" using at_pos_Nd [OF P] .
  have K: "tree_at h (k d) x d" using at_posD(2) [OF P] by simp
  obtain c' where pl: "plug c' Lf = plug c (Nd k x b)"
    and run: "avl_insert_here h tr v (AVL_NODE2DATA x (avl_offset tr)) (of_bool d) = avl_insert h tr v (cookie c')"
    and ar: "around c' [?z] = (let A = bef c @ inorder (k False); B = inorder (k True) @ beh c in
      if d then A @ x # ?z # B else A @ ?z # x # B)"
  proof (cases "k d = Lf")
    case True
    let ?c = "Fr d x b (k (\<not> d)) # c"
    have "plug ?c Lf = plug c (Nd k x b)" using fill_same [of d x b k] True by simp
    moreover have "avl_insert_here h tr v (AVL_NODE2DATA x (avl_offset tr)) (of_bool d) = avl_insert h tr v (cookie ?c)"
      using n new(1) here True by (simp add: avl_insert_here_def ld_def addable_def cookie_def)
    moreover have "around ?c [?z] = (let A = bef c @ inorder (k False); B = inorder (k True) @ beh c in
      if d then A @ x # ?z # B else A @ ?z # x # B)"
      using True by (cases d) (simp_all add: around_bef_beh side_def)
    ultimately show thesis by (rule that)
  next
    case False
    obtain c2 ky y yb Q where y: "k d = plug c2 (Nd ky y yb)" "ky (\<not> d) = Lf" "walk_down h (\<not> d) (root (k d)) = Some (Inr y)"
      and Q: "\<And>xs. around c2 xs = (if \<not> d then Q @ xs else xs @ Q)"
      using walk_down_ok [OF K False, of "\<not> d"] by blast
    let ?c1 = "c2 @ Fr d x b (k (\<not> d)) # c" and ?c = "Fr (\<not> d) y yb (ky d) # c2 @ Fr d x b (k (\<not> d)) # c"
    have P1: "at_pos h tr ?c1 (Nd ky y yb)" by (rule at_pos_below(1) [OF P y(1)])
    obtain m where m: "h y = Some m" "avl_child m = (\<lambda>d. root (ky d))" using at_pos_Nd [OF P1] .
    have "plug ?c Lf = plug c (Nd k x b)"
      using fill_same [of "\<not> d" y yb ky] y(2) fill_same [of d x b k] y(1) by (simp add: plug_append)
    moreover have "avl_insert_here h tr v (AVL_NODE2DATA x (avl_offset tr)) (of_bool d) = avl_insert h tr v (cookie ?c)"
      using n new(1) here False y(2,3) m root_0_iff [OF K]
      by (simp add: avl_insert_here_def ld_def addable_def cookie_def)
    moreover have "inorder (k d) = around c2 (side (\<not> d) [] y (inorder (ky d)))"
      using y(2) inorder_side [of ky y yb "\<not> d"] by (simp add: y(1) inorder_plug)
    then have "around ?c [?z] = (let A = bef c @ inorder (k False); B = inorder (k True) @ beh c in
      if d then A @ x # ?z # B else A @ ?z # x # B)"
      by (cases d) (simp_all add: around_append around_bef_beh [of c] Q side_def)
    ultimately show thesis by (rule that)
  qed
  have W: "at_pos h tr c' Lf" using P pl whole_plug by metis
  have bal': "avl_ctx 0 c'" using bal avl_plug [of c' Lf] pl by simp
  have "set (around c (inorder (Nd k x b))) = set (cnodes c')"
    using inorder_plug [of c' Lf] inorder_plug [of c "Nd k x b"] pl by (simp add: set_around)
  then have z: "?z \<notin> set (cnodes c')" using new(3) by simp
  have v: "h ?z \<noteq> None" "v AND 7 = 0" using new(1) by (simp_all add: addable_def)
  obtain h' tr' T' where I: "avl_insert h tr v (cookie c') = Some (Inr (h', tr'))" "whole h' tr' T'" "avl T'"
    "inorder T' = around c' [?z]" "same_elsewhere (set (around c' [?z])) h h'"
    "tr' = tr\<lparr>avl_numnodes := avl_numnodes tr + 1, avl_root := avl_root tr'\<rparr>"
    using avl_insert_ok [OF W bal' addable_good [OF new(1,2)] z v(1) refl v(2)] by blast
  show ?thesis unfolding run ar [symmetric]
    by (intro exI [of _ h'] exI [of _ tr'] exI [of _ T'] conjI I(1-4) I(6)) (use I(4,5) in simp)
qed

end
