(* ===== verification/Avl_Set.thy ===== *)
theory Avl_Set
  imports Avl_Walk
begin

text \<open>
  The tree of \<open>src/lib/libavl/avl.c\<close> as an ordered set. The locale \<open>key_store\<close> is the interface:
  what a client may rely on of a container of data with keys, the laws of its lookup, insertion
  and removal. Histories of operations are followed once inside it; \<open>avl_add\<close>, \<open>avl_remove\<close> and
  \<open>avl_find\<close> are its interpretation.
\<close>

section \<open>Removal over the list of data\<close>

lemma tmp_outside: "whole h tr T \<Longrightarrow> h tmp = None \<Longrightarrow> tmp \<notin> set (inorder T)"
  using tree_at_dom [of h T 0 False tmp] by (auto simp: whole_def)

lemma avl_remove_shape:
  assumes S: "avl_shape h tr (A @ d # B)" and tmp: "good_addr tmp" "h tmp = None"
  shows "\<exists>h' tr'. avl_remove tmp h tr d = Some (Inr (h', tr')) \<and> avl_shape h' tr' (A @ B) \<and>
    avl_compar tr' = avl_compar tr \<and> avl_offset tr' = avl_offset tr \<and> dom h' = dom h"
proof -
  let ?D = "\<lambda>a. AVL_NODE2DATA a (avl_offset tr)" and ?x = "AVL_DATA2NODE d (avl_offset tr)"
  obtain T where T: "whole h tr T" "avl T" "A @ d # B = map ?D (inorder T)" "0 \<notin> set (A @ d # B)" "aligned8 (avl_offset tr)"
    "unat (avl_numnodes tr) = length (A @ d # B)" using avl_shapeE [OF S] .
  obtain A' B' where i: "inorder T = A' @ ?x # B'" "A = map ?D A'" "B = map ?D B'"
    using T(3) by (auto simp: append_eq_map_conv Cons_eq_map_conv)
  have "avl_numnodes tr \<noteq> 0" using T(6) by auto
  then have num: "0 < avl_numnodes tr" "unat (avl_numnodes tr - 1) = length (A @ B)"
    using T(6) by (simp_all add: word_greater_zero_iff unat_minus_one)
  note t = tmp_outside [OF T(1) tmp(2)]
  obtain h' tr' T' where r: "avl_remove tmp h tr d = Some (Inr (h', tr'))" "whole h' tr' T'" "avl T'" "inorder T' = A' @ B'"
    "h' tmp = None" "h' ?x \<noteq> None" "same_elsewhere (insert tmp (set (inorder T))) h h'"
    "tr' = tr\<lparr>avl_numnodes := avl_numnodes tr - 1, avl_root := avl_root tr'\<rparr>"
    using avl_remove_ok [OF T(1,2) refl i(1) num(1) tmp(1) t] by blast
  have o: "avl_offset tr' = avl_offset tr" "avl_compar tr' = avl_compar tr" "avl_numnodes tr' = avl_numnodes tr - 1"
    by (subst r(8), simp)+
  have "h' a \<noteq> None \<longleftrightarrow> h a \<noteq> None" for a
  proof (cases "a \<in> insert tmp (set (inorder T))")
    case True
    have "h' a \<noteq> None" if "a \<in> set (A' @ B')"
      using tree_at_dom [of h' T' 0 False a] r(2,4) that by (simp add: whole_def)
    moreover have "h a \<noteq> None" if "a \<in> set (inorder T)"
      using tree_at_dom [of h T 0 False a] T(1) that by (simp add: whole_def)
    ultimately show ?thesis using True r(5,6) tmp(2) i(1) by auto
  qed (use r(7) in \<open>simp add: same_elsewhere_def\<close>)
  then have dom: "dom h' = dom h" by (simp add: dom_def)
  have "avl_shape h' tr' (A @ B)"
    using r(2-4) i(2,3) T(4,5) num(2) unfolding avl_shape_def o tree_data_def by auto
  then show ?thesis using r(1) o(1,2) dom by blast
qed

lemma avl_remove_holds:
  assumes H: "avl_holds call key h tr ds" and d: "d \<in> set ds" and tmp: "good_addr tmp" "h tmp = None"
  shows "\<exists>h' tr'. avl_remove tmp h tr d = Some (Inr (h', tr')) \<and> avl_holds call key h' tr' (filter (\<lambda>x. x \<noteq> d) ds) \<and>
    avl_compar tr' = avl_compar tr \<and> avl_offset tr' = avl_offset tr \<and> dom h' = dom h"
proof -
  obtain A B where ds: "ds = A @ d # B" using d by (meson split_list)
  have H': "avl_shape h tr ds" "compar_is call tr key" "sorted_wrt (\<lambda>a b. key a < key b) ds"
    using H by (simp_all add: avl_holds_iff)
  then have "d \<notin> set A" "d \<notin> set B" by (auto simp: ds sorted_wrt_append)
  then have "filter (\<lambda>x. x \<noteq> d) A = A" "filter (\<lambda>x. x \<noteq> d) B = B" by (auto intro!: filter_True)
  then have f: "filter (\<lambda>x. x \<noteq> d) ds = A @ B" by (simp add: ds)
  have "sorted_wrt (\<lambda>a b. key a < key b) (A @ B)" using H'(3) by (simp add: ds sorted_wrt_append)
  moreover obtain h' tr' where "avl_remove tmp h tr d = Some (Inr (h', tr'))" "avl_shape h' tr' (A @ B)"
    "avl_compar tr' = avl_compar tr" "avl_offset tr' = avl_offset tr" "dom h' = dom h"
    using avl_remove_shape [of h tr A d B, OF _ tmp] H'(1) ds by blast
  ultimately show ?thesis using H'(2) f by (auto simp: avl_holds_iff compar_is_def)
qed

section \<open>Lists in the order of keys\<close>

lemma sorted_key_inj:
  "sorted_wrt (\<lambda>a b. key a < key b) ds \<Longrightarrow> x \<in> set ds \<Longrightarrow> y \<in> set ds \<Longrightarrow> key x = key y \<Longrightarrow> x = y"
  for key :: "'d \<Rightarrow> 'k::linorder"
proof (induction ds)
  case (Cons a ds)
  then have "\<forall>b\<in>set ds. key a \<noteq> key b" by fastforce
  then show ?case using Cons by fastforce
qed simp

lemma find_key:
  fixes key :: "'d \<Rightarrow> 'k::linorder"
  assumes "sorted_wrt (\<lambda>a b. key a < key b) ds"
  shows "List.find (\<lambda>d. key d = k) ds = Some d \<longleftrightarrow> d \<in> set ds \<and> key d = k"
proof
  assume "List.find (\<lambda>d. key d = k) ds = Some d"
  then show "d \<in> set ds \<and> key d = k" by (auto simp: find_Some_iff)
next
  assume d: "d \<in> set ds \<and> key d = k"
  then obtain e where e: "List.find (\<lambda>d. key d = k) ds = Some e"
    by (cases "List.find (\<lambda>d. key d = k) ds") (auto simp: find_None_iff)
  then have "e \<in> set ds" "key e = k" by (auto simp: find_Some_iff)
  then show "List.find (\<lambda>d. key d = k) ds = Some d" using sorted_key_inj [OF assms, of e d] d e by simp
qed

section \<open>The interface\<close>

datatype 'd store_op = Add 'd | Del 'd

text \<open>The abstract state is the set of the data; which operations the callers may make, and what they do.\<close>

fun legal :: "('d \<Rightarrow> 'k) \<Rightarrow> ('d \<Rightarrow> bool) \<Rightarrow> 'd set \<Rightarrow> 'd store_op list \<Rightarrow> bool" where
  "legal key ok S [] = True"
| "legal key ok S (Add d # ops) = (ok d \<and> key d \<notin> key ` S \<and> legal key ok (insert d S) ops)"
| "legal key ok S (Del d # ops) = (d \<in> S \<and> legal key ok (S - {d}) ops)"

fun after :: "'d set \<Rightarrow> 'd store_op list \<Rightarrow> 'd set" where
  "after S [] = S"
| "after S (Add d # ops) = after (insert d S) ops"
| "after S (Del d # ops) = after (S - {d}) ops"

fun run :: "('s \<Rightarrow> 'd \<Rightarrow> 's option) \<Rightarrow> ('s \<Rightarrow> 'd \<Rightarrow> 's option) \<Rightarrow> 's \<Rightarrow> 'd store_op list \<Rightarrow> 's option" where
  "run add del s [] = Some s"
| "run add del s (Add d # ops) = Option.bind (add s d) (\<lambda>s. run add del s ops)"
| "run add del s (Del d # ops) = Option.bind (del s d) (\<lambda>s. run add del s ops)"

locale key_store =
  fixes holds :: "'s \<Rightarrow> 'd list \<Rightarrow> bool" and key :: "'d \<Rightarrow> 'k::linorder" and ok :: "'s \<Rightarrow> 'd \<Rightarrow> bool"
    and add :: "'s \<Rightarrow> 'd \<Rightarrow> 's option" and del :: "'s \<Rightarrow> 'd \<Rightarrow> 's option" and lookup :: "'s \<Rightarrow> 'd \<Rightarrow> 'd option"
  assumes in_order: "holds s ds \<Longrightarrow> sorted_wrt (\<lambda>a b. key a < key b) ds"
    and add_law: "holds s ds \<Longrightarrow> ok s d \<Longrightarrow> key d \<notin> key ` set ds \<Longrightarrow>
      \<exists>s'. add s d = Some s' \<and> ok s' = ok s \<and>
        holds s' (filter (\<lambda>x. key x < key d) ds @ d # filter (\<lambda>x. key d < key x) ds)"
    and del_law: "holds s ds \<Longrightarrow> d \<in> set ds \<Longrightarrow>
      \<exists>s'. del s d = Some s' \<and> ok s' = ok s \<and> holds s' (filter (\<lambda>x. x \<noteq> d) ds)"
    and lookup_law: "holds s ds \<Longrightarrow> lookup s v = List.find (\<lambda>d. key d = key v) ds"
begin

lemma set_add: "key d \<notin> key ` set ds \<Longrightarrow>
    set (filter (\<lambda>x. key x < key d) ds @ d # filter (\<lambda>x. key d < key x) ds) = insert d (set ds)"
  by (auto simp: image_iff not_less le_less)

text \<open>After any legal history the container holds what the abstract set has, in order.\<close>

lemma run_holds:
  "holds s ds \<Longrightarrow> legal key (ok s) (set ds) ops \<Longrightarrow>
   \<exists>s' ds'. run add del s ops = Some s' \<and> holds s' ds' \<and> set ds' = after (set ds) ops"
proof (induction ops arbitrary: s ds)
  case Nil
  then show ?case by auto
next
  case (Cons op ops)
  show ?case
  proof (cases op)
    case (Add d)
    then have d: "ok s d" "key d \<notin> key ` set ds" using Cons.prems(2) by simp_all
    obtain s' where s': "add s d = Some s'" "ok s' = ok s"
      "holds s' (filter (\<lambda>x. key x < key d) ds @ d # filter (\<lambda>x. key d < key x) ds)"
      using add_law [OF Cons.prems(1) d] by blast
    have "legal key (ok s') (set (filter (\<lambda>x. key x < key d) ds @ d # filter (\<lambda>x. key d < key x) ds)) ops"
      unfolding set_add [OF d(2)] s'(2) using Cons.prems(2) Add by simp
    from Cons.IH [OF s'(3) this] show ?thesis unfolding set_add [OF d(2)] by (simp add: Add s'(1))
  next
    case (Del d)
    then have d: "d \<in> set ds" using Cons.prems(2) by simp
    obtain s' where s': "del s d = Some s'" "ok s' = ok s" "holds s' (filter (\<lambda>x. x \<noteq> d) ds)"
      using del_law [OF Cons.prems(1) d] by blast
    have set: "set (filter (\<lambda>x. x \<noteq> d) ds) = set ds - {d}" by auto
    have "legal key (ok s') (set (filter (\<lambda>x. x \<noteq> d) ds)) ops"
      unfolding set s'(2) using Cons.prems(2) Del by simp
    from Cons.IH [OF s'(3) this] show ?thesis unfolding set by (simp add: Del s'(1))
  qed
qed

text \<open>A lookup answers for the abstract set.\<close>

lemma lookup_iff: "holds s ds \<Longrightarrow> lookup s v = Some d \<longleftrightarrow> d \<in> set ds \<and> key d = key v"
  by (simp only: lookup_law find_key [OF in_order])

lemma run_lookup:
  assumes "holds s ds" and "legal key (ok s) (set ds) ops"
  shows "\<exists>s'. run add del s ops = Some s' \<and>
    (\<forall>v d. lookup s' v = Some d \<longleftrightarrow> d \<in> after (set ds) ops \<and> key d = key v)"
proof -
  obtain s' ds' where "run add del s ops = Some s'" "holds s' ds'" "set ds' = after (set ds) ops"
    using run_holds [OF assms] by blast
  then show ?thesis using lookup_iff [of s' ds'] by simp
qed

end

section \<open>The operations of the tree as an instance\<close>

definition done_ok :: "(fault + 'a) option \<Rightarrow> 'a option" where
  "done_ok r = (case r of Some (Inr x) \<Rightarrow> Some x | _ \<Rightarrow> None)"

definition found :: "(fault + addr \<times> u64 option) option \<Rightarrow> addr option" where
  "found r = (case r of Some (Inr (d, None)) \<Rightarrow> Some d | _ \<Rightarrow> None)"

interpretation avl: key_store "\<lambda>(h, tr) ds. avl_holds call key h tr ds \<and> good_addr tmp \<and> h tmp = None" key
    "\<lambda>(h, tr). addable h tr" "\<lambda>(h, tr) d. done_ok (avl_add call h tr d)" "\<lambda>(h, tr) d. done_ok (avl_remove tmp h tr d)"
    "\<lambda>(h, tr) v. found (avl_find call h tr v)"
  for call :: compar_env and key :: "addr \<Rightarrow> 'k::linorder" and tmp :: addr
proof (unfold_locales, goal_cases)
  case (1 s ds)
  then show ?case by (auto simp: avl_holds_iff)
next
  case (2 s ds d)
  obtain h tr where s: "s = (h, tr)" by (cases s)
  have "key d \<notin> key ` set ds" using 2 by simp
  then have new: "\<forall>x\<in>set ds. key x \<noteq> key d" by (metis imageI)
  have H: "avl_holds call key h tr ds" "addable h tr d" "good_addr tmp" "h tmp = None"
    using 2 by (auto simp: s)
  obtain h' tr' where r: "avl_add call h tr d = Some (Inr (h', tr'))"
    "avl_holds call key h' tr' (filter (\<lambda>x. key x < key d) ds @ d # filter (\<lambda>x. key d < key x) ds)"
    "avl_offset tr' = avl_offset tr" "dom h' = dom h"
    using avl_add_holds [OF H(1,2) new] by blast
  have "h' a = None \<longleftrightarrow> h a = None" for a using r(4) domIff by metis
  then show ?case using r(1-3) H(3,4) by (auto simp: s done_ok_def addable_def fun_eq_iff)
next
  case (3 s ds d)
  obtain h tr where s: "s = (h, tr)" by (cases s)
  have H: "avl_holds call key h tr ds" "d \<in> set ds" "good_addr tmp" "h tmp = None"
    using 3 by (auto simp: s)
  obtain h' tr' where r: "avl_remove tmp h tr d = Some (Inr (h', tr'))" "avl_holds call key h' tr' (filter (\<lambda>x. x \<noteq> d) ds)"
    "avl_offset tr' = avl_offset tr" "dom h' = dom h"
    using avl_remove_holds [OF H] by blast
  have "h' a = None \<longleftrightarrow> h a = None" for a using r(4) domIff by metis
  then show ?case using r(1-3) H(3,4) by (auto simp: s done_ok_def addable_def fun_eq_iff)
next
  case (4 s ds v)
  obtain h tr where s: "s = (h, tr)" by (cases s)
  have H: "avl_holds call key h tr ds" using 4 by (simp add: s)
  then have "sorted_wrt (\<lambda>a b. key a < key b) ds" by (simp add: avl_holds_iff)
  note find = find_key [OF this]
  show ?case
  proof (cases "\<exists>d\<in>set ds. key d = key v")
    case True
    then obtain d where d: "d \<in> set ds" "key d = key v" "avl_find call h tr v = Some (Inr (d, None))"
      using avl_find_holds [OF H, of v] by blast
    then have "List.find (\<lambda>d. key d = key v) ds = Some d" by (simp add: find)
    then show ?thesis using d(3) by (simp add: s found_def)
  next
    case False
    then obtain p where "avl_find call h tr v = Some (Inr (0, Some p))" using avl_find_holds [OF H, of v] by blast
    moreover have "List.find (\<lambda>d. key d = key v) ds = None" using False by (auto simp: find_None_iff)
    ultimately show ?thesis by (simp add: s found_def)
  qed
qed

end
