(* ===== verification/Avl_Update.thy ===== *)
theory Avl_Update
  imports Avl_Set
begin

text \<open>
  Repositioning an element whose key changed (\<open>avl_update\<close>, \<open>avl_update_lt\<close>, \<open>avl_update_gt\<close> of
  \<open>src/lib/libavl/avl.c\<close>), insertion next to an element, and neighbours of a missing value.
\<close>

section \<open>Creation\<close>

lemma avl_create_holds:
  assumes "avl_create compar sz off = Inr tr" and "\<forall>a b. call compar a b = AVL_CMP (key a) (key b)"
  shows "avl_holds call key h tr []"
proof -
  have tr: "tr = \<lparr>avl_root = 0, avl_compar = compar, avl_offset = off, avl_numnodes = 0, avl_size = sz\<rparr>" "off AND 7 = 0"
    using assms(1) by (auto simp: avl_create_def bindr_Inr_iff guard_def split: if_splits)
  then have "whole h tr Lf" by (simp add: whole_def)
  then show ?thesis using tr assms(2)
    by (auto simp: avl_holds_iff avl_shape_def tree_data_def compar_is_def aligned8_def intro!: exI [of _ Lf])
qed

section \<open>Neighbours of a value that is not there\<close>

lemma avl_nearest_holds:
  assumes H: "avl_holds call key h tr ds" and new: "\<forall>d\<in>set ds. key d \<noteq> key v"
  shows "\<exists>p. avl_find call h tr v = Some (Inr (0, Some p)) \<and>
    avl_nearest h tr p (of_bool d) = Some (Inr (adj d (filter (\<lambda>x. key x < key v) ds) (filter (\<lambda>x. key v < key x) ds)))"
proof -
  obtain T where T: "whole h tr T" "tree_data tr T = ds" "sorted_wrt (\<lambda>a b. key a < key b) (tree_data tr T)"
    and c: "compar_is call tr key" using H by (auto simp: avl_holds_def)
  have "\<not> (\<exists>a\<in>set (inorder T). cmp_at call tr v a = 0 \<and> P a)" for P
    using new inorder_mem_data [of _ T tr] T(2) by (force simp: cmp_key [OF c])
  with avl_find_ok [OF T(1) separates_sorted [OF c T(3)], of v] obtain cx where
    f: "avl_find call h tr v = Some (Inr (0, Some (cookie cx)))" and pl: "plug cx Lf = T"
    and ar: "\<And>ys. around cx ys = before (cmp_at call tr v) (inorder T) @ ys @ behind (cmp_at call tr v) (inorder T)"
    by blast
  let ?bef = "before (cmp_at call tr v) (inorder T)" and ?beh = "behind (cmp_at call tr v) (inorder T)"
  have i: "inorder T = bef cx @ beh cx" using inorder_plug [of cx Lf] pl by (simp add: around_bef_beh)
  then have "distinct (bef cx @ 0 # beh cx)"
    using T(1) tree_at_good [of h T 0 False 0] by (auto simp: whole_def good_addr_def)
  moreover have "?bef @ 0 # ?beh = bef cx @ 0 # beh cx" using ar [of "[0]"] by (simp add: around_bef_beh)
  ultimately have "?bef = bef cx \<and> ?beh = beh cx" using distinct_split_eq by metis
  then have near: "avl_nearest h tr (cookie cx) (of_bool d) =
      Some (Inr (if adj d ?bef ?beh = 0 then 0 else AVL_NODE2DATA (adj d ?bef ?beh) (avl_offset tr)))"
    using avl_nearest_cookie [of h tr cx d] T(1) pl by (simp add: Let_def)
  have nz: "a \<noteq> 0" if "a \<in> set ?bef \<union> set ?beh" for a
    using that tree_at_good [of h T 0 False a] T(1) by (auto simp: before_def behind_def whole_def good_addr_def)
  show ?thesis using f near adj_map [OF nz, where d = d and f = "\<lambda>a. AVL_NODE2DATA a (avl_offset tr)"]
    by (auto simp: map_before [OF c] map_behind [OF c] T(2))
qed

section \<open>Insertion next to an element\<close>

lemma avl_insert_here_holds:
  assumes H: "avl_holds call key h tr (A @ x # B)" and new: "addable h tr v"
    and ord: "if d then key x < key v \<and> (\<forall>b\<in>set B. key v < key b) else (\<forall>a\<in>set A. key a < key v) \<and> key v < key x"
  shows "\<exists>h' tr'. avl_insert_here h tr v x (of_bool d) = Some (Inr (h', tr')) \<and>
    avl_holds call key h' tr' (if d then A @ x # v # B else A @ v # x # B)"
proof -
  let ?D = "\<lambda>a. AVL_NODE2DATA a (avl_offset tr)"
  have S: "avl_shape h tr (A @ x # B)" "compar_is call tr key" "sorted_wrt (\<lambda>a b. key a < key b) (A @ x # B)"
    using H by (simp_all add: avl_holds_iff)
  have off: "aligned8 (avl_offset tr)" "0 \<notin> set (A @ x # B)" "unat (avl_numnodes tr) = length (A @ x # B)"
    using S(1) by (auto simp: avl_shape_def)
  obtain c k y b where p: "at_pos h tr c (Nd k y b)" "x = ?D y" "A = map ?D (bef c @ inorder (k False))"
    "B = map ?D (inorder (k True) @ beh c)" "avl (plug c (Nd k y b))" using shape_pos [OF S(1) refl] .
  let ?ds = "if d then A @ x # v # B else A @ v # x # B"
  have s': "sorted_wrt (\<lambda>a b. key a < key b) ?ds"
    using S(3) ord by (cases d) (force simp: sorted_wrt_append)+
  have vnew: "v \<notin> set (A @ x # B)" using s' by (cases d) (auto simp: sorted_wrt_append)
  have "?D a \<in> set (A @ x # B)" if "a \<in> set (around c (inorder (Nd k y b)))" for a
    using that unfolding p(2-4) by (auto simp: around_bef_beh)
  then have z: "AVL_DATA2NODE v (avl_offset tr) \<notin> set (around c (inorder (Nd k y b)))"
    using vnew by (metis data_node(2))
  have y0: "?D y \<noteq> 0" using off(2) p(2) by auto
  obtain h' tr' T' where r: "avl_insert_here h tr v (?D y) (of_bool d) = Some (Inr (h', tr'))" "whole h' tr' T'" "avl T'"
    "inorder T' = (let A = bef c @ inorder (k False); B = inorder (k True) @ beh c in
      if d then A @ y # AVL_DATA2NODE v (avl_offset tr) # B else A @ AVL_DATA2NODE v (avl_offset tr) # y # B)"
    "tr' = tr\<lparr>avl_numnodes := avl_numnodes tr + 1, avl_root := avl_root tr'\<rparr>"
    using avl_insert_here_pos [OF p(1,5) new off(1) z y0, of d] by blast
  have o: "avl_offset tr' = avl_offset tr" "avl_compar tr' = avl_compar tr" "avl_numnodes tr' = avl_numnodes tr + 1"
    by (subst r(5), simp)+
  have D: "tree_data tr' T' = ?ds" using r(4) p(2-4) by (cases d) (simp_all add: tree_data_def o Let_def)
  have "length (inorder T') = length ?ds" unfolding D [symmetric] tree_data_def by simp
  then have "Suc (length (A @ x # B)) < 2 ^ 64" using length_nodes [OF r(2)] by (cases d) simp_all
  then have "unat (avl_numnodes tr') = length ?ds" using off(3) by (cases d) (simp_all add: o unat_word_ariths)
  moreover have "0 \<notin> set ?ds" using off(2) new by (cases d) (auto simp: addable_def)
  ultimately have "avl_shape h' tr' ?ds" unfolding avl_shape_def o using r(2,3) D off(1) by blast
  then show ?thesis using r(1) p(2) s' S(2) by (simp add: avl_holds_iff compar_is_def o)
qed

section \<open>Repositioning\<close>

text \<open>
  The tree is in order but for \<open>obj\<close>, whose key may have changed; \<open>good_addr tmp\<close> and
  \<open>h tmp = None\<close> give \<open>avl_remove\<close> its room on the stack.
\<close>

definition misplaced :: "(addr \<Rightarrow> 'k::linorder) \<Rightarrow> addr list \<Rightarrow> addr \<Rightarrow> addr list \<Rightarrow> bool" where
  "misplaced key A obj B \<longleftrightarrow> (A \<noteq> [] \<and> key obj < key (last A)) \<or> (B \<noteq> [] \<and> key (hd B) < key obj)"

lemma sorted_last: "sorted_wrt (\<lambda>a b. key a < key b) A \<Longrightarrow> a \<in> set A \<Longrightarrow> key a \<le> key (last A)"
  for key :: "'a \<Rightarrow> 'k::linorder"
  by (induction A rule: rev_induct) (auto simp: sorted_wrt_append)

lemma sorted_hd: "sorted_wrt (\<lambda>a b. key a < key b) A \<Longrightarrow> a \<in> set A \<Longrightarrow> key (hd A) \<le> key a"
  for key :: "'a \<Rightarrow> 'k::linorder"
  by (cases A) auto

lemma not_misplaced:
  assumes "sorted_wrt (\<lambda>a b. key a < key b) (A @ B)" and "\<forall>x\<in>set (A @ B). key x \<noteq> key obj" and "\<not> misplaced key A obj B"
  shows "filter (\<lambda>x. key x < key obj) (A @ B) = A" and "filter (\<lambda>x. key obj < key x) (A @ B) = B"
    and "sorted_wrt (\<lambda>a b. key a < key b) (A @ obj # B)"
proof -
  have AA: "sorted_wrt (\<lambda>a b. key a < key b) A" "sorted_wrt (\<lambda>a b. key a < key b) B"
    using assms(1) by (simp_all add: sorted_wrt_append)
  have "key a < key obj" if "a \<in> set A" for a
  proof -
    have "A \<noteq> []" using that by auto
    then have "key (last A) \<le> key obj" using assms(3) by (simp add: misplaced_def not_less)
    then have "key a \<le> key obj" using sorted_last [OF AA(1) that] by (rule order_trans [rotated])
    then show ?thesis using assms(2) that by (auto simp: le_less)
  qed
  moreover have "key obj < key b" if "b \<in> set B" for b
  proof -
    have "B \<noteq> []" using that by auto
    then have "key obj \<le> key (hd B)" using assms(3) by (simp add: misplaced_def not_less)
    then have "key obj \<le> key b" using sorted_hd [OF AA(2) that] by (rule order_trans)
    then show ?thesis using assms(2) that by (auto simp: le_less)
  qed
  ultimately have AB: "\<forall>a\<in>set A. key a < key obj" "\<forall>b\<in>set B. key obj < key b" by blast+
  have "filter (\<lambda>x. key x < key obj) A = A" "filter (\<lambda>x. key obj < key x) B = B"
    by (rule filter_True, use AB in blast)+
  moreover have "filter (\<lambda>x. key x < key obj) B = []" "filter (\<lambda>x. key obj < key x) A = []"
    by (rule filter_False, use AB order.asym in blast)+
  ultimately show "filter (\<lambda>x. key x < key obj) (A @ B) = A" "filter (\<lambda>x. key obj < key x) (A @ B) = B" by simp_all
  show "sorted_wrt (\<lambda>a b. key a < key b) (A @ obj # B)"
    using assms(1) AB by (auto simp: sorted_wrt_append)
qed

lemma element_addable: "avl_shape h tr ds \<Longrightarrow> d \<in> set ds \<Longrightarrow> addable h tr d"
proof -
  assume S: "avl_shape h tr ds" and d: "d \<in> set ds"
  obtain T where T: "whole h tr T" "ds = map (\<lambda>a. AVL_NODE2DATA a (avl_offset tr)) (inorder T)" "0 \<notin> set ds" "aligned8 (avl_offset tr)"
    using avl_shapeE [OF S] .
  then obtain a where a: "a \<in> set (inorder T)" "d = AVL_NODE2DATA a (avl_offset tr)" using d by auto
  have g: "good_addr a" "h a \<noteq> None"
    using tree_at_good [of h T 0 False a] tree_at_dom [of h T 0 False a] T(1) a(1) by (auto simp: whole_def)
  have "aligned8 d" using aligned8_diff [of a "avl_offset tr"] g(1) T(4) by (simp add: a(2) AVL_NODE2DATA_def good_addr_def)
  then show "addable h tr d" using g T(3) d a(2) by (auto simp: addable_def good_addr_def aligned8_def)
qed

lemma avl_reinsert_ok:
  assumes S: "avl_shape h tr (A @ obj # B)" and c: "compar_is call tr key"
    and s: "sorted_wrt (\<lambda>a b. key a < key b) (A @ B)" and new: "\<forall>x\<in>set (A @ B). key x \<noteq> key obj"
    and tmp: "good_addr tmp" "h tmp = None"
  shows "\<exists>h' tr'. AVL_REINSERT call tmp h tr obj = Some (Inr (h', tr')) \<and>
    avl_holds call key h' tr' (filter (\<lambda>x. key x < key obj) (A @ B) @ obj # filter (\<lambda>x. key obj < key x) (A @ B))"
proof -
  obtain h1 tr1 where r: "avl_remove tmp h tr obj = Some (Inr (h1, tr1))" "avl_shape h1 tr1 (A @ B)"
    "avl_compar tr1 = avl_compar tr" "avl_offset tr1 = avl_offset tr" "dom h1 = dom h"
    using avl_remove_shape [OF S tmp] by blast
  have "avl_holds call key h1 tr1 (A @ B)" using r(2,3) c s by (simp add: avl_holds_iff compar_is_def)
  moreover have "addable h tr obj" by (rule element_addable [OF S]) simp
  then have "addable h1 tr1 obj" unfolding addable_def r(4) domIff [symmetric] r(5) by blast
  ultimately obtain h2 tr2 where "avl_add call h1 tr1 obj = Some (Inr (h2, tr2))"
    "avl_holds call key h2 tr2 (filter (\<lambda>x. key x < key obj) (A @ B) @ obj # filter (\<lambda>x. key obj < key x) (A @ B))"
    using avl_add_holds [of call key h1 tr1 "A @ B" obj] new by blast
  then show ?thesis using r(1) by (intro exI [of _ h2] exI [of _ tr2]) (simp add: AVL_REINSERT_def)
qed

lemma adj_cmp:
  assumes "0 \<notin> set (A @ B)"
  shows "adj False A B \<noteq> 0 \<and> P (adj False A B) \<longleftrightarrow> A \<noteq> [] \<and> P (last A)"
    and "adj True A B \<noteq> 0 \<and> P (adj True A B) \<longleftrightarrow> B \<noteq> [] \<and> P (hd B)"
proof -
  have "A \<noteq> [] \<Longrightarrow> last A \<noteq> 0" "B \<noteq> [] \<Longrightarrow> hd B \<noteq> 0"
    using assms last_in_set [of A] hd_in_set [of B] by (metis Un_iff set_append)+
  then show "adj False A B \<noteq> 0 \<and> P (adj False A B) \<longleftrightarrow> A \<noteq> [] \<and> P (last A)"
    "adj True A B \<noteq> 0 \<and> P (adj True A B) \<longleftrightarrow> B \<noteq> [] \<and> P (hd B)"
    by (auto simp: adj_def)
qed

text \<open>Moved if and only if a neighbour is on the wrong side; in order afterwards in both cases.\<close>

lemma avl_update_ok:
  assumes S: "avl_shape h tr (A @ obj # B)" and c: "compar_is call tr key"
    and s: "sorted_wrt (\<lambda>a b. key a < key b) (A @ B)" and new: "\<forall>x\<in>set (A @ B). key x \<noteq> key obj"
    and tmp: "good_addr tmp" "h tmp = None"
  shows "\<exists>h' tr'. avl_update call tmp h tr obj = Some (Inr (if misplaced key A obj B then B_TRUE else B_FALSE, h', tr')) \<and>
    avl_holds call key h' tr' (filter (\<lambda>x. key x < key obj) (A @ B) @ obj # filter (\<lambda>x. key obj < key x) (A @ B)) \<and>
    (\<not> misplaced key A obj B \<longrightarrow> h' = h \<and> tr' = tr)"
proof -
  have z: "0 \<notin> set (A @ B)" using S by (auto simp: avl_shape_def)
  have prev: "AVL_PREV h tr obj = Some (Inr (adj False A B))" "AVL_NEXT h tr obj = Some (Inr (adj True A B))"
    using avl_walk_shape [OF S, of False] avl_walk_shape [OF S, of True] by (simp_all add: AVL_PREV_def AVL_NEXT_def)
  have call: "call (avl_compar tr) obj w = AVL_CMP (key obj) (key w)" for w using c by (simp add: compar_is_def)
  have run: "avl_update call tmp h tr obj =
      (if misplaced key A obj B then obind (AVL_REINSERT call tmp h tr obj) (\<lambda>(h, t). Some (Inr (B_TRUE, h, t)))
       else Some (Inr (B_FALSE, h, tr)))"
    using adj_cmp [OF z, of "\<lambda>w. key obj < key w"] adj_cmp [OF z, of "\<lambda>w. key w < key obj"]
    by (auto simp: avl_update_def prev call misplaced_def)
  show ?thesis
  proof (cases "misplaced key A obj B")
    case True
    then show ?thesis using run avl_reinsert_ok [OF assms] by auto
  next
    case False
    then have "avl_holds call key h tr (filter (\<lambda>x. key x < key obj) (A @ B) @ obj # filter (\<lambda>x. key obj < key x) (A @ B))"
      unfolding not_misplaced(1,2) [OF s new False] using not_misplaced(3) [OF s new False] S c by (simp add: avl_holds_iff)
    then show ?thesis using run False by auto
  qed
qed

text \<open>The one-sided variants are \<open>avl_update\<close> where their assertion holds, and abort where not.\<close>

lemma avl_update_lt_eq:
  assumes S: "avl_shape h tr (A @ obj # B)" and c: "compar_is call tr key"
  shows "avl_update_lt call tmp h tr obj =
    (if B \<noteq> [] \<and> key (hd B) < key obj then Some (Inl Abort) else avl_update call tmp h tr obj)"
proof -
  have z: "0 \<notin> set (A @ B)" using S by (auto simp: avl_shape_def)
  have prev: "AVL_PREV h tr obj = Some (Inr (adj False A B))" "AVL_NEXT h tr obj = Some (Inr (adj True A B))"
    using avl_walk_shape [OF S, of False] avl_walk_shape [OF S, of True] by (simp_all add: AVL_PREV_def AVL_NEXT_def)
  have call: "call (avl_compar tr) obj w = AVL_CMP (key obj) (key w)" for w using c by (simp add: compar_is_def)
  show ?thesis using adj_cmp(2) [OF z, of "\<lambda>w. key w < key obj"]
    by (auto simp: avl_update_lt_def avl_update_def prev call not_less)
qed

lemma avl_update_gt_eq:
  assumes S: "avl_shape h tr (A @ obj # B)" and c: "compar_is call tr key"
  shows "avl_update_gt call tmp h tr obj =
    (if A \<noteq> [] \<and> key obj < key (last A) then Some (Inl Abort) else avl_update call tmp h tr obj)"
proof -
  have z: "0 \<notin> set (A @ B)" using S by (auto simp: avl_shape_def)
  have prev: "AVL_PREV h tr obj = Some (Inr (adj False A B))" "AVL_NEXT h tr obj = Some (Inr (adj True A B))"
    using avl_walk_shape [OF S, of False] avl_walk_shape [OF S, of True] by (simp_all add: AVL_PREV_def AVL_NEXT_def)
  have call: "call (avl_compar tr) obj w = AVL_CMP (key obj) (key w)" for w using c by (simp add: compar_is_def)
  show ?thesis using adj_cmp(1) [OF z, of "\<lambda>w. key obj < key w"]
    by (auto simp: avl_update_gt_def avl_update_def prev call not_less)
qed

end
