(* ===== verification/Avl_Destroy.thy ===== *)
theory Avl_Destroy
  imports Avl_Walk
begin

text \<open>
  \<open>avl_destroy_nodes\<close> (\<open>src/lib/libavl/avl.c\<close>): called until it returns \<open>NULL\<close>, with every
  returned node freed before the next call, it returns each node once, children before their
  parents, never touches a node after it was returned, and leaves the tree empty.
\<close>

text \<open>The loop of a caller, as the comment at the function shows it.\<close>

partial_function (option) destroy_all ::
    "heap \<Rightarrow> avl_tree \<Rightarrow> u64 \<Rightarrow> addr list \<Rightarrow> (fault + addr list \<times> heap \<times> avl_tree) option" where
  "destroy_all h tr ck acc =
     (case avl_destroy_nodes h tr ck of None \<Rightarrow> None
      | Some r \<Rightarrow>
        (case r of Inl e \<Rightarrow> Some (Inl e)
         | Inr (d, ck, h, tr) \<Rightarrow>
             if d = 0 then Some (Inr (acc, h, tr))
             else destroy_all (h(AVL_DATA2NODE d (avl_offset tr) := None)) tr ck (acc @ [d])))"

primrec postorder :: "atree \<Rightarrow> addr list" where
  "postorder Lf = []"
| "postorder (Nd k x b) = postorder (k False) @ postorder (k True) @ [x]"

lemma set_postorder [simp]: "set (postorder t) = set (inorder t)"
  by (induction t) auto

lemma length_postorder [simp]: "length (postorder t) = length (inorder t)"
  by (induction t) auto

lemma distinct_postorder: "distinct (postorder t) \<longleftrightarrow> distinct (inorder t)"
  by (induction t) auto

text \<open>What is still to be returned after the node in the hole of a context.\<close>

fun todo :: "ctx \<Rightarrow> addr list" where
  "todo [] = []"
| "todo (Fr d x b s # c) = postorder s @ x # todo c"

fun pending :: "ctx \<Rightarrow> bool" where
  "pending [] = True"
| "pending (Fr d x b s # c) = ((if d then s = Lf else avl s) \<and> pending c)"

lemma set_todo: "set (todo c) = set (cnodes c)"
  by (induction c rule: todo.induct) auto

lemma length_todo: "length (todo c) = length (cnodes c)"
  by (induction c rule: todo.induct) auto

definition in_progress :: "heap \<Rightarrow> avl_tree \<Rightarrow> ctx \<Rightarrow> addr \<Rightarrow> bool" where
  "in_progress h tr c r \<longleftrightarrow> ctx_at h c r \<and> pending c \<and> distinct (cnodes c) \<and> r \<notin> set (cnodes c) \<and> r \<noteq> 0 \<and>
     avl_root tr = ctx_root c r \<and> unat (avl_numnodes tr) = Suc (length (cnodes c))"

text \<open>The cookie that stands for such a state.\<close>

definition next_cookie :: "ctx \<Rightarrow> u64" where
  "next_cookie c = (if c = [] then CHILDBIT else up c OR of_bool (dir c))"

section \<open>Down to the next node\<close>

lemma leftmost_ok:
  "tree_at h t (up c) (dir c) \<Longrightarrow> t \<noteq> Lf \<Longrightarrow> avl t \<Longrightarrow> pending c \<Longrightarrow>
   \<exists>c1 k n b. plug c1 (Nd k n b) = plug c t \<and> k False = Lf \<and> avl (Nd k n b) \<and> pending c1 \<and>
     leftmost_loop h (up c) (root t) = Some (Inr (up c1, n)) \<and>
     postorder (Nd k n b) @ todo c1 = postorder t @ todo c \<and> hd (inorder t) = n"
proof (induction t arbitrary: c)
  case (Nd k x b)
  obtain n where n: "h x = Some n" "avl_child n = (\<lambda>d. root (k d))"
    using Nd.prems(1) by (rule tree_at_child)
  have K: "tree_at h (k False) x False" using Nd.prems(1) by simp
  have unf: "leftmost_loop h (up c) x =
      (if root (k False) \<noteq> 0 then leftmost_loop h x (root (k False)) else Some (Inr (up c, x)))"
    using n by (subst leftmost_loop.simps) (simp add: ld_def)
  show ?case
  proof (cases "k False = Lf")
    case True
    then show ?thesis using unf Nd.prems
      by (intro exI [of _ c] exI [of _ k] exI [of _ x] exI [of _ b]) (simp del: avl.simps)
  next
    case False
    let ?c = "Fr False x b (k True) # c"
    have "pending ?c" "avl (k False)" using Nd.prems(3,4) by simp_all
    then obtain c1 k' m b' where c1: "plug c1 (Nd k' m b') = plug ?c (k False)" "k' False = Lf" "avl (Nd k' m b')" "pending c1"
      "leftmost_loop h x (root (k False)) = Some (Inr (up c1, m))"
      "postorder (Nd k' m b') @ todo c1 = postorder (k False) @ todo ?c" "hd (inorder (k False)) = m"
      using Nd.IH [of False ?c] K False by auto
    have "plug ?c (k False) = plug c (Nd k x b)" using fill_same [of False x b k] by simp
    then show ?thesis using c1 unf False root_0_iff [OF K]
      by (intro exI [of _ c1] exI [of _ k'] exI [of _ m] exI [of _ b']) (simp del: avl.simps)
  qed
qed simp

lemma up_mk: "ctx_at h c r \<Longrightarrow> c \<noteq> [] \<Longrightarrow> next_cookie c = AVL_MKINDEX (up c) (dir c)"
  by (simp add: next_cookie_def AVL_MKINDEX_def)

text \<open>Returning the node in the hole of a context.\<close>

lemma destroy_done_ok:
  assumes r: "node_at h r ch (up c) (dir c) b" and root: "c = [] \<Longrightarrow> avl_root tr = r" and up: "up c = 0 \<longleftrightarrow> c = []"
  shows "destroy_done h tr (up c) r = Some (Inr (AVL_NODE2DATA r (avl_offset tr), next_cookie c, h, tr))"
  using r root up by (auto simp: destroy_done_def next_cookie_def node_at_def ld_def)

text \<open>The check of the right side, from a node with no left child.\<close>

lemma destroy_right_ok:
  assumes P: "at_pos h tr c (Nd k n b)" and k: "k False = Lf" "avl (Nd k n b)" and pend: "pending c"
    and num: "unat (avl_numnodes tr) = length (around c (inorder (Nd k n b)))"
  shows "\<exists>c' r. destroy_right h tr (up c) n = Some (Inr (AVL_NODE2DATA r (avl_offset tr), next_cookie c', h, tr)) \<and>
    in_progress h tr c' r \<and> r # todo c' = postorder (Nd k n b) @ todo c"
proof -
  note D = at_posD [OF P]
  obtain m where m: "h n = Some m" "avl_child m = (\<lambda>d. root (k d))" "AVL_XBALANCE m = b" "good_addr n" using at_pos_Nd [OF P] .
  have N: "node_at h n (\<lambda>d. root (k d)) (up c) (dir c) b" and K: "tree_at h (k True) n True" using D(2) by simp_all
  have b: "b = int (height (k True))" "bal_ok b" using k by (auto simp: balance_def)
  show ?thesis
  proof (cases "k True")
    case Lf
    have run: "destroy_right h tr (up c) n = destroy_done h tr (up c) n"
      using m b Lf by (simp add: destroy_right_def ld_def)
    have "length (around c (inorder (Nd k n b))) = Suc (length (cnodes c))"
      using k(1) Lf by (simp add: around_bef_beh length_bef_beh)
    then have "in_progress h tr c n"
      using D pend num m(4) by (auto simp: in_progress_def good_addr_def)
    moreover have "destroy_done h tr (up c) n = Some (Inr (AVL_NODE2DATA n (avl_offset tr), next_cookie c, h, tr))"
      using D(6) up_0_iff [OF D(1)] by (intro destroy_done_ok [OF N]) auto
    ultimately show ?thesis using run k(1) Lf by (intro exI [of _ c] exI [of _ n]) simp
  next
    case (Nd k2 y yb)
    have b1: "b = 1" using b Nd by (auto simp: bal_ok_def)
    then have leaf: "k2 d = Lf" for d using b(1) Nd by (cases d) auto
    let ?c = "Fr True n b Lf # c"
    have plug: "plug ?c (k True) = plug c (Nd k n b)" using fill_same [of True n b k] k(1) by simp
    then have P2: "at_pos h tr ?c (Nd k2 y yb)" using P Nd whole_plug by metis
    obtain m2 where m2: "h y = Some m2" "avl_child m2 = (\<lambda>d. root (k2 d))" "good_addr y" using at_pos_Nd [OF P2] .
    have Y: "node_at h y (\<lambda>d. root (k2 d)) n True yb" using K Nd by simp
    have run: "destroy_right h tr (up c) n = destroy_done h tr n y"
      using m b1 Nd m2 leaf by (simp add: destroy_right_def ld_def good_addr_def)
    have "length (around c (inorder (Nd k n b))) = Suc (length (cnodes ?c))"
      using k(1) Nd leaf by (simp add: around_bef_beh length_bef_beh)
    then have "in_progress h tr ?c y"
      using at_posD [OF P2] pend num m2(3) by (auto simp: in_progress_def good_addr_def)
    moreover have "destroy_done h tr (up ?c) y = Some (Inr (AVL_NODE2DATA y (avl_offset tr), next_cookie ?c, h, tr))"
      using Y m(4) by (intro destroy_done_ok) (auto simp: good_addr_def)
    ultimately show ?thesis using run k(1) Nd leaf by (intro exI [of _ ?c] exI [of _ y]) simp
  qed
qed

section \<open>One call\<close>

lemma next_cookie_parts:
  assumes "ctx_at h c r"
  shows "next_cookie c \<noteq> 0" and "next_cookie c AND NOT CHILDBIT = up c"
    and "c \<noteq> [] \<Longrightarrow> (next_cookie c AND CHILDBIT = 1) = dir c"
proof -
  have one: "(1 :: u64) AND NOT 1 = 0" by simp
  have mk: "c \<noteq> [] \<Longrightarrow> AVL_INDEX2NODE (next_cookie c) = up c \<and> AVL_INDEX2CHILD (next_cookie c) = dir c"
    using up_aligned [OF assms] by (simp add: up_mk [OF assms])
  show "(c \<noteq> [] \<Longrightarrow> (next_cookie c AND CHILDBIT = 1) = dir c)" and and_not: "next_cookie c AND NOT CHILDBIT = up c"
    using mk one by (cases "c = []"; simp add: AVL_INDEX2NODE_def AVL_INDEX2CHILD_def CHILDBIT_def next_cookie_def)+
  show "next_cookie c \<noteq> 0"
  proof
    assume 0: "next_cookie c = 0"
    then have "c \<noteq> []" by (auto simp: next_cookie_def CHILDBIT_def)
    then have "up c = 0" using mk 0 by simp
    then show False using \<open>c \<noteq> []\<close> up_0_iff [OF assms] by simp
  qed
qed

lemma destroy_last:
  assumes "in_progress h tr [] r"
  shows "avl_destroy_nodes h tr (next_cookie []) = Some (Inr (0, CHILDBIT, h, tr\<lparr>avl_root := 0, avl_numnodes := 0\<rparr>))"
proof -
  have "avl_numnodes tr = 1" using assms by (auto simp: in_progress_def word_unat_eq_iff)
  then show ?thesis using assms next_cookie_parts [of h "[]" r]
    by (simp add: avl_destroy_nodes_def in_progress_def next_cookie_def)
qed

text \<open>The node in the hole was freed; the call returns the next one.\<close>

lemma destroy_step:
  assumes I: "in_progress h tr (Fr d x b s # c) r"
  shows "\<exists>h' c' r'. avl_destroy_nodes h tr (next_cookie (Fr d x b s # c)) =
      Some (Inr (AVL_NODE2DATA r' (avl_offset tr), next_cookie c', h', tr\<lparr>avl_numnodes := avl_numnodes tr - 1\<rparr>)) \<and>
    in_progress h' (tr\<lparr>avl_numnodes := avl_numnodes tr - 1\<rparr>) c' r' \<and> r' # todo c' = todo (Fr d x b s # c) \<and>
    (\<forall>a. a \<noteq> x \<longrightarrow> h' a = h a)"
proof -
  let ?c = "Fr d x b s # c" and ?tr = "tr\<lparr>avl_numnodes := avl_numnodes tr - 1\<rparr>"
  have C: "ctx_at h ?c r" and X: "node_at h x ((\<lambda>_. root s)(d := r)) (up c) (dir c) b" and S: "tree_at h s x (\<not> d)"
    and Cc: "ctx_at h c x" and pend: "if d then s = Lf else avl s" "pending c"
    and dist: "distinct (cnodes ?c)" and num: "unat (avl_numnodes tr) = Suc (Suc (length (inorder s) + length (cnodes c)))"
    and root: "avl_root tr = ctx_root c x"
    using I by (simp_all add: in_progress_def)
  have nz: "avl_numnodes tr \<noteq> 0" using num by auto
  have num1: "1 < avl_numnodes tr" "unat (avl_numnodes tr - 1) = Suc (length (inorder s) + length (cnodes c))"
    using num nz by (simp_all add: word_less_nat_alt unat_minus_one)
  obtain h' where h': "upd (set_avl_child d 0) x h = Inr h'" "node_at h' x (((\<lambda>_. root s)(d := r))(d := 0)) (up c) (dir c) b"
    "\<And>a. a \<noteq> x \<Longrightarrow> h' a = h a" using upd_node(1) [OF X] by blast
  then obtain m where m: "h' x = Some m" "avl_child m = (\<lambda>_. root s)(d := 0)" "AVL_XPARENT m = up c" "good_addr x"
    by (auto simp: node_at_def)
  have Cc': "ctx_at h' c x" using Cc dist by (subst ctx_at_cong [where h = h]) (auto intro!: h'(3))
  have S': "tree_at h' s x (\<not> d)" using S dist by (subst tree_at_cong [where h = h]) (auto intro!: h'(3))
  have x0: "x \<noteq> 0" using m(4) by (simp add: good_addr_def)
  have run: "avl_destroy_nodes h tr (next_cookie ?c) =
      (if d \<or> root s = 0 then destroy_done h' ?tr (up c) x
       else obind (leftmost_loop h' x (root s)) (\<lambda>(parent, node). destroy_right h' ?tr parent node))"
    using next_cookie_parts [OF C] h'(1) m num1(1) x0
    by (cases d) (simp_all add: avl_destroy_nodes_def ld_def)
  show ?thesis
  proof (cases "d \<or> s = Lf")
    case True
    then have s: "s = Lf" using pend(1) by auto
    have "destroy_done h' ?tr (up c) x = Some (Inr (AVL_NODE2DATA x (avl_offset ?tr), next_cookie c, h', ?tr))"
      using root up_0_iff [OF Cc'] by (intro destroy_done_ok [OF h'(2)]) auto
    moreover have "in_progress h' ?tr c x"
      using Cc' pend(2) dist x0 root num1(2) s by (simp add: in_progress_def)
    ultimately show ?thesis using run s h'(3)
      by (intro exI [of _ h'] exI [of _ c] exI [of _ x]) simp
  next
    case False
    let ?c0 = "Fr True x b Lf # c"
    have d: "\<not> d" "s \<noteq> Lf" "avl s" "pending ?c0" using False pend by auto
    have S0: "tree_at h' s (up ?c0) (dir ?c0)" using S' d(1) by simp
    have P0: "at_pos h' ?tr ?c0 s"
    proof -
      have "ctx_at h' ?c0 (root s)" using h'(2) Cc' d(1) by (simp add: fun_upd_def) (auto elim!: back_subst [of "\<lambda>f. node_at h' x f _ _ _"])
      then show ?thesis using S0 dist root by (auto simp: at_pos_def distinct_around)
    qed
    obtain c1 k n b1 where L: "plug c1 (Nd k n b1) = plug ?c0 s" "k False = Lf" "avl (Nd k n b1)" "pending c1"
      "leftmost_loop h' x (root s) = Some (Inr (up c1, n))" "postorder (Nd k n b1) @ todo c1 = postorder s @ todo ?c0"
      using leftmost_ok [OF S0 d(2-4)] by auto
    have P1: "at_pos h' ?tr c1 (Nd k n b1)" using P0 L(1) whole_plug by metis
    have "around c1 (inorder (Nd k n b1)) = around ?c0 (inorder s)" using L(1) inorder_plug by metis
    then have n1: "unat (avl_numnodes ?tr) = length (around c1 (inorder (Nd k n b1)))"
      using num1(2) by (simp add: around_bef_beh length_bef_beh)
    obtain c' r' where "destroy_right h' ?tr (up c1) n = Some (Inr (AVL_NODE2DATA r' (avl_offset ?tr), next_cookie c', h', ?tr))"
      "in_progress h' ?tr c' r'" "r' # todo c' = postorder (Nd k n b1) @ todo c1"
      using destroy_right_ok [OF P1 L(2-4) n1] by blast
    then show ?thesis using run d(1) L(5,6) root_0_iff [OF S] d(2) h'(3)
      by (intro exI [of _ h'] exI [of _ c'] exI [of _ r']) simp
  qed
qed

section \<open>The whole loop\<close>

lemma in_progress_free:
  assumes "in_progress h tr c r"
  shows "in_progress (h(r := None)) tr c r"
proof -
  have "ctx_at (h(r := None)) c r = ctx_at h c r"
    using assms by (intro ctx_at_cong) (auto simp: in_progress_def)
  then show ?thesis using assms by (simp add: in_progress_def)
qed

text \<open>From a state in which a node was just returned and freed.\<close>

lemma destroy_all_from:
  "in_progress h tr c r \<Longrightarrow> \<forall>a\<in>set (cnodes c). AVL_NODE2DATA a (avl_offset tr) \<noteq> 0 \<Longrightarrow>
   \<exists>h'. destroy_all h tr (next_cookie c) acc =
      Some (Inr (acc @ map (\<lambda>a. AVL_NODE2DATA a (avl_offset tr)) (todo c), h', tr\<lparr>avl_root := 0, avl_numnodes := 0\<rparr>)) \<and>
     (\<forall>a. h' a = (if a \<in> set (cnodes c) then None else h a))"
proof (induction "length (cnodes c)" arbitrary: h tr c r acc)
  case 0
  then have "c = []" by (cases c rule: cnodes.cases) auto
  then show ?case using destroy_last [of h tr r] 0 by (subst destroy_all.simps) simp
next
  case (Suc n)
  then obtain d x b s c0 where c: "c = Fr d x b s # c0" by (cases c rule: cnodes.cases) auto
  let ?tr = "tr\<lparr>avl_numnodes := avl_numnodes tr - 1\<rparr>"
  obtain h1 c1 r1 where st: "avl_destroy_nodes h tr (next_cookie c) = Some (Inr (AVL_NODE2DATA r1 (avl_offset tr), next_cookie c1, h1, ?tr))"
    "in_progress h1 ?tr c1 r1" "r1 # todo c1 = todo c" "\<And>a. a \<noteq> x \<Longrightarrow> h1 a = h a"
    using destroy_step [of h tr d x b s c0 r] Suc.prems(1) unfolding c by blast
  have set: "set (cnodes c) = insert r1 (set (cnodes c1))" using st(3) set_todo by (metis list.simps(15))
  have len: "n = length (cnodes c1)" using Suc.hyps(2) st(3) length_todo by (metis length_Cons nat.inject)
  have r1: "AVL_NODE2DATA r1 (avl_offset tr) \<noteq> 0" using Suc.prems(2) set by simp
  obtain h2 where h2: "destroy_all (h1(r1 := None)) ?tr (next_cookie c1) (acc @ [AVL_NODE2DATA r1 (avl_offset tr)]) =
      Some (Inr ((acc @ [AVL_NODE2DATA r1 (avl_offset tr)]) @ map (\<lambda>a. AVL_NODE2DATA a (avl_offset ?tr)) (todo c1), h2,
        ?tr\<lparr>avl_root := 0, avl_numnodes := 0\<rparr>))"
    "\<And>a. h2 a = (if a \<in> set (cnodes c1) then None else (h1(r1 := None)) a)"
    using Suc.hyps(1) [OF len in_progress_free [OF st(2)], of "acc @ [AVL_NODE2DATA r1 (avl_offset tr)]"] Suc.prems(2)
    unfolding set by fastforce
  have "destroy_all h tr (next_cookie c) acc =
      Some (Inr (acc @ map (\<lambda>a. AVL_NODE2DATA a (avl_offset tr)) (todo c), h2, tr\<lparr>avl_root := 0, avl_numnodes := 0\<rparr>))"
    using st(1) r1 h2(1) st(3) [symmetric] by (subst destroy_all.simps) simp
  moreover have "x \<in> set (cnodes c)" by (simp add: c)
  then have "h2 a = (if a \<in> set (cnodes c) then None else h a)" for a
    using h2(2) [of a] st(4) [of a] unfolding set by auto
  ultimately show ?case by blast
qed

lemma destroy_first:
  assumes W: "whole h tr T" "avl T" and T: "T \<noteq> Lf" and num: "unat (avl_numnodes tr) = length (inorder T)"
    and nz: "\<forall>a\<in>set (inorder T). AVL_NODE2DATA a (avl_offset tr) \<noteq> 0"
  shows "\<exists>c r. avl_destroy_nodes h tr 0 = Some (Inr (AVL_NODE2DATA r (avl_offset tr), next_cookie c, h, tr)) \<and>
    in_progress h tr c r \<and> r # todo c = postorder T"
proof -
  have TA: "tree_at h T (up []) (dir [])" "avl_root tr = root T" using W(1) by (simp_all add: whole_def)
  obtain c k n b where L: "plug c (Nd k n b) = T" "k False = Lf" "avl (Nd k n b)" "pending c"
    "postorder (Nd k n b) @ todo c = postorder T" "hd (inorder T) = n"
    using leftmost_ok [OF TA(1) T W(2)] by auto
  have P: "at_pos h tr c (Nd k n b)" using W(1) L(1) whole_plug by metis
  obtain m where m: "h n = Some m" "AVL_XPARENT m = up c" using at_pos_Nd [OF P] .
  have i: "inorder T = around c (inorder (Nd k n b))" using L(1) inorder_plug by metis
  then have "unat (avl_numnodes tr) = length (around c (inorder (Nd k n b)))" using num by simp
  from destroy_right_ok [OF P L(2-4) this] obtain c' r where D:
    "destroy_right h tr (up c) n = Some (Inr (AVL_NODE2DATA r (avl_offset tr), next_cookie c', h, tr))"
    "in_progress h tr c' r" "r # todo c' = postorder T" using L(5) by auto
  have "n \<in> set (inorder T)" using L(6) T by (metis hd_in_set inorder_Nil_iff)
  then have "avl_first h tr = Some (Inr (AVL_NODE2DATA n (avl_offset tr)))" "AVL_NODE2DATA n (avl_offset tr) \<noteq> 0" "n \<noteq> 0"
    using edge_loop_ok [of h T 0 False False 0] TA T L(6) nz tree_at_good [OF TA(1)]
    by (auto simp: avl_first_def good_addr_def)
  then have "avl_destroy_nodes h tr 0 = destroy_right h tr (up c) n"
    using m by (simp add: avl_destroy_nodes_def ld_def)
  then show ?thesis using D by auto
qed

text \<open>Everything is returned, children first, and freed; the tree header is that of an empty tree.\<close>

lemma destroy_all_ok:
  assumes S: "avl_shape h tr ds"
  shows "\<exists>vs h'. destroy_all h tr 0 [] = Some (Inr (vs, h', tr\<lparr>avl_root := 0, avl_numnodes := 0\<rparr>)) \<and>
    distinct vs \<and> set vs = set ds \<and>
    (\<forall>a. h' a = (if AVL_NODE2DATA a (avl_offset tr) \<in> set ds then None else h a))"
proof -
  let ?D = "\<lambda>a. AVL_NODE2DATA a (avl_offset tr)"
  obtain T where T: "whole h tr T" "avl T" "ds = map ?D (inorder T)" "0 \<notin> set ds" "unat (avl_numnodes tr) = length ds"
    using avl_shapeE [OF S] .
  have inj: "?D a = ?D b \<longleftrightarrow> a = b" for a b by (simp add: AVL_NODE2DATA_def)
  have nz: "\<forall>a\<in>set (inorder T). ?D a \<noteq> 0" and num: "unat (avl_numnodes tr) = length (inorder T)" using T(3-5) by auto
  show ?thesis
  proof (cases "T = Lf")
    case True
    then have "avl_first h tr = Some (Inr 0)" "avl_root tr = 0" "avl_numnodes tr = 0"
      using avl_first_shape(1) [OF S] T(1,3) num by (simp_all add: whole_def unat_eq_zero)
    then have "avl_destroy_nodes h tr 0 = Some (Inr (0, CHILDBIT, h, tr\<lparr>avl_root := 0, avl_numnodes := 0\<rparr>))"
      by (simp add: avl_destroy_nodes_def)
    then show ?thesis using True T(3) by (subst destroy_all.simps) simp
  next
    case False
    obtain c r where F: "avl_destroy_nodes h tr 0 = Some (Inr (?D r, next_cookie c, h, tr))"
      "in_progress h tr c r" "r # todo c = postorder T" using destroy_first [OF T(1,2) False num nz] by blast
    have set: "insert r (set (cnodes c)) = set (inorder T)" using F(3) set_todo set_postorder by (metis list.simps(15))
    obtain h' where h': "destroy_all (h(r := None)) tr (next_cookie c) [?D r] =
        Some (Inr ([?D r] @ map ?D (todo c), h', tr\<lparr>avl_root := 0, avl_numnodes := 0\<rparr>))"
      "\<And>a. h' a = (if a \<in> set (cnodes c) then None else (h(r := None)) a)"
      using destroy_all_from [OF in_progress_free [OF F(2)], of "[?D r]"] nz set by blast
    have "destroy_all h tr 0 [] = Some (Inr (map ?D (postorder T), h', tr\<lparr>avl_root := 0, avl_numnodes := 0\<rparr>))"
      using F(1) h'(1) nz set F(3) [symmetric] by (subst destroy_all.simps) auto
    moreover have "distinct (map ?D (postorder T))"
      using T(1) distinct_postorder [of T] by (auto simp: distinct_map inj_on_def inj whole_def)
    moreover have "h' a = (if ?D a \<in> set ds then None else h a)" for a
    proof -
      have "?D a \<in> set ds \<longleftrightarrow> a \<in> insert r (set (cnodes c))" unfolding set using T(3) inj by auto
      then show ?thesis using h'(2) [of a] by auto
    qed
    ultimately show ?thesis using T(3) by auto
  qed
qed

end
