(* ===== verification/Avl_Props.thy ===== *)
theory Avl_Props
  imports Avl_Update Avl_Destroy
begin

text \<open>
  What the AVL trees of \<open>src/lib/libavl/avl.c\<close> promise, as properties of the operations on the
  heap, each with an instance on a small tree of three elements and one spare node.
\<close>

section \<open>A small tree\<close>

definition demo_call :: compar_env where
  "demo_call f a b = AVL_CMP (unat a) (unat b)"

definition demo_heap :: heap where
  "demo_heap = [16 \<mapsto> \<lparr>avl_child0 = 0, avl_child1 = 0, avl_pcb = 33\<rparr>,
     32 \<mapsto> \<lparr>avl_child0 = 16, avl_child1 = 48, avl_pcb = 1\<rparr>,
     48 \<mapsto> \<lparr>avl_child0 = 0, avl_child1 = 0, avl_pcb = 37\<rparr>,
     64 \<mapsto> \<lparr>avl_child0 = 0, avl_child1 = 0, avl_pcb = 0\<rparr>]"

definition demo_avl :: avl_tree where
  "demo_avl = \<lparr>avl_root = 32, avl_compar = 1, avl_offset = 8, avl_numnodes = 3, avl_size = 32\<rparr>"

definition demo_shape :: atree where
  "demo_shape = Nd (\<lambda>d. Nd (\<lambda>_. Lf) (if d then 48 else 16) 0) 32 0"

lemma demo_whole: "whole demo_heap demo_avl demo_shape"
  by (auto simp: whole_def demo_avl_def demo_shape_def demo_heap_def node_at_def good_addr_def aligned8_def
      AVL_XPARENT_def AVL_XCHILD_def AVL_XBALANCE_def avl_child_def fun_eq_iff)

lemma demo_holds: "avl_holds demo_call unat demo_heap demo_avl [8, 24, 40]"
proof -
  have "avl demo_shape" by (simp add: demo_shape_def balance_def bal_ok_def)
  moreover have "tree_data demo_avl demo_shape = [8, 24, 40]"
    by (simp add: tree_data_def demo_avl_def demo_shape_def AVL_NODE2DATA_def)
  ultimately have "avl_shape demo_heap demo_avl [8, 24, 40]"
    using demo_whole by (auto simp: avl_shape_def demo_avl_def aligned8_def)
  then show ?thesis by (simp add: avl_holds_iff compar_is_def demo_call_def)
qed

lemma demo_addable: "addable demo_heap demo_avl 56" "addable demo_heap demo_avl 24"
  by (simp_all add: addable_def demo_avl_def demo_heap_def AVL_DATA2NODE_def)

lemma demo_tmp: "good_addr 128" "demo_heap 128 = None"
  by (simp_all add: good_addr_def aligned8_def demo_heap_def)

section \<open>Histories\<close>

text \<open>
  C1. From \<open>avl_create\<close> on, any sequence of \<open>avl_add\<close>s of new keys and \<open>avl_remove\<close>s of
  elements that are there runs without fault, and \<open>avl_find\<close> then returns exactly the element
  with the key asked for in the set that the same sequence makes of the empty set.
\<close>

theorem avl_history:
  fixes key :: "addr \<Rightarrow> 'k::linorder"
  assumes "avl_create compar sz off = Inr tr" and "\<forall>a b. call compar a b = AVL_CMP (key a) (key b)"
    and "good_addr tmp" and "h tmp = None" and "legal key (addable h tr) {} ops"
  shows "\<exists>h' tr'. run (\<lambda>(h, tr) d. done_ok (avl_add call h tr d)) (\<lambda>(h, tr) d. done_ok (avl_remove tmp h tr d)) (h, tr) ops =
      Some (h', tr') \<and>
    (\<forall>v d. found (avl_find call h' tr' v) = Some d \<longleftrightarrow> d \<in> after {} ops \<and> key d = key v)"
  using avl.run_lookup [of call key tmp "(h, tr)" "[]" ops] avl_create_holds [where call = call and key = key and h = h, OF assms(1,2)] assms(3-5)
  by auto

theorem avl_history_witness:
  "\<exists>tr. avl_create 1 32 8 = Inr tr \<and> (\<exists>h' tr'. run (\<lambda>(h, tr) d. done_ok (avl_add demo_call h tr d))
      (\<lambda>(h, tr) d. done_ok (avl_remove 128 h tr d)) (demo_heap, tr) [Add 24, Add 8, Del 24, Add 40] = Some (h', tr') \<and>
    (\<forall>v d. found (avl_find demo_call h' tr' v) = Some d \<longleftrightarrow> d \<in> {8, 40} \<and> unat d = unat v))"
proof -
  let ?tr = "\<lparr>avl_root = 0, avl_compar = 1, avl_offset = 8, avl_numnodes = 0, avl_size = 32\<rparr>"
  have c: "avl_create 1 32 8 = Inr ?tr" by (simp add: avl_create_def SIZEOF_AVL_NODE_def)
  have call: "\<forall>a b. demo_call 1 a b = AVL_CMP (unat a) (unat b)" by (simp add: demo_call_def)
  have legal: "legal unat (addable demo_heap ?tr) {} [Add 24, Add 8, Del 24, Add 40]"
    by (auto simp: addable_def demo_heap_def AVL_DATA2NODE_def)
  have a: "after {} [Add 24, Add 8, Del 24, Add (40 :: addr)] = {8, 40}" by auto
  show ?thesis
    using avl_history [where call = demo_call and key = unat and h = demo_heap, OF c call demo_tmp legal] c unfolding a by blast
qed

section \<open>Single operations\<close>

text \<open>
  C20. Adding an element with a new key keeps the tree balanced and in order, with the element
  at the place of its key and the count one higher. Adding one whose key is in the tree fails the
  assertion of \<open>avl_add\<close>: the process aborts.
\<close>

theorem avl_add_outcomes:
  assumes "avl_holds call key h tr ds" and "addable h tr d"
  shows "if \<exists>x\<in>set ds. key x = key d then avl_add call h tr d = Some (Inl Abort)
    else \<exists>h' tr'. avl_add call h tr d = Some (Inr (h', tr')) \<and>
      avl_holds call key h' tr' (filter (\<lambda>x. key x < key d) ds @ d # filter (\<lambda>x. key d < key x) ds)"
  using avl_add_holds [OF assms] avl_add_duplicate [OF assms(1)] by auto

theorem avl_add_outcomes_witness:
  "(\<exists>h' tr'. avl_add demo_call demo_heap demo_avl 56 = Some (Inr (h', tr')) \<and>
      avl_holds demo_call unat h' tr' [8, 24, 40, 56]) \<and>
   avl_add demo_call demo_heap demo_avl 24 = Some (Inl Abort)"
  using avl_add_outcomes [OF demo_holds demo_addable(1)] avl_add_outcomes [OF demo_holds demo_addable(2)] by simp

text \<open>
  C21. Removing an element keeps the tree balanced and the others in order; the allocated nodes
  are the same as before, the stack copy included.
\<close>

theorem avl_remove_in_order:
  assumes "avl_holds call key h tr ds" and "d \<in> set ds" and "good_addr tmp" and "h tmp = None"
  shows "\<exists>h' tr'. avl_remove tmp h tr d = Some (Inr (h', tr')) \<and>
    avl_holds call key h' tr' (filter (\<lambda>x. x \<noteq> d) ds) \<and> dom h' = dom h"
  using avl_remove_holds [OF assms] by blast

theorem avl_remove_in_order_witness:
  "\<exists>h' tr'. avl_remove 128 demo_heap demo_avl 24 = Some (Inr (h', tr')) \<and>
    avl_holds demo_call unat h' tr' [8, 40] \<and> dom h' = dom demo_heap"
  using avl_remove_in_order [OF demo_holds _ demo_tmp, of 24] by simp

text \<open>
  C22. A lookup returns the element with the key of the value, and \<open>NULL\<close> with an insertion
  cookie when there is none. From that cookie \<open>avl_nearest\<close> leads to the greatest element below the
  value and the least above it, or \<open>NULL\<close> where there is none.
\<close>

theorem avl_find_answers:
  assumes "avl_holds call key h tr ds"
  shows "(\<exists>d\<in>set ds. key d = key v \<and> avl_find call h tr v = Some (Inr (d, None))) \<or>
    (\<forall>d\<in>set ds. key d \<noteq> key v) \<and> (\<exists>where. avl_find call h tr v = Some (Inr (0, Some where)) \<and>
      avl_nearest h tr where 0 = Some (Inr (adj False (filter (\<lambda>x. key x < key v) ds) (filter (\<lambda>x. key v < key x) ds))) \<and>
      avl_nearest h tr where 1 = Some (Inr (adj True (filter (\<lambda>x. key x < key v) ds) (filter (\<lambda>x. key v < key x) ds))))"
  using avl_find_holds [OF assms, of v] avl_nearest_holds [OF assms, of v False] avl_nearest_holds [OF assms, of v True]
  by auto

theorem avl_find_answers_witness:
  "avl_find demo_call demo_heap demo_avl 40 = Some (Inr (40, None)) \<and>
    (\<exists>where. avl_find demo_call demo_heap demo_avl 30 = Some (Inr (0, Some where)) \<and>
      avl_nearest demo_heap demo_avl where 0 = Some (Inr 24) \<and> avl_nearest demo_heap demo_avl where 1 = Some (Inr 40))"
  using avl_find_answers [OF demo_holds, of 40] avl_find_answers [OF demo_holds, of 30] by (auto simp: adj_def)

text \<open>
  C23. \<open>avl_first\<close> and \<open>avl_last\<close> return the ends of the order, \<open>AVL_NEXT\<close> and \<open>AVL_PREV\<close>
  move one element along it, and all return \<open>NULL\<close> where there is nothing to return.
\<close>

theorem avl_walks_in_order:
  assumes "avl_holds call key h tr (A @ x # B)"
  shows "avl_first h tr = Some (Inr (hd (A @ [x]))) \<and> avl_last h tr = Some (Inr (last (x # B))) \<and>
    AVL_NEXT h tr x = Some (Inr (case B of [] \<Rightarrow> 0 | b # _ \<Rightarrow> b)) \<and>
    AVL_PREV h tr x = Some (Inr (case rev A of [] \<Rightarrow> 0 | a # _ \<Rightarrow> a))"
proof -
  have S: "avl_shape h tr (A @ x # B)" using assms by (simp add: avl_holds_iff)
  have "adj True [] (A @ x # B) = hd (A @ [x])" "adj False (A @ x # B) [] = last (x # B)" by (auto simp: adj_def hd_append)
  moreover have "adj True A B = (case B of [] \<Rightarrow> 0 | b # _ \<Rightarrow> b)" by (cases B) simp_all
  moreover have "adj False A B = (case rev A of [] \<Rightarrow> 0 | a # _ \<Rightarrow> a)" by (cases A rule: rev_cases) simp_all
  ultimately show ?thesis
    using avl_first_shape [OF S] avl_walk_shape [OF S, of True] avl_walk_shape [OF S, of False]
    by (simp add: AVL_NEXT_def AVL_PREV_def)
qed

theorem avl_walks_in_order_witness:
  "AVL_NEXT demo_heap demo_avl 24 = Some (Inr 40) \<and> AVL_PREV demo_heap demo_avl 24 = Some (Inr 8) \<and>
    avl_first demo_heap demo_avl = Some (Inr 8) \<and> avl_last demo_heap demo_avl = Some (Inr 40)"
  using avl_walks_in_order [of demo_call unat demo_heap demo_avl "[8]" 24 "[40]"] demo_holds by simp

text \<open>
  C24. \<open>avl_insert_here\<close> puts a new element right after or right before one that is there,
  without a comparison; when its key belongs there, the tree stays balanced and in order.
\<close>

theorem avl_insert_here_in_order:
  assumes "avl_holds call key h tr (A @ x # B)" and "addable h tr v"
    and "if d then key x < key v \<and> (\<forall>b\<in>set B. key v < key b) else (\<forall>a\<in>set A. key a < key v) \<and> key v < key x"
  shows "\<exists>h' tr'. avl_insert_here h tr v x (of_bool d) = Some (Inr (h', tr')) \<and>
    avl_holds call key h' tr' (if d then A @ x # v # B else A @ v # x # B)"
  using assms by (rule avl_insert_here_holds)

theorem avl_insert_here_in_order_witness:
  "\<exists>h' tr'. avl_insert_here demo_heap demo_avl 56 40 1 = Some (Inr (h', tr')) \<and>
    avl_holds demo_call unat h' tr' [8, 24, 40, 56]"
  using avl_insert_here_in_order [of demo_call unat demo_heap demo_avl "[8, 24]" 40 "[]" 56 True] demo_holds demo_addable
  by simp

section \<open>Updates\<close>

text \<open>
  C25. After the key of one element changed to another new key, \<open>avl_update\<close> moves it to the
  place of its new key, tells whether it moved, and touches nothing when it is in place.
\<close>

theorem avl_update_in_order:
  assumes "avl_shape h tr (A @ obj # B)" and "compar_is call tr key"
    and "sorted_wrt (\<lambda>a b. key a < key b) (A @ B)" and "\<forall>x\<in>set (A @ B). key x \<noteq> key obj"
    and "good_addr tmp" and "h tmp = None"
  shows "\<exists>h' tr'. avl_update call tmp h tr obj = Some (Inr (if misplaced key A obj B then B_TRUE else B_FALSE, h', tr')) \<and>
    avl_holds call key h' tr' (filter (\<lambda>x. key x < key obj) (A @ B) @ obj # filter (\<lambda>x. key obj < key x) (A @ B)) \<and>
    (\<not> misplaced key A obj B \<longrightarrow> h' = h \<and> tr' = tr)"
  using assms by (rule avl_update_ok)

definition demo_key :: "addr \<Rightarrow> nat" where
  "demo_key a = (if a = 24 then 99 else unat a)"

definition demo_call2 :: compar_env where
  "demo_call2 f a b = AVL_CMP (demo_key a) (demo_key b)"

theorem avl_update_in_order_witness:
  "\<exists>h' tr'. avl_update demo_call2 128 demo_heap demo_avl 24 = Some (Inr (B_TRUE, h', tr')) \<and>
    avl_holds demo_call2 demo_key h' tr' [8, 40, 24]"
  using avl_update_in_order [of demo_heap demo_avl "[8]" 24 "[40]" demo_call2 demo_key 128] demo_holds demo_tmp
  by (simp add: avl_holds_iff compar_is_def demo_call2_def demo_key_def misplaced_def)

text \<open>
  C26. The one-sided variants do what \<open>avl_update\<close> does where the neighbour on their side is
  in order, and abort where it is not.
\<close>

theorem avl_update_one_sided:
  assumes "avl_shape h tr (A @ obj # B)" and "compar_is call tr key"
  shows "avl_update_lt call tmp h tr obj =
      (if B \<noteq> [] \<and> key (hd B) < key obj then Some (Inl Abort) else avl_update call tmp h tr obj) \<and>
    avl_update_gt call tmp h tr obj =
      (if A \<noteq> [] \<and> key obj < key (last A) then Some (Inl Abort) else avl_update call tmp h tr obj)"
  using avl_update_lt_eq [OF assms] avl_update_gt_eq [OF assms] by blast

theorem avl_update_one_sided_witness:
  "avl_update_lt demo_call2 128 demo_heap demo_avl 24 = Some (Inl Abort) \<and>
    avl_update_gt demo_call2 128 demo_heap demo_avl 24 = avl_update demo_call2 128 demo_heap demo_avl 24"
  using avl_update_one_sided [of demo_heap demo_avl "[8]" 24 "[40]" demo_call2 demo_key 128] demo_holds
  by (simp add: avl_holds_iff compar_is_def demo_call2_def demo_key_def)

section \<open>The end of a tree\<close>

text \<open>
  C27. The loop over \<open>avl_destroy_nodes\<close> that frees each node it is given ends on every tree:
  each element is returned once, no node is touched after it was freed, all are freed and
  nothing else is, and \<open>avl_destroy\<close> accepts the header that is left.
\<close>

theorem avl_destroy_frees_all:
  assumes "avl_shape h tr ds"
  shows "\<exists>vs h' tr'. destroy_all h tr 0 [] = Some (Inr (vs, h', tr')) \<and> distinct vs \<and> set vs = set ds \<and>
    (\<forall>a. h' a = (if AVL_NODE2DATA a (avl_offset tr) \<in> set ds then None else h a)) \<and>
    avl_destroy tr' = Inr ()"
  using destroy_all_ok [OF assms] by (auto simp: avl_destroy_def)

theorem avl_destroy_frees_all_witness:
  "\<exists>vs h' tr'. destroy_all demo_heap demo_avl 0 [] = Some (Inr (vs, h', tr')) \<and> distinct vs \<and>
    set vs = {8, 24, 40} \<and> h' 16 = None \<and> h' 64 = demo_heap 64 \<and> avl_destroy tr' = Inr ()"
  using avl_destroy_frees_all [of demo_heap demo_avl "[8, 24, 40]"] demo_holds
  by (auto simp: avl_holds_iff demo_avl_def AVL_NODE2DATA_def)

section \<open>Packed node fields\<close>

text \<open>
  C28. Parent pointer, child index and balance share one word of a node. In any node, whatever its
  fields hold, writing one of them (with an aligned pointer, a balance of -1, 0 or 1) is read back as
  written and leaves the two others and both child pointers as they were; so they can be written in
  any order. The same holds in the layout with separate fields, where any pointer will do.
\<close>

theorem avl_fields_independent:
  assumes p: "aligned8 p" and b: "bal_ok b"
  shows "AVL_XPARENT (AVL_SETPARENT p n) = p \<and> AVL_XCHILD (AVL_SETPARENT p n) = AVL_XCHILD n \<and>
      AVL_XBALANCE (AVL_SETPARENT p n) = AVL_XBALANCE n \<and> avl_child (AVL_SETPARENT p n) d = avl_child n d \<and>
    AVL_XPARENT (AVL_SETCHILD c n) = AVL_XPARENT n \<and> AVL_XCHILD (AVL_SETCHILD c n) = c \<and>
      AVL_XBALANCE (AVL_SETCHILD c n) = AVL_XBALANCE n \<and> avl_child (AVL_SETCHILD c n) d = avl_child n d \<and>
    AVL_XPARENT (AVL_SETBALANCE b n) = AVL_XPARENT n \<and> AVL_XCHILD (AVL_SETBALANCE b n) = AVL_XCHILD n \<and>
      AVL_XBALANCE (AVL_SETBALANCE b n) = b \<and> avl_child (AVL_SETBALANCE b n) d = avl_child n d \<and>
    AVL_XPARENT_32 (AVL_SETPARENT_32 q m) = q \<and> AVL_XCHILD_32 (AVL_SETPARENT_32 q m) = AVL_XCHILD_32 m \<and>
      AVL_XBALANCE_32 (AVL_SETPARENT_32 q m) = AVL_XBALANCE_32 m \<and> children_32 (AVL_SETPARENT_32 q m) = children_32 m \<and>
    AVL_XPARENT_32 (AVL_SETCHILD_32 c m) = AVL_XPARENT_32 m \<and> AVL_XCHILD_32 (AVL_SETCHILD_32 c m) = c \<and>
      AVL_XBALANCE_32 (AVL_SETCHILD_32 c m) = AVL_XBALANCE_32 m \<and> children_32 (AVL_SETCHILD_32 c m) = children_32 m \<and>
    AVL_XPARENT_32 (AVL_SETBALANCE_32 b m) = AVL_XPARENT_32 m \<and> AVL_XCHILD_32 (AVL_SETBALANCE_32 b m) = AVL_XCHILD_32 m \<and>
      AVL_XBALANCE_32 (AVL_SETBALANCE_32 b m) = b \<and> children_32 (AVL_SETBALANCE_32 b m) = children_32 m"
proof -
  have "children_32 (AVL_SETPARENT_32 q m) = children_32 m" "children_32 (AVL_SETCHILD_32 c m) = children_32 m"
    "children_32 (AVL_SETBALANCE_32 b m) = children_32 m"
    by (simp_all add: children_32_def AVL_SETPARENT_32_def AVL_SETCHILD_32_def AVL_SETBALANCE_32_def)
  then show ?thesis using p b by (simp add: pcb.field_simps ilp32.field_simps)
qed

theorem avl_fields_independent_witness:
  "AVL_XPARENT (AVL_SETPARENT 48 \<lparr>avl_child0 = 0, avl_child1 = 0, avl_pcb = 33\<rparr>) = 48 \<and>
   AVL_XBALANCE (AVL_SETBALANCE (- 1) \<lparr>avl_child0 = 0, avl_child1 = 0, avl_pcb = 37\<rparr>) = - 1"
  using avl_fields_independent [of 48 "- 1" "\<lparr>avl_child0 = 0, avl_child1 = 0, avl_pcb = 33\<rparr>"]
    avl_fields_independent [of 48 "- 1" "\<lparr>avl_child0 = 0, avl_child1 = 0, avl_pcb = 37\<rparr>"]
  by (simp add: aligned8_def bal_ok_def)

end
