(* ===== verification/Vec.thy ===== *)
theory Vec
  imports Eob_World
begin

text \<open>
  The growable arrays of \<open>src/lib/libvec/vec.c\<close> and \<open>src/include/sys/vec.h\<close>. A \<open>vec_t(T)\<close> is a
  block of bytes with two \<open>int\<close> fields; \<open>memsz\<close> is \<open>sizeof(T)\<close>, and a value of type \<open>T\<close> is the
  list of its \<open>memsz\<close> bytes. Arithmetic on \<open>int\<close> that overflows is undefined. \<open>realloc\<close> succeeds
  or fails as the oracle of the world says. The functions of \<open>vec.c\<close>, whose names end in an
  underscore, have the suffix \<open>_fn\<close> here.
\<close>

record vec =
  vec_data :: "bytes option"
  vec_length :: int
  vec_capacity :: int

section \<open>Memory\<close>

text \<open>
  \<open>realloc(p, n)\<close> with \<open>n\<close> of type \<open>int\<close>: a negative \<open>n\<close> asks for more than there is and fails,
  0 is left open by the standard.
\<close>

definition sys_realloc :: "bytes option \<Rightarrow> int \<Rightarrow> eob_world \<Rightarrow> fault + bytes option \<times> eob_world" where
  "sys_realloc p n w =
     (if n = 0 then Inl UB
      else if n < 0 then Inr (None, w)
      else let (ok, w) = malloc_ok w; old = (case p of None \<Rightarrow> [] | Some d \<Rightarrow> d) in
        Inr (if ok then Some (take (nat n) (old @ junk_bytes (nat n - length old) w)) else None, w))"

text \<open>\<open>memmove(d + dst, d + src, n)\<close> inside one block.\<close>

definition c_memmove :: "bytes option \<Rightarrow> int \<Rightarrow> int \<Rightarrow> int \<Rightarrow> fault + bytes" where
  "c_memmove p dst src n =
     bindr (c_deref p) (\<lambda>d.
     bindr (guard UB (0 \<le> n \<and> 0 \<le> dst \<and> 0 \<le> src \<and> dst + n \<le> int (length d) \<and> src + n \<le> int (length d))) (\<lambda>_.
     Inr (overlay (nat dst) (bslice (nat src) (nat n) d) d)))"

section \<open>vec.c\<close>

definition vec_expand_fn :: "int \<Rightarrow> vec \<Rightarrow> eob_world \<Rightarrow> fault + int \<times> vec \<times> eob_world" where
  "vec_expand_fn memsz v w =
     bindr (c_int (vec_length v + 1)) (\<lambda>l.
     if l > vec_capacity v then
       bindr (if vec_capacity v = 0 then Inr 1
              else bindr (guard UB (vec_capacity v \<ge> 0)) (\<lambda>_. c_int (2 * vec_capacity v))) (\<lambda>n.
       bindr (c_int (n * memsz)) (\<lambda>sz.
       bindr (sys_realloc (vec_data v) sz w) (\<lambda>(ptr, w).
       case ptr of None \<Rightarrow> Inr (- 1, v, w)
       | Some d \<Rightarrow> Inr (0, v\<lparr>vec_data := Some d, vec_capacity := n\<rparr>, w))))
     else Inr (0, v, w))"

definition vec_reserve_fn :: "int \<Rightarrow> int \<Rightarrow> vec \<Rightarrow> eob_world \<Rightarrow> fault + int \<times> vec \<times> eob_world" where
  "vec_reserve_fn memsz n v w =
     (if n > vec_capacity v then
       bindr (c_int (n * memsz)) (\<lambda>sz.
       bindr (sys_realloc (vec_data v) sz w) (\<lambda>(ptr, w).
       case ptr of None \<Rightarrow> Inr (- 1, v, w)
       | Some d \<Rightarrow> Inr (0, v\<lparr>vec_data := Some d, vec_capacity := n\<rparr>, w)))
      else Inr (0, v, w))"

text \<open>The loop over \<open>n2\<close>, which is \<open>2 ^ k\<close>: the shift that would reach the sign bit is undefined.\<close>

function po2_loop :: "int \<Rightarrow> nat \<Rightarrow> fault + int" where
  "po2_loop n k = (if 2 ^ k < n then if Suc k < 31 then po2_loop n (Suc k) else Inl UB else Inr (2 ^ k))"
  by pat_completeness auto
termination by (relation "measure (\<lambda>(n, k). 31 - k)") auto

declare po2_loop.simps [simp del]

definition vec_reserve_po2_fn :: "int \<Rightarrow> int \<Rightarrow> vec \<Rightarrow> eob_world \<Rightarrow> fault + int \<times> vec \<times> eob_world" where
  "vec_reserve_po2_fn memsz n v w =
     (if n = 0 then Inr (0, v, w) else bindr (po2_loop n 0) (\<lambda>n2. vec_reserve_fn memsz n2 v w))"

definition vec_compact_fn :: "int \<Rightarrow> vec \<Rightarrow> eob_world \<Rightarrow> fault + int \<times> vec \<times> eob_world" where
  "vec_compact_fn memsz v w =
     (if vec_length v = 0 then Inr (0, v\<lparr>vec_data := None, vec_capacity := 0\<rparr>, w)
      else
        bindr (c_int (vec_length v * memsz)) (\<lambda>sz.
        bindr (sys_realloc (vec_data v) sz w) (\<lambda>(ptr, w).
        case ptr of None \<Rightarrow> Inr (- 1, v, w)
        | Some d \<Rightarrow> Inr (0, v\<lparr>vec_data := Some d, vec_capacity := vec_length v\<rparr>, w))))"

definition vec_insert_fn :: "int \<Rightarrow> int \<Rightarrow> vec \<Rightarrow> eob_world \<Rightarrow> fault + int \<times> vec \<times> eob_world" where
  "vec_insert_fn memsz idx v w =
     bindr (vec_expand_fn memsz v w) (\<lambda>(err, v, w).
     if err \<noteq> 0 then Inr (err, v, w)
     else
       bindr (c_int (idx + 1)) (\<lambda>i1. bindr (c_int (i1 * memsz)) (\<lambda>dst. bindr (c_int (idx * memsz)) (\<lambda>src.
       bindr (c_int (vec_length v - idx)) (\<lambda>c. bindr (c_int (c * memsz)) (\<lambda>n.
       bindr (c_memmove (vec_data v) dst src n) (\<lambda>d. Inr (0, v\<lparr>vec_data := Some d\<rparr>, w))))))))"

definition vec_splice_fn :: "int \<Rightarrow> int \<Rightarrow> int \<Rightarrow> vec \<Rightarrow> fault + vec" where
  "vec_splice_fn memsz start count v =
     bindr (c_int (start * memsz)) (\<lambda>dst.
     bindr (c_int (start + count)) (\<lambda>e. bindr (c_int (e * memsz)) (\<lambda>src.
     bindr (c_int (vec_length v - start)) (\<lambda>c. bindr (c_int (c - count)) (\<lambda>c. bindr (c_int (c * memsz)) (\<lambda>n.
     bindr (c_memmove (vec_data v) dst src n) (\<lambda>d. Inr (v\<lparr>vec_data := Some d\<rparr>))))))))"

definition vec_swapsplice_fn :: "int \<Rightarrow> int \<Rightarrow> int \<Rightarrow> vec \<Rightarrow> fault + vec" where
  "vec_swapsplice_fn memsz start count v =
     bindr (c_int (start * memsz)) (\<lambda>dst.
     bindr (c_int (vec_length v - count)) (\<lambda>e. bindr (c_int (e * memsz)) (\<lambda>src.
     bindr (c_int (count * memsz)) (\<lambda>n.
     bindr (c_memmove (vec_data v) dst src n) (\<lambda>d. Inr (v\<lparr>vec_data := Some d\<rparr>))))))"

text \<open>The loop exchanges two elements byte by byte.\<close>

primrec swap_loop :: "nat \<Rightarrow> nat \<Rightarrow> nat \<Rightarrow> bytes \<Rightarrow> bytes" where
  "swap_loop 0 a b d = d"
| "swap_loop (Suc count) a b d = swap_loop count (Suc a) (Suc b) (d[a := d ! b, b := d ! a])"

definition vec_swap_fn :: "int \<Rightarrow> int \<Rightarrow> int \<Rightarrow> vec \<Rightarrow> fault + vec" where
  "vec_swap_fn memsz idx1 idx2 v =
     (if idx1 = idx2 then Inr v
      else
        bindr (c_int (idx1 * memsz)) (\<lambda>a. bindr (c_int (idx2 * memsz)) (\<lambda>b.
        bindr (c_deref (vec_data v)) (\<lambda>d.
        bindr (guard UB (0 \<le> a \<and> 0 \<le> b \<and> a + memsz \<le> int (length d) \<and> b + memsz \<le> int (length d))) (\<lambda>_.
        Inr (v\<lparr>vec_data := Some (swap_loop (nat memsz) (nat a) (nat b) d)\<rparr>))))))"

section \<open>vec.h: elements\<close>

text \<open>Reading and writing \<open>(v)->data[i]\<close>.\<close>

definition vec_at :: "int \<Rightarrow> vec \<Rightarrow> int \<Rightarrow> fault + bytes" where
  "vec_at memsz v i =
     bindr (c_deref (vec_data v)) (\<lambda>d.
     bindr (guard UB (0 \<le> i \<and> (i + 1) * memsz \<le> int (length d))) (\<lambda>_.
     Inr (bslice (nat (i * memsz)) (nat memsz) d)))"

definition vec_put :: "int \<Rightarrow> vec \<Rightarrow> int \<Rightarrow> bytes \<Rightarrow> fault + vec" where
  "vec_put memsz v i val =
     bindr (c_deref (vec_data v)) (\<lambda>d.
     bindr (guard UB (0 \<le> i \<and> (i + 1) * memsz \<le> int (length d))) (\<lambda>_.
     Inr (v\<lparr>vec_data := Some (overlay (nat (i * memsz)) val d)\<rparr>)))"

definition vec_init :: vec where
  "vec_init = \<lparr>vec_data = None, vec_length = 0, vec_capacity = 0\<rparr>"

definition vec_deinit :: "vec \<Rightarrow> vec" where
  "vec_deinit v = vec_init"

definition vec_push :: "int \<Rightarrow> bytes \<Rightarrow> vec \<Rightarrow> eob_world \<Rightarrow> fault + int \<times> vec \<times> eob_world" where
  "vec_push memsz val v w =
     bindr (vec_expand_fn memsz v w) (\<lambda>(err, v, w).
     if err \<noteq> 0 then Inr (- 1, v, w)
     else bindr (vec_put memsz v (vec_length v) val) (\<lambda>v. Inr (0, v\<lparr>vec_length := vec_length v + 1\<rparr>, w)))"

definition vec_pop :: "int \<Rightarrow> vec \<Rightarrow> fault + bytes \<times> vec" where
  "vec_pop memsz v =
     bindr (c_int (vec_length v - 1)) (\<lambda>l.
     bindr (vec_at memsz v l) (\<lambda>x. Inr (x, v\<lparr>vec_length := l\<rparr>)))"

definition vec_splice :: "int \<Rightarrow> int \<Rightarrow> int \<Rightarrow> vec \<Rightarrow> fault + vec" where
  "vec_splice memsz start count v =
     bindr (vec_splice_fn memsz start count v) (\<lambda>v.
     bindr (c_int (vec_length v - count)) (\<lambda>l. Inr (v\<lparr>vec_length := l\<rparr>)))"

definition vec_swapsplice :: "int \<Rightarrow> int \<Rightarrow> int \<Rightarrow> vec \<Rightarrow> fault + vec" where
  "vec_swapsplice memsz start count v =
     bindr (vec_swapsplice_fn memsz start count v) (\<lambda>v.
     bindr (c_int (vec_length v - count)) (\<lambda>l. Inr (v\<lparr>vec_length := l\<rparr>)))"

text \<open>
  The commas of the macro bind less than its conditional: the length is raised and the value is
  0 after a failed expansion too.
\<close>

definition vec_insert :: "int \<Rightarrow> int \<Rightarrow> bytes \<Rightarrow> vec \<Rightarrow> eob_world \<Rightarrow> fault + int \<times> vec \<times> eob_world" where
  "vec_insert memsz idx val v w =
     bindr (vec_insert_fn memsz idx v w) (\<lambda>(err, v, w).
     bindr (if err \<noteq> 0 then Inr v else vec_put memsz v idx val) (\<lambda>v.
     bindr (c_int (vec_length v + 1)) (\<lambda>l. Inr (0, v\<lparr>vec_length := l\<rparr>, w))))"

definition vec_swap :: "int \<Rightarrow> int \<Rightarrow> int \<Rightarrow> vec \<Rightarrow> fault + vec" where
  "vec_swap memsz idx1 idx2 v = vec_swap_fn memsz idx1 idx2 v"

definition vec_truncate :: "int \<Rightarrow> vec \<Rightarrow> vec" where
  "vec_truncate len v = v\<lparr>vec_length := (if len < vec_length v then len else vec_length v)\<rparr>"

definition vec_clear :: "vec \<Rightarrow> vec" where
  "vec_clear v = v\<lparr>vec_length := 0\<rparr>"

definition vec_first :: "int \<Rightarrow> vec \<Rightarrow> fault + bytes" where
  "vec_first memsz v = vec_at memsz v 0"

definition vec_last :: "int \<Rightarrow> vec \<Rightarrow> fault + bytes" where
  "vec_last memsz v = bindr (c_int (vec_length v - 1)) (\<lambda>l. vec_at memsz v l)"

definition vec_reserve :: "int \<Rightarrow> int \<Rightarrow> vec \<Rightarrow> eob_world \<Rightarrow> fault + int \<times> vec \<times> eob_world" where
  "vec_reserve memsz n v w = vec_reserve_fn memsz n v w"

definition vec_resize :: "int \<Rightarrow> int \<Rightarrow> vec \<Rightarrow> eob_world \<Rightarrow> fault + int \<times> vec \<times> eob_world" where
  "vec_resize memsz n v w =
     bindr (c_int (n + 1)) (\<lambda>n1. vec_reserve memsz n1 (v\<lparr>vec_length := n\<rparr>) w)"

text \<open>Despite its name it leaves the length alone. A negative count is one of more bytes than there are.\<close>

definition vec_resize_zero :: "int \<Rightarrow> int \<Rightarrow> vec \<Rightarrow> eob_world \<Rightarrow> fault + int \<times> vec \<times> eob_world" where
  "vec_resize_zero memsz n v w =
     bindr (vec_reserve memsz n v w) (\<lambda>(err, v, w).
     if err \<noteq> 0 then Inr (- 1, v, w)
     else
       bindr (c_deref (vec_data v)) (\<lambda>d.
       bindr (guard UB (0 \<le> n \<and> n * memsz \<le> int (length d))) (\<lambda>_.
       Inr (0, v\<lparr>vec_data := Some (overlay 0 (replicate (nat (n * memsz)) 0) d)\<rparr>, w))))"

definition vec_compact :: "int \<Rightarrow> vec \<Rightarrow> eob_world \<Rightarrow> fault + int \<times> vec \<times> eob_world" where
  "vec_compact memsz v w = vec_compact_fn memsz v w"

text \<open>The block stays with the caller; the vector keeps the pointer.\<close>

definition vec_data_detach :: "vec \<Rightarrow> bytes option \<times> vec" where
  "vec_data_detach v = (vec_data v, v\<lparr>vec_length := 0, vec_capacity := 0\<rparr>)"

section \<open>vec.h: loops\<close>

text \<open>The copying loop of \<open>vec_pusharr\<close>; \<open>arr\<close> holds the elements of the array.\<close>

primrec pusharr_loop :: "int \<Rightarrow> bytes list \<Rightarrow> vec \<Rightarrow> fault + vec" where
  "pusharr_loop memsz [] v = Inr v"
| "pusharr_loop memsz (x # xs) v =
     bindr (vec_put memsz v (vec_length v) x) (\<lambda>v.
     pusharr_loop memsz xs (v\<lparr>vec_length := vec_length v + 1\<rparr>))"

text \<open>\<open>ret__\<close> is written on failure only.\<close>

definition vec_pusharr :: "int \<Rightarrow> bytes list \<Rightarrow> int \<Rightarrow> vec \<Rightarrow> eob_world \<Rightarrow> fault + int \<times> vec \<times> eob_world" where
  "vec_pusharr memsz arr ret v w =
     bindr (c_int (vec_length v + int (length arr))) (\<lambda>n.
     bindr (vec_reserve_po2_fn memsz n v w) (\<lambda>(err, v, w).
     if err \<noteq> 0 then Inr (- 1, v, w)
     else bindr (pusharr_loop memsz arr v) (\<lambda>v. Inr (ret, v, w))))"

text \<open>\<open>vec_foreach\<close> and its variants visit the elements with the indices 0 to \<open>length - 1\<close>.\<close>

primrec foreach_loop :: "int \<Rightarrow> vec \<Rightarrow> int \<Rightarrow> nat \<Rightarrow> fault + bytes list" where
  "foreach_loop memsz v i 0 = Inr []"
| "foreach_loop memsz v i (Suc n) =
     bindr (vec_at memsz v i) (\<lambda>x. bindr (foreach_loop memsz v (i + 1) n) (\<lambda>xs. Inr (x # xs)))"

definition vec_foreach :: "int \<Rightarrow> vec \<Rightarrow> fault + bytes list" where
  "vec_foreach memsz v = (if vec_length v > 0 then foreach_loop memsz v 0 (nat (vec_length v)) else Inr [])"

text \<open>\<open>vec_foreach_rev\<close>: from the last to the first.\<close>

primrec foreach_rev_loop :: "int \<Rightarrow> vec \<Rightarrow> nat \<Rightarrow> fault + bytes list" where
  "foreach_rev_loop memsz v 0 = Inr []"
| "foreach_rev_loop memsz v (Suc n) =
     bindr (vec_at memsz v (int n)) (\<lambda>x. bindr (foreach_rev_loop memsz v n) (\<lambda>xs. Inr (x # xs)))"

definition vec_foreach_rev :: "int \<Rightarrow> vec \<Rightarrow> fault + bytes list" where
  "vec_foreach_rev memsz v = (if vec_length v > 0 then foreach_rev_loop memsz v (nat (vec_length v)) else Inr [])"

definition vec_extend :: "int \<Rightarrow> vec \<Rightarrow> int \<Rightarrow> vec \<Rightarrow> eob_world \<Rightarrow> fault + int \<times> vec \<times> eob_world" where
  "vec_extend memsz v2 ret v w =
     bindr (vec_foreach memsz v2) (\<lambda>arr. vec_pusharr memsz arr ret v w)"

text \<open>The searching loops stop at the first element for which the test holds; -1 when none does.\<close>

primrec find_idx :: "int \<Rightarrow> (bytes \<Rightarrow> bool) \<Rightarrow> vec \<Rightarrow> int \<Rightarrow> nat \<Rightarrow> fault + int" where
  "find_idx memsz p v i 0 = Inr (- 1)"
| "find_idx memsz p v i (Suc n) =
     bindr (vec_at memsz v i) (\<lambda>x. if p x then Inr i else find_idx memsz p v (i + 1) n)"

definition vec_find_by_cmp :: "int \<Rightarrow> (bytes \<Rightarrow> bool) \<Rightarrow> vec \<Rightarrow> fault + int" where
  "vec_find_by_cmp memsz p v =
     (if vec_length v < 0 then Inr 0 else find_idx memsz p v 0 (nat (vec_length v)))"

definition vec_find :: "int \<Rightarrow> bytes \<Rightarrow> vec \<Rightarrow> fault + int" where
  "vec_find memsz val v = vec_find_by_cmp memsz (\<lambda>x. x = val) v"

definition vec_remove :: "int \<Rightarrow> bytes \<Rightarrow> vec \<Rightarrow> fault + vec" where
  "vec_remove memsz val v =
     bindr (vec_find memsz val v) (\<lambda>idx. if idx \<noteq> - 1 then vec_splice memsz idx 1 v else Inr v)"

primrec reverse_loop :: "int \<Rightarrow> nat \<Rightarrow> vec \<Rightarrow> fault + vec" where
  "reverse_loop memsz 0 v = Inr v"
| "reverse_loop memsz (Suc i) v =
     bindr (vec_swap memsz (int i) (vec_length v - (int i + 1)) v) (reverse_loop memsz i)"

definition vec_reverse :: "int \<Rightarrow> vec \<Rightarrow> fault + vec" where
  "vec_reverse memsz v =
     bindr (guard UB (vec_length v > - 2)) (\<lambda>_. reverse_loop memsz (nat (vec_length v div 2)) v)"

text \<open>\<open>vec_map\<close> ignores what the pushes return.\<close>

primrec map_loop :: "int \<Rightarrow> (bytes \<Rightarrow> bytes) \<Rightarrow> bytes list \<Rightarrow> vec \<Rightarrow> eob_world \<Rightarrow> fault + vec \<times> eob_world" where
  "map_loop memsz f [] r w = Inr (r, w)"
| "map_loop memsz f (x # xs) r w =
     bindr (vec_push memsz (f x) r w) (\<lambda>(_, r, w). map_loop memsz f xs r w)"

definition vec_map :: "int \<Rightarrow> int \<Rightarrow> (bytes \<Rightarrow> bytes) \<Rightarrow> vec \<Rightarrow> vec \<Rightarrow> eob_world \<Rightarrow> fault + vec \<times> eob_world" where
  "vec_map memsz rsz f v r w = bindr (vec_foreach memsz v) (\<lambda>xs. map_loop rsz f xs r w)"

end
