(* ===== verification/Vec_Spec.thy ===== *)
theory Vec_Spec
  imports Vec "HOL-Library.Sublist"
begin

text \<open>
  The growable arrays of \<open>src/lib/libvec/vec.c\<close> as lists: \<open>vec_rep\<close> relates a vector to the list
  of its elements, and each operation to an operation on lists. A failed allocation leaves the
  list as it was, except in \<open>vec_insert\<close>.
\<close>

section \<open>Blocks of memory\<close>

lemma overlay_inside:
  "off + length src \<le> length dst \<Longrightarrow> overlay off src dst = take off dst @ src @ drop (off + length src) dst"
  by (cases "src = []") (simp_all add: overlay_def)

lemma overlay_parts: "off = length A \<Longrightarrow> length src = length B \<Longrightarrow> overlay off src (A @ B @ C) = A @ src @ C"
  by (simp add: overlay_inside)

lemma c_memmove_parts:
  assumes "src = int (length A)" and "n = int (length B)" and "0 \<le> dst" and "dst + n \<le> int (length (A @ B @ C))"
  shows "c_memmove (Some (A @ B @ C)) dst src n =
    Inr (take (nat dst) (A @ B @ C) @ B @ drop (nat dst + length B) (A @ B @ C))"
proof -
  have "nat dst + length B \<le> length (A @ B @ C)" using assms by linarith
  moreover have "bslice (length A) (length B) (A @ B @ C) = B" by (rule bslice_append_hit) simp_all
  ultimately show ?thesis using assms by (simp add: c_memmove_def overlay_inside)
qed

lemma swap_loop_parts:
  "length X = length Y \<Longrightarrow> swap_loop (length X) (length A) (length (A @ X @ B)) (A @ X @ B @ Y @ C) = A @ Y @ B @ X @ C"
proof (induction X arbitrary: A B Y)
  case (Cons x X)
  then obtain y Y' where Y: "Y = y # Y'" "length X = length Y'" by (cases Y) auto
  have "(A @ (x # X) @ B @ Y @ C)[length A := y, length (A @ (x # X) @ B) := x] = (A @ [y]) @ X @ (B @ [x]) @ Y' @ C"
    by (simp add: Y list_update_append)
  moreover have "(A @ (x # X) @ B @ Y @ C) ! length (A @ (x # X) @ B) = y" "(A @ (x # X) @ B @ Y @ C) ! length A = x"
    by (simp_all add: Y nth_append)
  ultimately show ?case using Cons.IH [OF Y(2), of "A @ [y]" "B @ [x]"] by (simp add: Y(1))
qed simp

lemma swap_loop_commute: "a \<noteq> b \<Longrightarrow> swap_loop n a b d = swap_loop n b a d"
  by (induction n arbitrary: a b d) (simp_all add: list_update_swap)

section \<open>Vectors as lists\<close>

definition vec_rep :: "int \<Rightarrow> vec \<Rightarrow> bytes list \<Rightarrow> bool" where
  "vec_rep sz v es \<longleftrightarrow> 0 < sz \<and> (\<forall>e\<in>set es. length e = nat sz) \<and> vec_length v = int (length es) \<and>
     0 \<le> vec_capacity v \<and> vec_capacity v * sz < 2 ^ 31 \<and>
     (case vec_data v of None \<Rightarrow> es = [] \<and> vec_capacity v = 0
      | Some d \<Rightarrow> \<exists>J. d = concat es @ J \<and> int (length d) = vec_capacity v * sz)"

lemma length_concat_elems: "\<forall>e\<in>set es. length e = n \<Longrightarrow> length (concat es) = length es * n"
  by (induction es) auto

lemma vec_rep_init: "0 < sz \<Longrightarrow> vec_rep sz vec_init []"
  by (simp add: vec_rep_def vec_init_def)

lemma vec_repE:
  assumes "vec_rep sz v es" and "es \<noteq> [] \<or> vec_data v \<noteq> None"
  obtains J where "vec_data v = Some (concat es @ J)" and "length (concat es) = length es * nat sz"
    and "int (length (concat es @ J)) = vec_capacity v * sz" and "0 < sz" and "\<forall>e\<in>set es. length e = nat sz"
    and "vec_length v = int (length es)" and "int (length es) \<le> vec_capacity v" and "vec_capacity v * sz < 2 ^ 31"
proof -
  have b: "0 < sz" "\<forall>e\<in>set es. length e = nat sz" "vec_length v = int (length es)" "vec_capacity v * sz < 2 ^ 31"
    using assms(1) by (simp_all add: vec_rep_def)
  obtain J where J: "vec_data v = Some (concat es @ J)" "int (length (concat es @ J)) = vec_capacity v * sz"
    using assms by (auto simp: vec_rep_def split: option.splits)
  note len = length_concat_elems [OF b(2)]
  have "int (length es) * sz + int (length J) = vec_capacity v * sz" using J(2) len b(1) by simp
  then have "int (length es) * sz \<le> vec_capacity v * sz" by linarith
  then have "int (length es) \<le> vec_capacity v" using b(1) by (rule mult_right_le_imp_le)
  with that J b len show thesis by blast
qed

lemma vec_rep_len: "vec_rep sz v es \<Longrightarrow> vec_length v = int (length es) \<and> int (length es) \<le> vec_capacity v"
proof (cases "es = [] \<and> vec_data v = None")
  case True
  then show "vec_rep sz v es \<Longrightarrow> ?thesis" by (simp add: vec_rep_def)
next
  case False
  then show "vec_rep sz v es \<Longrightarrow> ?thesis" by (auto elim!: vec_repE)
qed

lemma vec_rep_SomeI:
  "vec_data v = Some (concat es @ J) \<Longrightarrow> int (length (concat es @ J)) = vec_capacity v * sz \<Longrightarrow> 0 < sz \<Longrightarrow>
   \<forall>e\<in>set es. length e = nat sz \<Longrightarrow> vec_length v = int (length es) \<Longrightarrow> 0 \<le> vec_capacity v \<Longrightarrow>
   vec_capacity v * sz < 2 ^ 31 \<Longrightarrow> vec_rep sz v es"
  by (auto simp: vec_rep_def)

lemma index_range: "0 < sz \<Longrightarrow> 0 \<le> i \<Longrightarrow> i \<le> m \<Longrightarrow> m * sz < 2 ^ 31 \<Longrightarrow> c_int (i * sz) = Inr (i * sz)"
  for i m sz :: int
proof -
  assume a: "0 < sz" "0 \<le> i" "i \<le> m" "m * sz < 2 ^ 31"
  have "0 \<le> i * sz" "i * sz \<le> m * sz" using a by (simp_all add: mult_right_mono)
  then show "c_int (i * sz) = Inr (i * sz)" using a(4) by (intro c_int_ok) linarith+
qed

lemma small_count: "0 < sz \<Longrightarrow> 0 \<le> m \<Longrightarrow> m * sz < 2 ^ 31 \<Longrightarrow> m < 2 ^ 31" for m sz :: int
  using mult_left_mono [of 1 sz m] by simp

section \<open>Growing\<close>

lemma realloc_cases:
  assumes "0 < n"
  shows "\<exists>w'. sys_realloc p n w = Inr (if fst (malloc_ok w)
      then Some (take (nat n) ((case p of None \<Rightarrow> [] | Some d \<Rightarrow> d) @ junk_bytes (nat n - length (case p of None \<Rightarrow> [] | Some d \<Rightarrow> d)) w'))
      else None, w') \<and> w' = snd (malloc_ok w)"
  using assms by (cases "malloc_ok w") (simp add: sys_realloc_def Let_def)

lemma realloc_rep:
  assumes R: "vec_rep sz v es" and n: "vec_capacity v < n" "n * sz < 2 ^ 31"
  shows "\<exists>p. sys_realloc (vec_data v) (n * sz) w = Inr (p, snd (malloc_ok w)) \<and> (p = None \<longleftrightarrow> \<not> fst (malloc_ok w)) \<and>
    (\<forall>d. p = Some d \<longrightarrow> vec_rep sz (v\<lparr>vec_data := Some d, vec_capacity := n\<rparr>) es)"
proof -
  have sz: "0 < sz" and cap: "0 \<le> vec_capacity v" using R by (simp_all add: vec_rep_def)
  then have pos: "0 < n * sz" using n(1) by simp
  let ?old = "case vec_data v of None \<Rightarrow> [] | Some d \<Rightarrow> d"
  have old: "\<exists>J. ?old = concat es @ J" "int (length ?old) = vec_capacity v * sz"
    using R by (auto simp: vec_rep_def split: option.splits)
  let ?d = "take (nat (n * sz)) (?old @ junk_bytes (nat (n * sz) - length ?old) (snd (malloc_ok w)))"
  have le: "length ?old \<le> nat (n * sz)" using old(2) mult_right_mono [of "vec_capacity v" n sz] n(1) sz by linarith
  then have len: "length ?d = nat (n * sz)" by (simp add: junk_bytes_def)
  obtain J where "?old = concat es @ J" using old(1) by blast
  moreover have "?d = ?old @ take (nat (n * sz) - length ?old) (junk_bytes (nat (n * sz) - length ?old) (snd (malloc_ok w)))"
    using le by simp
  ultimately have "\<exists>J. ?d = concat es @ J" by (metis append_assoc)
  then have "vec_rep sz (v\<lparr>vec_data := Some ?d, vec_capacity := n\<rparr>) es"
    using R n cap len pos by (auto simp: vec_rep_def)
  then show ?thesis using realloc_cases [OF pos, of "vec_data v" w] by auto
qed

text \<open>Room for one more element without overflow of \<open>int\<close>.\<close>

definition growable :: "int \<Rightarrow> vec \<Rightarrow> bool" where
  "growable sz v \<longleftrightarrow> vec_length v < vec_capacity v \<or> (if vec_capacity v = 0 then sz else 2 * vec_capacity v * sz) < 2 ^ 31"

lemma vec_expand_ok:
  assumes R: "vec_rep sz v es" and g: "growable sz v"
  shows "\<exists>rv v' w'. vec_expand_fn sz v w = Inr (rv, v', w') \<and>
    (rv = 0 \<and> vec_rep sz v' es \<and> int (length es) < vec_capacity v' \<or> rv = - 1 \<and> v' = v \<and> set (w_mallocs w) \<noteq> {True} \<and> w_mallocs w \<noteq> []) \<and>
    (w_mallocs w = [] \<longrightarrow> w_mallocs w' = [])"
proof -
  have sz: "0 < sz" and cap: "0 \<le> vec_capacity v" "vec_capacity v * sz < 2 ^ 31" using R by (simp_all add: vec_rep_def)
  note len = vec_rep_len [OF R]
  have small: "vec_capacity v < 2 ^ 31" using small_count [OF sz cap] .
  show ?thesis
  proof (cases "vec_length v < vec_capacity v")
    case True
    then have "vec_expand_fn sz v w = Inr (0, v, w)" using len small by (simp add: vec_expand_fn_def)
    then show ?thesis using R True len by auto
  next
    case False
    then have eq: "vec_length v = vec_capacity v" using len by simp
    define n where "n = (if vec_capacity v = 0 then 1 else 2 * vec_capacity v)"
    have n: "vec_capacity v < n" "n * sz < 2 ^ 31" using g False cap by (auto simp: n_def growable_def)
    have nsmall: "n < 2 ^ 31" using small_count [OF sz _ n(2)] n(1) cap by simp
    obtain p where p: "sys_realloc (vec_data v) (n * sz) w = Inr (p, snd (malloc_ok w))" "p = None \<longleftrightarrow> \<not> fst (malloc_ok w)"
      "\<And>d. p = Some d \<Longrightarrow> vec_rep sz (v\<lparr>vec_data := Some d, vec_capacity := n\<rparr>) es"
      using realloc_rep [OF R n] by blast
    have "c_int (vec_length v + 1) = Inr (vec_length v + 1)" using eq cap n nsmall by (simp add: n_def split: if_splits)
    moreover have "c_int (n * sz) = Inr (n * sz)"
      using index_range [OF sz _ order_refl n(2)] n(1) cap by simp
    moreover have "(if vec_capacity v = 0 then Inr 1 else bindr (guard UB (0 \<le> vec_capacity v)) (\<lambda>_. c_int (2 * vec_capacity v))) = Inr n"
      using cap nsmall by (simp add: n_def split: if_splits)
    ultimately have run: "vec_expand_fn sz v w = (case p of None \<Rightarrow> Inr (- 1, v, snd (malloc_ok w))
        | Some d \<Rightarrow> Inr (0, v\<lparr>vec_data := Some d, vec_capacity := n\<rparr>, snd (malloc_ok w)))"
      using eq p(1) by (simp add: vec_expand_fn_def split: option.split)
    have w: "w_mallocs w = [] \<Longrightarrow> malloc_ok w = (True, w)" "fst (malloc_ok w) \<or> (False \<in> set (w_mallocs w))"
      by (auto split: list.splits)
    show ?thesis using run p(2,3) w n(1) len by (cases p) auto
  qed
qed

section \<open>Elements\<close>

lemma elem_split:
  assumes "\<forall>e\<in>set es. length e = n" and "i < length es"
  shows "concat es = concat (take i es) @ es ! i @ concat (drop (Suc i) es)" and "length (concat (take i es)) = i * n"
    and "length (es ! i) = n"
proof -
  show "concat es = concat (take i es) @ es ! i @ concat (drop (Suc i) es)"
    using id_take_nth_drop [OF assms(2)] by (metis concat.simps(2) concat_append)
  have "\<forall>e\<in>set (take i es). length e = n" using assms(1) set_take_subset [of i es] by blast
  then show "length (concat (take i es)) = i * n" using length_concat_elems [of "take i es" n] assms(2) by simp
  show "length (es ! i) = n" using assms by simp
qed

lemma nat_index: "0 \<le> sz \<Longrightarrow> nat (int i * sz) = i * nat sz"
  by (simp add: nat_mult_distrib)

lemma vec_at_ok:
  assumes R: "vec_rep sz v es" and i: "i < length es"
  shows "vec_at sz v (int i) = Inr (es ! i)"
proof -
  obtain J where J: "vec_data v = Some (concat es @ J)" "length (concat es) = length es * nat sz" "0 < sz"
    "\<forall>e\<in>set es. length e = nat sz" using R i by (elim vec_repE) auto
  note E = elem_split [OF J(4) i]
  have "(int i + 1) * sz \<le> int (length es) * sz" using i J(3) by (simp add: mult_right_mono)
  also have "\<dots> \<le> int (length (concat es @ J))" using J(2,3) by simp
  finally have "(int i + 1) * sz \<le> int (length (concat es @ J))" .
  moreover have "bslice (i * nat sz) (nat sz) (concat es @ J) = es ! i"
    by (subst E(1), simp only: append_assoc, rule bslice_append_hit) (simp_all only: E(2,3))
  ultimately show ?thesis using J(1,3) by (simp add: vec_at_def nat_index)
qed

lemma vec_put_end:
  assumes R: "vec_rep sz v es" and room: "int (length es) < vec_capacity v" and x: "length x = nat sz"
  shows "\<exists>v'. vec_put sz v (vec_length v) x = Inr v' \<and> vec_rep sz (v'\<lparr>vec_length := vec_length v' + 1\<rparr>) (es @ [x]) \<and>
    vec_length v' = vec_length v \<and> vec_capacity v' = vec_capacity v"
proof -
  have "vec_data v \<noteq> None" using R room by (auto simp: vec_rep_def split: option.splits)
  then obtain J where J: "vec_data v = Some (concat es @ J)" "length (concat es) = length es * nat sz"
    "int (length (concat es @ J)) = vec_capacity v * sz" "0 < sz" "\<forall>e\<in>set es. length e = nat sz"
    "vec_length v = int (length es)" "vec_capacity v * sz < 2 ^ 31" using R by (elim vec_repE) auto
  have le: "(int (length es) + 1) * sz \<le> vec_capacity v * sz" using room J(4) by (intro mult_right_mono) simp_all
  then have "int (length es) * sz + sz \<le> int (length es) * sz + int (length J)" using J(2-4) by (simp add: distrib_right)
  then have JJ: "nat sz \<le> length J" using J(4) by simp
  have ov: "overlay (length es * nat sz) x (concat es @ J) = concat es @ x @ drop (nat sz) J"
    using JJ J(2) x by (simp add: overlay_inside)
  let ?v = "v\<lparr>vec_data := Some (concat es @ x @ drop (nat sz) J)\<rparr>"
  have "vec_put sz v (vec_length v) x = Inr ?v"
    using J(1,4,6) le J(3) ov by (simp add: vec_put_def nat_index)
  moreover have "vec_rep sz (?v\<lparr>vec_length := vec_length v + 1\<rparr>) (es @ [x])"
    by (rule vec_rep_SomeI [where J = "drop (nat sz) J"]) (use J x JJ room in auto)
  ultimately show ?thesis by simp
qed

section \<open>Operations at the end\<close>

lemma vec_push_ok:
  assumes R: "vec_rep sz v es" and g: "growable sz v" and x: "length x = nat sz"
  shows "\<exists>rv v' w'. vec_push sz x v w = Inr (rv, v', w') \<and>
    (rv = 0 \<and> vec_rep sz v' (es @ [x]) \<or> rv = - 1 \<and> v' = v \<and> w_mallocs w \<noteq> []) \<and> (w_mallocs w = [] \<longrightarrow> w_mallocs w' = [])"
proof -
  obtain rv v1 w1 where e: "vec_expand_fn sz v w = Inr (rv, v1, w1)"
    "rv = 0 \<and> vec_rep sz v1 es \<and> int (length es) < vec_capacity v1 \<or> rv = - 1 \<and> v1 = v \<and> w_mallocs w \<noteq> []"
    "w_mallocs w = [] \<longrightarrow> w_mallocs w1 = []" using vec_expand_ok [OF R g, of w] by blast
  show ?thesis
  proof (cases "rv = 0")
    case True
    then have R1: "vec_rep sz v1 es" "int (length es) < vec_capacity v1" using e(2) by auto
    obtain v2 where "vec_put sz v1 (vec_length v1) x = Inr v2" "vec_rep sz (v2\<lparr>vec_length := vec_length v2 + 1\<rparr>) (es @ [x])"
      using vec_put_end [OF R1 x] by blast
    then show ?thesis using e(1,3) True by (simp add: vec_push_def)
  next
    case False
    then show ?thesis using e by (auto simp: vec_push_def)
  qed
qed

lemma vec_rep_shrink:
  assumes "vec_rep sz v es"
  shows "vec_rep sz (v\<lparr>vec_length := int (min n (length es))\<rparr>) (take n es)"
proof (cases "vec_data v")
  case None
  then show ?thesis using assms by (simp add: vec_rep_def)
next
  case (Some d)
  then obtain J where "d = concat es @ J" "int (length d) = vec_capacity v * sz" using assms by (auto simp: vec_rep_def)
  moreover have "concat es = concat (take n es) @ concat (drop n es)" by (metis append_take_drop_id concat_append)
  ultimately show ?thesis using assms Some by (auto simp: vec_rep_def min.commute dest: in_set_takeD)
qed

lemma vec_pop_ok:
  assumes R: "vec_rep sz v (es @ [x])"
  shows "\<exists>v'. vec_pop sz v = Inr (x, v') \<and> vec_rep sz v' es"
proof -
  have l: "vec_length v = int (length es) + 1" using vec_rep_len [OF R] by simp
  have "vec_length v < 2 ^ 31"
    using vec_rep_len [OF R] small_count [of sz "vec_capacity v"] R by (simp add: vec_rep_def)
  then have "c_int (vec_length v - 1) = Inr (int (length es))" using l by simp
  moreover have "vec_at sz v (int (length es)) = Inr x" using vec_at_ok [OF R, of "length es"] by simp
  moreover have "vec_rep sz (v\<lparr>vec_length := int (length es)\<rparr>) es" using vec_rep_shrink [OF R, of "length es"] by simp
  ultimately show ?thesis by (simp add: vec_pop_def)
qed

lemma vec_truncate_ok:
  assumes "vec_rep sz v es" and "0 \<le> n"
  shows "vec_rep sz (vec_truncate n v) (take (nat n) es)" and "vec_rep sz (vec_clear v) []"
proof -
  have "vec_truncate n v = v\<lparr>vec_length := int (min (nat n) (length es))\<rparr>"
    using vec_rep_len [OF assms(1)] assms(2) by (simp add: vec_truncate_def min_def)
  then show "vec_rep sz (vec_truncate n v) (take (nat n) es)" using vec_rep_shrink [OF assms(1)] by simp
  show "vec_rep sz (vec_clear v) []" using vec_rep_shrink [OF assms(1), of 0] by (simp add: vec_clear_def)
qed

section \<open>Insertion and removal\<close>

text \<open>A vector split at two places.\<close>

lemma vec_split3:
  assumes R: "vec_rep sz v (A @ M @ B)" and d: "vec_data v = Some (concat (A @ M @ B) @ J)"
  shows "length (concat A) = length A * nat sz" and "length (concat M) = length M * nat sz"
    and "length (concat B) = length B * nat sz" and "0 < sz"
  using R by (auto simp: vec_rep_def intro!: length_concat_elems)

lemma vec_bytes:
  assumes "vec_rep sz v es"
  shows "\<And>i. 0 \<le> i \<Longrightarrow> i \<le> int (length es) \<Longrightarrow> c_int (i * sz) = Inr (i * sz)"
    and "\<And>i. - int (length es) \<le> i \<Longrightarrow> i \<le> int (length es) \<Longrightarrow> c_int i = Inr i"
proof -
  have m: "0 < sz" "0 \<le> vec_capacity v" "vec_capacity v * sz < 2 ^ 31" using assms by (simp_all add: vec_rep_def)
  have le: "int (length es) \<le> vec_capacity v" using vec_rep_len [OF assms] by simp
  show "c_int (i * sz) = Inr (i * sz)" if "0 \<le> i" "i \<le> int (length es)" for i
    by (rule index_range [OF m(1) that(1) _ m(3)]) (use le that in linarith)
  have "vec_capacity v < 2 ^ 31" by (rule small_count [OF m])
  then show "c_int i = Inr i" if "- int (length es) \<le> i" "i \<le> int (length es)" for i
    using that le by (intro c_int_ok) linarith+
qed

lemma vec_splice_ok:
  assumes R: "vec_rep sz v (A @ M @ B)" and ne: "vec_data v \<noteq> None"
  shows "\<exists>v'. vec_splice sz (int (length A)) (int (length M)) v = Inr v' \<and> vec_rep sz v' (A @ B)"
proof -
  obtain J where J: "vec_data v = Some (concat (A @ M @ B) @ J)" "int (length (concat (A @ M @ B) @ J)) = vec_capacity v * sz"
    "\<forall>e\<in>set (A @ M @ B). length e = nat sz" "vec_length v = int (length (A @ M @ B))" "vec_capacity v * sz < 2 ^ 31" "0 \<le> vec_capacity v"
    using R ne by (auto simp: vec_rep_def)
  note S = vec_split3 [OF R J(1)]
  note C = vec_bytes [OF R]
  let ?a = "int (length A)" and ?m = "int (length M)" and ?b = "int (length B)"
  have c: "c_int (?a * sz) = Inr (?a * sz)" "c_int ((?a + ?m) * sz) = Inr ((?a + ?m) * sz)" "c_int (?b * sz) = Inr (?b * sz)"
    "c_int (?a + ?m) = Inr (?a + ?m)" "c_int (?m + ?b) = Inr (?m + ?b)" "c_int ?b = Inr ?b" "c_int (?a + ?b) = Inr (?a + ?b)"
    by (rule C; simp)+
  have dst: "nat (?a * sz) = length (concat A)" using S by (simp add: nat_index)
  define J' where "J' = drop (length (concat B)) (concat M @ concat B @ J)"
  have lJ: "length J' = length (concat M) + length J" unfolding J'_def length_drop by simp
  have mv: "c_memmove (vec_data v) (?a * sz) ((?a + ?m) * sz) (?b * sz) =
      Inr (concat A @ concat B @ J')" unfolding J'_def
    using c_memmove_parts [of "(?a + ?m) * sz" "concat A @ concat M" "?b * sz" "concat B" "?a * sz" J] S dst J(1)
    by (simp add: distrib_right)
  let ?d = "concat A @ concat B @ J'"
  have run: "vec_splice sz ?a ?m v = Inr (v\<lparr>vec_data := Some ?d, vec_length := ?a + ?b\<rparr>)"
    using J(4) c mv by (simp add: vec_splice_def vec_splice_fn_def)
  have "vec_rep sz (v\<lparr>vec_data := Some ?d, vec_length := ?a + ?b\<rparr>) (A @ B)"
    by (rule vec_rep_SomeI [where J = J']) (use J S lJ in auto)
  then show ?thesis using run by blast
qed

text \<open>Insertion with room, and its outcome when the block cannot grow.\<close>

lemma vec_insert_room:
  assumes R: "vec_rep sz v (A @ B)" and room: "int (length (A @ B)) < vec_capacity v" and x: "length x = nat sz"
    and run: "vec_expand_fn sz v0 w = Inr (0, v, w')"
  shows "\<exists>v'. vec_insert sz (int (length A)) x v0 w = Inr (0, v', w') \<and> vec_rep sz v' (A @ x # B)"
proof -
  have "vec_data v \<noteq> None" using R room by (auto simp: vec_rep_def split: option.splits)
  then obtain J where J: "vec_data v = Some (concat (A @ B) @ J)" "int (length (concat (A @ B) @ J)) = vec_capacity v * sz"
    "\<forall>e\<in>set (A @ B). length e = nat sz" "vec_length v = int (length (A @ B))" "vec_capacity v * sz < 2 ^ 31" "0 \<le> vec_capacity v"
    using R by (auto simp: vec_rep_def)
  have S: "length (concat A) = length A * nat sz" "length (concat B) = length B * nat sz" "0 < sz"
    using R J(3) by (auto simp: vec_rep_def intro!: length_concat_elems)
  let ?a = "int (length A)" and ?b = "int (length B)"
  have le: "(?a + ?b + 1) * sz \<le> vec_capacity v * sz" using room S(3) by (intro mult_right_mono) simp_all
  then have JJ: "nat sz \<le> length J" using J(2) S by (simp add: distrib_right)
  note C = vec_bytes [OF R]
  have cap: "vec_capacity v < 2 ^ 31" using small_count [OF S(3) J(6,5)] .
  have c: "c_int (?a * sz) = Inr (?a * sz)" "c_int (?b * sz) = Inr (?b * sz)" "c_int ?b = Inr ?b"
    by (rule C; simp)+
  have c1: "c_int (?a + 1) = Inr (?a + 1)" "c_int (?a + ?b + 1) = Inr (?a + ?b + 1)" using room cap by simp_all
  have c2: "c_int ((?a + 1) * sz) = Inr ((?a + 1) * sz)"
    by (rule index_range [OF S(3) _ _ J(5)]) (use room in simp_all)
  let ?X = "take (nat sz) (concat B @ J)" and ?J = "drop (nat sz) J"
  have dst: "nat ((?a + 1) * sz) = length (concat A) + nat sz" using S by (simp add: distrib_right nat_add_distrib nat_index)
  have fit: "(?a + 1) * sz + ?b * sz \<le> int (length (concat A @ concat B @ J))" using le J(2) by (simp add: distrib_right)
  have mv: "c_memmove (vec_data v) ((?a + 1) * sz) (?a * sz) (?b * sz) = Inr (concat A @ ?X @ concat B @ ?J)"
    using c_memmove_parts [of "?a * sz" "concat A" "?b * sz" "concat B" "(?a + 1) * sz" J] S dst fit J(1)
    by simp
  let ?d = "concat A @ ?X @ concat B @ ?J" and ?d' = "concat A @ x @ concat B @ ?J"
  have lX: "length ?X = nat sz" using JJ by simp
  have put: "vec_put sz (v\<lparr>vec_data := Some ?d\<rparr>) ?a x = Inr (v\<lparr>vec_data := Some ?d'\<rparr>)"
  proof -
    have ov: "overlay (length A * nat sz) x ?d = ?d'" by (rule overlay_parts) (use S lX x in simp_all)
    have "length ?d = length A * nat sz + nat sz + length (concat B @ ?J)" by (simp only: length_append lX S(1))
    moreover have "(?a + 1) * sz = int (length A * nat sz + nat sz)" using S(3) by (simp add: distrib_right)
    ultimately have "(?a + 1) * sz \<le> int (length ?d)" by linarith
    then show ?thesis using S(3) ov by (simp add: vec_put_def nat_index)
  qed
  have "vec_insert sz ?a x v0 w = Inr (0, v\<lparr>vec_data := Some ?d', vec_length := ?a + ?b + 1\<rparr>, w')"
    using run J(4) c c1 c2 mv put by (simp add: vec_insert_def vec_insert_fn_def)
  moreover have "vec_rep sz (v\<lparr>vec_data := Some ?d', vec_length := ?a + ?b + 1\<rparr>) (A @ x # B)"
    by (rule vec_rep_SomeI [where J = ?J]) (use J S x JJ in auto)
  ultimately show ?thesis by blast
qed

lemma vec_insert_ok:
  assumes R: "vec_rep sz v (A @ B)" and g: "growable sz v" and x: "length x = nat sz"
  shows "\<exists>v' w'. vec_insert sz (int (length A)) x v w = Inr (0, v', w') \<and>
    (vec_rep sz v' (A @ x # B) \<or> w_mallocs w \<noteq> [] \<and> vec_length v = vec_capacity v \<and> v' = v\<lparr>vec_length := vec_length v + 1\<rparr>)"
proof -
  obtain rv v1 w1 where e: "vec_expand_fn sz v w = Inr (rv, v1, w1)"
    "rv = 0 \<and> vec_rep sz v1 (A @ B) \<and> int (length (A @ B)) < vec_capacity v1 \<or> rv = - 1 \<and> v1 = v \<and> w_mallocs w \<noteq> []"
    using vec_expand_ok [OF R g, of w] by blast
  show ?thesis
  proof (cases "rv = 0")
    case True
    then show ?thesis using vec_insert_room [of sz v1 A B x v w w1] e x by auto
  next
    case False
    then have f: "rv = - 1" "v1 = v" "w_mallocs w \<noteq> []" using e(2) by auto
    have small: "vec_capacity v < 2 ^ 31" using small_count [of sz "vec_capacity v"] R by (simp add: vec_rep_def)
    note len = vec_rep_len [OF R]
    have full: "vec_length v = vec_capacity v"
    proof (rule ccontr)
      assume "vec_length v \<noteq> vec_capacity v"
      then have "vec_expand_fn sz v w = Inr (0, v, w)" using len small by (simp add: vec_expand_fn_def)
      then show False using e(1) f(1) by simp
    qed
    have "vec_length v + 1 < 2 ^ 31"
    proof (rule ccontr)
      assume "\<not> vec_length v + 1 < 2 ^ 31"
      then have "vec_expand_fn sz v w = Inl UB" using len by (simp add: vec_expand_fn_def c_int_def)
      then show False using e(1) by simp
    qed
    then have "vec_insert sz (int (length A)) x v w = Inr (0, v\<lparr>vec_length := vec_length v + 1\<rparr>, w1)"
      using e(1) f len by (simp add: vec_insert_def vec_insert_fn_def)
    then show ?thesis using f(3) full by auto
  qed
qed

section \<open>Exchanging elements\<close>

lemma vec_swap_parts:
  assumes R: "vec_rep sz v (A @ x # B @ y # C)" and i: "i = length A" and j: "j = length A + 1 + length B"
  shows "\<exists>v'. vec_swap sz (int i) (int j) v = Inr v' \<and> vec_swap sz (int j) (int i) v = Inr v' \<and>
    vec_rep sz v' (A @ y # B @ x # C)"
proof -
  obtain J where J: "vec_data v = Some (concat (A @ x # B @ y # C) @ J)"
    "int (length (concat (A @ x # B @ y # C) @ J)) = vec_capacity v * sz"
    "\<forall>e\<in>set (A @ x # B @ y # C). length e = nat sz" "vec_length v = int (length (A @ x # B @ y # C))"
    "vec_capacity v * sz < 2 ^ 31" "0 \<le> vec_capacity v" "0 < sz"
    using R by (auto simp: vec_rep_def split: option.splits)
  have S: "length (concat A) = length A * nat sz" "length (concat B) = length B * nat sz" "length x = nat sz" "length y = nat sz"
    using J(3) by (auto intro!: length_concat_elems)
  note C = vec_bytes [OF R]
  have c: "c_int (int i * sz) = Inr (int i * sz)" "c_int (int j * sz) = Inr (int j * sz)"
    by (rule C; simp add: i j)+
  let ?d = "concat A @ x @ concat B @ y @ concat C @ J" and ?d' = "concat A @ y @ concat B @ x @ concat C @ J"
  have off: "nat (int i * sz) = length (concat A)" "nat (int j * sz) = length (concat A @ x @ concat B)"
    using S J(7) by (simp_all only: nat_index less_imp_le i j) (simp add: algebra_simps)
  have sw: "swap_loop (nat sz) (length (concat A)) (length (concat A @ x @ concat B)) ?d = ?d'"
    using swap_loop_parts [of x y "concat A" "concat B" "concat C @ J"] S by simp
  have ne: "length (concat A) \<noteq> length (concat A @ x @ concat B)" using S J(7) by simp
  have sw': "swap_loop (nat sz) (length (concat A @ x @ concat B)) (length (concat A)) ?d = ?d'"
    using sw swap_loop_commute [OF ne] by simp
  have fits: "int i * sz + sz \<le> int (length ?d)" "int j * sz + sz \<le> int (length ?d)" "i \<noteq> j"
    using S J(7) by (simp_all add: algebra_simps i j)
  have d: "vec_data v = Some ?d" using J(1) by simp
  have run: "vec_swap sz (int i) (int j) v = Inr (v\<lparr>vec_data := Some ?d'\<rparr>)"
    "vec_swap sz (int j) (int i) v = Inr (v\<lparr>vec_data := Some ?d'\<rparr>)"
    using fits J(7) unfolding vec_swap_def vec_swap_fn_def c bindr_simps d c_deref_simps off sw sw' by simp_all
  have "vec_rep sz (v\<lparr>vec_data := Some ?d'\<rparr>) (A @ y # B @ x # C)"
    by (rule vec_rep_SomeI [where J = J]) (use J S in auto)
  then show ?thesis using run by blast
qed

lemma vec_swap_ok:
  assumes R: "vec_rep sz v es" and ij: "i < length es" "j < length es"
  shows "\<exists>v'. vec_swap sz (int i) (int j) v = Inr v' \<and> vec_rep sz v' (es[i := es ! j, j := es ! i])"
proof -
  have lt: "\<exists>v'. vec_swap sz (int i) (int j) v = Inr v' \<and> vec_swap sz (int j) (int i) v = Inr v' \<and>
      vec_rep sz v' (es[i := es ! j, j := es ! i])" if ij: "i < j" "j < length es" for i j
  proof -
    define A B C where "A = take i es" and "B = drop (Suc i) (take j es)" and "C = drop (Suc j) es"
    have "es = take j es @ es ! j # C" unfolding C_def by (rule id_take_nth_drop [OF ij(2)])
    moreover have "take j es = A @ es ! i # B"
      using id_take_nth_drop [of i "take j es"] ij by (simp add: A_def B_def min_absorb1)
    ultimately have es: "es = A @ es ! i # B @ es ! j # C" by (metis append.assoc append_Cons)
    have len: "length A = i" "length A + 1 + length B = j" using ij by (simp_all add: A_def B_def)
    have upd: "es[i := es ! j, j := es ! i] = A @ es ! j # B @ es ! i # C"
      by (subst (1) es) (simp add: list_update_append len(1) [symmetric] flip: len(2))
    show ?thesis unfolding upd using R len by (intro vec_swap_parts) (simp_all add: es [symmetric])
  qed
  consider "i < j" | "j < i" | "i = j" by linarith
  then show ?thesis
  proof cases
    case 1
    then show ?thesis using lt ij by blast
  next
    case 2
    then show ?thesis using lt [of j i] ij by (metis list_update_swap nat_neq_iff)
  next
    case 3
    then show ?thesis using R by (simp add: vec_swap_def vec_swap_fn_def)
  qed
qed

section \<open>Capacity\<close>

lemma po2_loop_ok:
  "n \<le> 2 ^ 30 \<Longrightarrow> k \<le> 30 \<Longrightarrow> \<exists>m. po2_loop n k = Inr (2 ^ m) \<and> n \<le> 2 ^ m \<and> (m = k \<or> 2 ^ m < 2 * n)"
proof (induction n k rule: po2_loop.induct)
  case (1 n k)
  show ?case
  proof (cases "(2 :: int) ^ k < n")
    case True
    then have "(2 :: int) ^ k < 2 ^ 30" using 1(2) by linarith
    then have k: "Suc k < 31" using power_less_imp_less_exp [of "2 :: int" k 30] by simp
    then obtain m where m: "po2_loop n (Suc k) = Inr (2 ^ m)" "n \<le> 2 ^ m" "m = Suc k \<or> 2 ^ m < 2 * n"
      using 1(1) [OF True k 1(2)] by auto
    have "po2_loop n k = Inr (2 ^ m)" using m(1) True k by (subst po2_loop.simps) simp
    moreover have "(2 :: int) ^ m < 2 * n" using m(3) True by auto
    ultimately show ?thesis using m(2) by blast
  next
    case False
    then show ?thesis by (subst po2_loop.simps) (auto intro: exI [of _ k])
  qed
qed

lemma vec_reserve_ok:
  assumes R: "vec_rep sz v es" and n: "n * sz < 2 ^ 31"
  shows "\<exists>rv v' w'. vec_reserve_fn sz n v w = Inr (rv, v', w') \<and>
    (rv = 0 \<and> vec_rep sz v' es \<and> n \<le> vec_capacity v' \<or> rv = - 1 \<and> v' = v \<and> w_mallocs w \<noteq> [])"
proof (cases "n > vec_capacity v")
  case True
  obtain p where p: "sys_realloc (vec_data v) (n * sz) w = Inr (p, snd (malloc_ok w))" "p = None \<longleftrightarrow> \<not> fst (malloc_ok w)"
    "\<And>d. p = Some d \<Longrightarrow> vec_rep sz (v\<lparr>vec_data := Some d, vec_capacity := n\<rparr>) es"
    using realloc_rep [OF R True n] by blast
  have "0 < sz" "0 \<le> vec_capacity v" using R by (simp_all add: vec_rep_def)
  then have "c_int (n * sz) = Inr (n * sz)" using index_range [OF _ _ order_refl n] True by simp
  then have "vec_reserve_fn sz n v w = (case p of None \<Rightarrow> Inr (- 1, v, snd (malloc_ok w))
      | Some d \<Rightarrow> Inr (0, v\<lparr>vec_data := Some d, vec_capacity := n\<rparr>, snd (malloc_ok w)))"
    using True p(1) by (simp add: vec_reserve_fn_def split: option.split)
  moreover have "w_mallocs w \<noteq> []" if "p = None" using that p(2) by auto
  ultimately show ?thesis using p(3) by (cases p) auto
next
  case False
  then show ?thesis using R by (simp add: vec_reserve_fn_def)
qed

section \<open>Loops\<close>

lemma foreach_loop_ok:
  "vec_rep sz v es \<Longrightarrow> i + n \<le> length es \<Longrightarrow> foreach_loop sz v (int i) n = Inr (take n (drop i es))"
proof (induction n arbitrary: i)
  case (Suc n)
  have "vec_at sz v (int i) = Inr (es ! i)" using Suc.prems by (intro vec_at_ok) simp_all
  moreover have "foreach_loop sz v (int i + 1) n = Inr (take n (drop (Suc i) es))"
    using Suc.IH [of "Suc i"] Suc.prems by (simp add: add.commute)
  moreover have "drop i es = es ! i # drop (Suc i) es" using Suc.prems(2) by (simp add: Cons_nth_drop_Suc)
  ultimately show ?case by simp
qed simp

lemma vec_foreach_ok: "vec_rep sz v es \<Longrightarrow> vec_foreach sz v = Inr es"
  using foreach_loop_ok [of sz v es 0 "length es"] vec_rep_len [of sz v es] by (auto simp: vec_foreach_def)

lemma foreach_rev_loop_ok:
  "vec_rep sz v es \<Longrightarrow> n \<le> length es \<Longrightarrow> foreach_rev_loop sz v n = Inr (rev (take n es))"
proof (induction n)
  case (Suc n)
  then show ?case using vec_at_ok [of sz v es n] by (simp add: take_Suc_conv_app_nth)
qed simp

lemma vec_foreach_rev_ok: "vec_rep sz v es \<Longrightarrow> vec_foreach_rev sz v = Inr (rev es)"
  using foreach_rev_loop_ok [of sz v es "length es"] vec_rep_len [of sz v es] by (auto simp: vec_foreach_rev_def)

lemma find_idx_ok:
  "vec_rep sz v es \<Longrightarrow> i + n = length es \<Longrightarrow> find_idx sz p v (int i) n =
     Inr (if \<exists>x\<in>set (drop i es). p x then int (i + length (takeWhile (\<lambda>x. \<not> p x) (drop i es))) else - 1)"
proof (induction n arbitrary: i)
  case (Suc n)
  have a: "vec_at sz v (int i) = Inr (es ! i)" using Suc.prems by (intro vec_at_ok) simp_all
  have d: "drop i es = es ! i # drop (Suc i) es" using Suc.prems(2) by (simp add: Cons_nth_drop_Suc)
  show ?case
  proof (cases "p (es ! i)")
    case True
    then show ?thesis using a d by simp
  next
    case False
    have "find_idx sz p v (int i) (Suc n) = find_idx sz p v (int (Suc i)) n" using a False by (simp add: add.commute)
    also have "\<dots> = Inr (if \<exists>x\<in>set (drop (Suc i) es). p x then int (Suc i + length (takeWhile (\<lambda>x. \<not> p x) (drop (Suc i) es))) else - 1)"
      using Suc.prems by (intro Suc.IH) simp_all
    finally show ?thesis using False d by simp
  qed
qed simp

lemma vec_find_ok:
  assumes "vec_rep sz v es"
  shows "vec_find_by_cmp sz p v = Inr (if \<exists>x\<in>set es. p x then int (length (takeWhile (\<lambda>x. \<not> p x) es)) else - 1)"
  using find_idx_ok [OF assms, of 0 "length es" p] vec_rep_len [OF assms] by (simp add: vec_find_by_cmp_def)

lemma takeWhile_first: "x \<in> set es \<Longrightarrow> \<exists>B. es = takeWhile (\<lambda>y. y \<noteq> x) es @ x # B"
  by (induction es) auto

lemma vec_remove_ok:
  assumes R: "vec_rep sz v es"
  shows "\<exists>v'. vec_remove sz x v = Inr v' \<and> vec_rep sz v' (remove1 x es)"
proof (cases "x \<in> set es")
  case True
  let ?A = "takeWhile (\<lambda>y. y \<noteq> x) es"
  obtain B where es: "es = ?A @ [x] @ B" using takeWhile_first [OF True] by auto
  have "vec_find sz x v = Inr (int (length ?A))" using vec_find_ok [OF R, of "\<lambda>y. y = x"] True by (simp add: vec_find_def)
  moreover have "vec_data v \<noteq> None" using R True by (auto simp: vec_rep_def split: option.splits)
  then obtain v' where "vec_splice sz (int (length ?A)) (int (length [x])) v = Inr v'" "vec_rep sz v' (?A @ B)"
    using vec_splice_ok [of sz v ?A "[x]" B] R es by metis
  moreover have "x \<notin> set ?A" by (auto dest: set_takeWhileD)
  then have "remove1 x es = ?A @ B" by (subst es) (simp add: remove1_append)
  ultimately show ?thesis by (simp add: vec_remove_def)
next
  case False
  then show ?thesis using R vec_find_ok [OF R, of "\<lambda>y. y = x"] by (auto simp: vec_remove_def vec_find_def remove1_idem)
qed

lemma reverse_loop_ok:
  "vec_rep sz v (A @ M @ B) \<Longrightarrow> length A = k \<Longrightarrow> length B = k \<Longrightarrow>
   \<exists>v'. reverse_loop sz k v = Inr v' \<and> vec_rep sz v' (rev B @ M @ rev A)"
proof (induction k arbitrary: v A M B)
  case (Suc k)
  then obtain A' x y B' where AB: "A = A' @ [x]" "B = y # B'" "length A' = k" "length B' = k"
    by (cases A rule: rev_cases; cases B) auto
  have len: "vec_length v - (int k + 1) = int (length A' + 1 + length M)" using vec_rep_len [OF Suc.prems(1)] AB by simp
  have "vec_rep sz v (A' @ x # M @ y # B')" using Suc.prems(1) AB by simp
  from vec_swap_parts [OF this refl refl] obtain v1 where
    v1: "vec_swap sz (int k) (vec_length v - (int k + 1)) v = Inr v1" "vec_rep sz v1 (A' @ y # M @ x # B')"
    using AB(3) len by auto
  then have "vec_rep sz v1 (A' @ (y # M @ [x]) @ B')" by simp
  from Suc.IH [OF this AB(3,4)] obtain v2 where "reverse_loop sz k v1 = Inr v2" "vec_rep sz v2 (rev B' @ (y # M @ [x]) @ rev A')"
    by blast
  then show ?case using v1(1) AB by simp
qed simp

lemma vec_reverse_ok:
  assumes R: "vec_rep sz v es"
  shows "\<exists>v'. vec_reverse sz v = Inr v' \<and> vec_rep sz v' (rev es)"
proof -
  let ?k = "length es div 2"
  define A M B where "A = take ?k es" and "M = drop ?k (take (length es - ?k) es)" and "B = drop (length es - ?k) es"
  have "es = take (length es - ?k) es @ B" by (simp add: B_def)
  also have "take (length es - ?k) es = A @ M"
  proof -
    have "min ?k (length es - ?k) = ?k" by linarith
    then have "take ?k (take (length es - ?k) es) = A" by (simp add: A_def)
    then show ?thesis unfolding M_def by (metis append_take_drop_id)
  qed
  finally have es: "es = A @ M @ B" by simp
  have len: "length A = ?k" "length B = ?k" "length M \<le> 1" by (auto simp: A_def B_def M_def)
  then have "rev M = M" by (cases M) auto
  then have "rev es = rev B @ M @ rev A" using arg_cong [OF es, of rev] by simp
  moreover have "nat (vec_length v div 2) = ?k" "vec_length v > - 2" using vec_rep_len [OF R] by (simp_all add: nat_div_distrib)
  moreover have "vec_rep sz v (A @ M @ B)" using R es by metis
  ultimately show ?thesis using reverse_loop_ok [of sz v A M B ?k] len(1,2) unfolding vec_reverse_def by auto
qed

lemma pusharr_loop_ok:
  "vec_rep sz v es \<Longrightarrow> int (length es + length arr) \<le> vec_capacity v \<Longrightarrow> \<forall>x\<in>set arr. length x = nat sz \<Longrightarrow>
   \<exists>v'. pusharr_loop sz arr v = Inr v' \<and> vec_rep sz v' (es @ arr)"
proof (induction arr arbitrary: v es)
  case (Cons x arr)
  obtain v1 where v1: "vec_put sz v (vec_length v) x = Inr v1" "vec_rep sz (v1\<lparr>vec_length := vec_length v1 + 1\<rparr>) (es @ [x])"
    "vec_capacity v1 = vec_capacity v" using vec_put_end [OF Cons.prems(1), of x] Cons.prems(2,3) by auto
  have "\<exists>v'. pusharr_loop sz arr (v1\<lparr>vec_length := vec_length v1 + 1\<rparr>) = Inr v' \<and> vec_rep sz v' ((es @ [x]) @ arr)"
    using Cons.prems(2,3) v1(3) by (intro Cons.IH [OF v1(2)]) simp_all
  then show ?case using v1(1) by simp
qed simp

lemma vec_pusharr_ok:
  assumes R: "vec_rep sz v es" and fit: "2 * int (length es + length arr) * sz < 2 ^ 31"
    and arr: "\<forall>x\<in>set arr. length x = nat sz"
  shows "\<exists>rv v' w'. vec_pusharr sz arr ret v w = Inr (rv, v', w') \<and>
    (rv = ret \<and> vec_rep sz v' (es @ arr) \<or> rv = - 1 \<and> v' = v \<and> w_mallocs w \<noteq> [])"
proof -
  let ?n = "int (length es + length arr)"
  have sz: "0 < sz" using R by (simp add: vec_rep_def)
  have n: "2 * ?n < 2 ^ 31" using small_count [OF sz _ fit] by simp
  have c: "c_int (vec_length v + int (length arr)) = Inr ?n" using vec_rep_len [OF R] n by simp
  show ?thesis
  proof (cases "?n = 0")
    case True
    then have "length arr = 0" by linarith
    then have "arr = []" by simp
    then have "vec_pusharr sz arr ret v w = Inr (ret, v, w)" using c True by (simp add: vec_pusharr_def vec_reserve_po2_fn_def)
    then show ?thesis using R \<open>arr = []\<close> by simp
  next
    case False
    obtain m where m: "po2_loop ?n 0 = Inr (2 ^ m)" "?n \<le> 2 ^ m" "m = 0 \<or> 2 ^ m < 2 * ?n"
      using po2_loop_ok [of ?n 0] n by auto
    have "(2 :: int) ^ m \<le> 2 * ?n" using m(3) False by auto
    then have "2 ^ m * sz \<le> 2 * ?n * sz" using sz by (intro mult_right_mono) simp_all
    then have "2 ^ m * sz < 2 ^ 31" using fit by linarith
    from vec_reserve_ok [OF R this, of w] obtain rv v1 w1 where r: "vec_reserve_fn sz (2 ^ m) v w = Inr (rv, v1, w1)"
      "rv = 0 \<and> vec_rep sz v1 es \<and> 2 ^ m \<le> vec_capacity v1 \<or> rv = - 1 \<and> v1 = v \<and> w_mallocs w \<noteq> []" by blast
    have run: "vec_pusharr sz arr ret v w =
        (if rv \<noteq> 0 then Inr (- 1, v1, w1) else bindr (pusharr_loop sz arr v1) (\<lambda>v. Inr (ret, v, w1)))"
      using c m(1) r(1) False by (simp add: vec_pusharr_def vec_reserve_po2_fn_def)
    show ?thesis
    proof (cases "rv = 0")
      case True
      then have "vec_rep sz v1 es" "?n \<le> vec_capacity v1" using r(2) m(2) by auto
      then show ?thesis using pusharr_loop_ok [of sz v1 es arr] arr run True by auto
    next
      case False
      then show ?thesis using r(2) run by auto
    qed
  qed
qed

section \<open>Swap and splice\<close>

lemma vec_swapsplice_ok:
  assumes R: "vec_rep sz v (A @ M @ B)" and ne: "vec_data v \<noteq> None"
  shows "\<exists>v'. vec_swapsplice sz (int (length A)) (int (length M)) v = Inr v' \<and>
    vec_rep sz v' (A @ take (length B) (drop (length B) (M @ B) @ B))"
proof -
  define P Q where "P = take (length B) (M @ B)" and "Q = drop (length B) (M @ B)"
  have PQ: "M @ B = P @ Q" and lPQ: "length P = length B" "length Q = length M"
    by (simp only: P_def Q_def append_take_drop_id) (simp_all add: P_def Q_def)
  have R': "vec_rep sz v (A @ P @ Q)" using R PQ by simp
  obtain J where J: "vec_data v = Some (concat (A @ P @ Q) @ J)" "int (length (concat (A @ P @ Q) @ J)) = vec_capacity v * sz"
    "\<forall>e\<in>set (A @ P @ Q). length e = nat sz" "vec_length v = int (length (A @ P @ Q))" "vec_capacity v * sz < 2 ^ 31" "0 \<le> vec_capacity v"
    using R' ne by (auto simp: vec_rep_def)
  note S = vec_split3 [OF R' J(1)] and C = vec_bytes [OF R']
  have SB: "length (concat M) = length M * nat sz" "\<forall>e\<in>set B. length e = nat sz"
    using R by (auto simp: vec_rep_def intro!: length_concat_elems)
  let ?a = "int (length A)" and ?m = "int (length M)" and ?b = "int (length B)"
  have c: "c_int (?a * sz) = Inr (?a * sz)" "c_int ((?a + ?b) * sz) = Inr ((?a + ?b) * sz)" "c_int (?m * sz) = Inr (?m * sz)"
    "c_int (?a + ?b) = Inr (?a + ?b)" by (rule C; simp add: lPQ)+
  have mv: "c_memmove (vec_data v) (?a * sz) ((?a + ?b) * sz) (?m * sz) = Inr (concat A @ concat Q @ concat B @ J)"
  proof -
    have pq: "concat M @ concat B = concat P @ concat Q" using arg_cong [OF PQ, of concat] by simp
    have dst: "nat (?a * sz) = length (concat A)" using S by (simp add: nat_index)
    have m: "length (concat Q) = length (concat M)" using S(3) SB(1) lPQ by simp
    have "drop (length (concat A) + length (concat M)) (concat A @ concat M @ concat B @ J) = concat B @ J" by simp
    then have "drop (nat (?a * sz) + length (concat Q)) ((concat A @ concat P) @ concat Q @ J) = concat B @ J"
      using pq dst m by (metis append_assoc)
    moreover have "take (nat (?a * sz)) ((concat A @ concat P) @ concat Q @ J) = concat A" using dst by simp
    moreover have "c_memmove (Some ((concat A @ concat P) @ concat Q @ J)) (?a * sz) ((?a + ?b) * sz) (?m * sz) =
        Inr (take (nat (?a * sz)) ((concat A @ concat P) @ concat Q @ J) @ concat Q @
          drop (nat (?a * sz) + length (concat Q)) ((concat A @ concat P) @ concat Q @ J))"
      by (rule c_memmove_parts) (use S lPQ in \<open>simp_all add: distrib_right\<close>)
    ultimately show ?thesis using J(1) by simp
  qed
  let ?d = "concat A @ concat Q @ concat B @ J" and ?E = "A @ take (length B) (Q @ B)"
  have run: "vec_swapsplice sz ?a ?m v = Inr (v\<lparr>vec_data := Some ?d, vec_length := ?a + ?b\<rparr>)"
    using J(4) lPQ c mv by (simp add: vec_swapsplice_def vec_swapsplice_fn_def)
  have "concat Q @ concat B = concat (take (length B) (Q @ B)) @ concat (drop (length B) (Q @ B))"
    by (metis append_take_drop_id concat_append)
  then have d: "?d = concat ?E @ concat (drop (length B) (Q @ B)) @ J" by (metis append_assoc concat_append)
  have len: "int (length ?d) = vec_capacity v * sz" using J(2) S SB lPQ length_concat_elems [OF SB(2)] by simp
  have "vec_rep sz (v\<lparr>vec_data := Some ?d, vec_length := ?a + ?b\<rparr>) ?E"
  proof (rule vec_rep_SomeI [where J = "concat (drop (length B) (Q @ B)) @ J"])
    show "vec_data (v\<lparr>vec_data := Some ?d, vec_length := ?a + ?b\<rparr>) = Some (concat ?E @ concat (drop (length B) (Q @ B)) @ J)"
      using d by simp
    show "int (length (concat ?E @ concat (drop (length B) (Q @ B)) @ J)) =
        vec_capacity (v\<lparr>vec_data := Some ?d, vec_length := ?a + ?b\<rparr>) * sz" using len unfolding d by simp
    show "\<forall>e\<in>set ?E. length e = nat sz" using J(3) SB(2) by (auto dest!: in_set_takeD)
  qed (use J(5,6) S(4) in simp_all)
  then show ?thesis using run by (auto simp: Q_def)
qed

end
