(* ===== verification/Vec_Resize.thy ===== *)
theory Vec_Resize
  imports Vec_Spec "HOL-Library.Sublist"
begin

text \<open>
  The operations of \<open>src/include/sys/vec.h\<close> that change the length without writing the elements,
  write the elements without changing the length, or lose what they could not store:
  \<open>vec_resize\<close>, \<open>vec_resize_zero\<close>, \<open>vec_map\<close>, and the assignment to \<open>vec_at\<close>.
\<close>

section \<open>Resizing\<close>

text \<open>A block that is long enough is a list of elements and a rest.\<close>

lemma bytes_as_elems:
  "n * k \<le> length bs \<Longrightarrow> \<exists>es J. bs = concat es @ J \<and> length es = n \<and> (\<forall>e\<in>set es. length e = k)"
proof (induction n arbitrary: bs)
  case (Suc n)
  then have "n * k \<le> length (drop k bs)" by simp
  then obtain es J where e: "drop k bs = concat es @ J" "length es = n" "\<forall>e\<in>set es. length e = k"
    using Suc.IH by blast
  have "bs = concat (take k bs # es) @ J" using e(1) by (metis append_assoc append_take_drop_id concat.simps(2))
  moreover have "\<forall>e\<in>set (take k bs # es). length e = k" using e(3) Suc.prems by simp
  ultimately show ?case using e(2) by (metis length_Cons)
qed simp

text \<open>With room for them a vector has as many elements as its length says, the first ones unchanged.\<close>

lemma vec_rep_lengthen:
  assumes R: "vec_rep sz v es" and room: "int n \<le> vec_capacity v"
  shows "\<exists>es'. length es' = n \<and> take (length es) es' = take n es \<and> vec_rep sz (v\<lparr>vec_length := int n\<rparr>) es'"
proof (cases "vec_data v")
  case None
  then show ?thesis using R room by (simp add: vec_rep_def)
next
  case (Some d)
  then obtain J where J: "vec_data v = Some (concat es @ J)" "length (concat es) = length es * nat sz"
    "int (length (concat es @ J)) = vec_capacity v * sz" "0 < sz" "\<forall>e\<in>set es. length e = nat sz"
    "vec_length v = int (length es)" "int (length es) \<le> vec_capacity v" "vec_capacity v * sz < 2 ^ 31"
    using vec_repE [OF R] by blast
  have "int n * sz \<le> vec_capacity v * sz" using room J(4) by (intro mult_right_mono) simp_all
  then have "int (n * nat sz) \<le> int (length es * nat sz) + int (length J)" using J(2-4) by simp
  then have len: "n * nat sz \<le> length es * nat sz + length J" by linarith
  show ?thesis
  proof (cases "n \<le> length es")
    case True
    then show ?thesis using vec_rep_shrink [OF R, of n] by (intro exI [of _ "take n es"]) (simp add: min_def)
  next
    case False
    then have "(n - length es) * nat sz \<le> length J" using len by (simp add: diff_mult_distrib)
    then obtain ys J' where y: "J = concat ys @ J'" "length ys = n - length es" "\<forall>e\<in>set ys. length e = nat sz"
      using bytes_as_elems by blast
    have "vec_rep sz (v\<lparr>vec_length := int n\<rparr>) (es @ ys)"
      by (rule vec_rep_SomeI [where J = J']) (use J y False in auto)
    then show ?thesis using y(2) False by (intro exI [of _ "es @ ys"]) simp
  qed
qed

lemma vec_reserve_length:
  "vec_reserve_fn sz m (v\<lparr>vec_length := l\<rparr>) w =
     bindr (vec_reserve_fn sz m v w) (\<lambda>(e, v, w). Inr (e, v\<lparr>vec_length := l\<rparr>, w))"
  by (auto simp: vec_reserve_fn_def bindr_assoc intro!: bindr_cong split: option.splits)

lemma vec_resize_ok:
  assumes R: "vec_rep sz v es" and n: "(int n + 1) * sz < 2 ^ 31"
  shows "\<exists>rv v' w'. vec_resize sz (int n) v w = Inr (rv, v', w') \<and>
    (rv = 0 \<and> (\<exists>es'. length es' = n \<and> take (length es) es' = take n es \<and> vec_rep sz v' es') \<or>
     rv = - 1 \<and> v' = v\<lparr>vec_length := int n\<rparr> \<and> w_mallocs w \<noteq> [])"
proof -
  have sz: "0 < sz" using R by (simp add: vec_rep_def)
  have c: "c_int (int n + 1) = Inr (int n + 1)" using small_count [OF sz _ n] by simp
  obtain rv v1 w1 where r: "vec_reserve_fn sz (int n + 1) v w = Inr (rv, v1, w1)"
    "rv = 0 \<and> vec_rep sz v1 es \<and> int n + 1 \<le> vec_capacity v1 \<or> rv = - 1 \<and> v1 = v \<and> w_mallocs w \<noteq> []"
    using vec_reserve_ok [OF R n, of w] by blast
  have "vec_resize sz (int n) v w = Inr (rv, v1\<lparr>vec_length := int n\<rparr>, w1)"
    using c r(1) by (simp add: vec_resize_def vec_reserve_def vec_reserve_length)
  moreover have "\<exists>es'. length es' = n \<and> take (length es) es' = take n es \<and> vec_rep sz (v1\<lparr>vec_length := int n\<rparr>) es'" if "rv = 0"
    by (rule vec_rep_lengthen) (use r(2) that in auto)
  ultimately show ?thesis using r(2) by auto
qed

section \<open>Zero filling\<close>

lemma replicate_elems: "replicate (n * k) x = concat (replicate n (replicate k x))"
  by (induction n) (simp_all add: replicate_add)

lemma vec_rep_zeroed:
  assumes R: "vec_rep sz v es" and d: "vec_data v = Some d" and n: "int n \<le> vec_capacity v"
  shows "vec_rep sz (v\<lparr>vec_data := Some (overlay 0 (replicate (n * nat sz) 0) d)\<rparr>)
    (replicate (min n (length es)) (replicate (nat sz) 0) @ drop n es)"
proof -
  obtain J where J: "d = concat es @ J" "length (concat es) = length es * nat sz"
    "int (length (concat es @ J)) = vec_capacity v * sz" "0 < sz" "\<forall>e\<in>set es. length e = nat sz"
    "vec_length v = int (length es)" "vec_capacity v * sz < 2 ^ 31" "0 \<le> vec_capacity v"
    using vec_repE [OF R] d R by (auto simp: vec_rep_def)
  let ?k = "nat sz" and ?m = "min n (length es)"
  let ?J = "if n \<le> length es then J else replicate ((n - length es) * ?k) 0 @ drop ((n - length es) * ?k) J"
  have "int n * sz \<le> vec_capacity v * sz" using n J(4) by (intro mult_right_mono) simp_all
  then have "int (n * ?k) \<le> int (length es * ?k) + int (length J)" using J(2-4) by simp
  then have len: "n * ?k \<le> length es * ?k + length J" by linarith
  have split: "concat es = concat (take n es) @ concat (drop n es)" by (metis append_take_drop_id concat_append)
  have ov: "overlay 0 (replicate (n * ?k) 0) d = concat (replicate ?m (replicate ?k 0) @ drop n es) @ ?J"
  proof (cases "n \<le> length es")
    case True
    have "length (concat (take n es)) = n * ?k" using True J(5) by (subst length_concat_elems [of _ ?k]) (auto dest: in_set_takeD)
    then have "overlay 0 (replicate (n * ?k) 0) ([] @ concat (take n es) @ (concat (drop n es) @ J)) =
        [] @ replicate (n * ?k) 0 @ (concat (drop n es) @ J)" by (intro overlay_parts) simp_all
    then show ?thesis using True split J(1) by (simp add: min_def replicate_elems)
  next
    case False
    define q where "q = n - length es"
    then have q: "n = length es + q" using False by simp
    have "replicate (n * ?k) (0::u8) = replicate (length es * ?k) 0 @ replicate (q * ?k) 0"
      by (simp add: q distrib_right replicate_add)
    moreover have "overlay 0 (replicate (n * ?k) 0) d = replicate (n * ?k) 0 @ drop (n * ?k) d"
      using len J(1,2) by (simp add: overlay_inside)
    moreover have "drop (n * ?k) d = drop (q * ?k) J" using J(1,2) by (simp add: q distrib_right)
    ultimately show ?thesis using False q by (simp add: min_def replicate_elems)
  qed
  have "n * ?k \<le> length d" using len J(1,2) by simp
  then have total: "length (overlay 0 (replicate (n * ?k) 0) d) = length d" by (simp add: overlay_inside del: length_concat)
  let ?v = "v\<lparr>vec_data := Some (overlay 0 (replicate (n * ?k) 0) d)\<rparr>" and ?E = "replicate ?m (replicate ?k (0 :: u8)) @ drop n es"
  show ?thesis
  proof (rule vec_rep_SomeI [where J = ?J])
    show "vec_data ?v = Some (concat ?E @ ?J)" using ov by simp
    show "int (length (concat ?E @ ?J)) = vec_capacity ?v * sz" unfolding ov [symmetric] total using J(1,3) by simp
    show "\<forall>e\<in>set ?E. length e = ?k" using J(5) by (auto dest: in_set_dropD)
    have "length ?E = length es" by (cases "n \<le> length es") simp_all
    then show "vec_length ?v = int (length ?E)" using J(6) by (simp only:) simp
  qed (use J in simp_all)
qed

lemma vec_resize_zero_ok:
  assumes R: "vec_rep sz v es" and n: "0 < n" "int n * sz < 2 ^ 31"
  shows "\<exists>rv v' w'. vec_resize_zero sz (int n) v w = Inr (rv, v', w') \<and>
    (rv = 0 \<and> vec_rep sz v' (replicate (min n (length es)) (replicate (nat sz) 0) @ drop n es) \<or>
     rv = - 1 \<and> v' = v \<and> w_mallocs w \<noteq> [])"
proof -
  have sz: "0 < sz" using R by (simp add: vec_rep_def)
  obtain rv v1 w1 where r: "vec_reserve_fn sz (int n) v w = Inr (rv, v1, w1)"
    "rv = 0 \<and> vec_rep sz v1 es \<and> int n \<le> vec_capacity v1 \<or> rv = - 1 \<and> v1 = v \<and> w_mallocs w \<noteq> []"
    using vec_reserve_ok [OF R n(2), of w] by blast
  show ?thesis
  proof (cases "rv = 0")
    case True
    then have R1: "vec_rep sz v1 es" "int n \<le> vec_capacity v1" using r(2) by auto
    then obtain d where d: "vec_data v1 = Some d" "int (length d) = vec_capacity v1 * sz"
      using n(1) by (auto simp: vec_rep_def split: option.splits)
    have "int n * sz \<le> int (length d)" using d(2) R1(2) sz by (simp add: mult_right_mono)
    then have "vec_resize_zero sz (int n) v w = Inr (0, v1\<lparr>vec_data := Some (overlay 0 (replicate (n * nat sz) 0) d)\<rparr>, w1)"
      using r(1) True d(1) sz by (simp add: vec_resize_zero_def vec_reserve_def nat_index)
    then show ?thesis using vec_rep_zeroed [OF R1(1) d(1) R1(2)] by simp
  next
    case False
    then show ?thesis using r by (auto simp: vec_resize_zero_def vec_reserve_def)
  qed
qed

section \<open>Writing an element\<close>

lemma vec_put_ok:
  assumes R: "vec_rep sz v es" and i: "i < length es" and x: "length x = nat sz"
  shows "\<exists>v'. vec_put sz v (int i) x = Inr v' \<and> vec_rep sz v' (es[i := x])"
proof -
  obtain J where J: "vec_data v = Some (concat es @ J)" "length (concat es) = length es * nat sz"
    "int (length (concat es @ J)) = vec_capacity v * sz" "0 < sz" "\<forall>e\<in>set es. length e = nat sz"
    "vec_length v = int (length es)" "int (length es) \<le> vec_capacity v" "vec_capacity v * sz < 2 ^ 31"
    using vec_repE [OF R] i by (metis length_0_conv not_less_zero)
  note E = elem_split [OF J(5) i]
  let ?d = "concat (es[i := x]) @ J"
  have "overlay (i * nat sz) x (concat es @ J) = ?d"
    using overlay_parts [of "i * nat sz" "concat (take i es)" x "es ! i" "concat (drop (Suc i) es) @ J"] E x
    by (simp add: upd_conv_take_nth_drop [OF i])
  moreover have "(int i + 1) * sz \<le> vec_capacity v * sz" using i J(4,7) by (intro mult_right_mono) simp_all
  ultimately have "vec_put sz v (int i) x = Inr (v\<lparr>vec_data := Some ?d\<rparr>)" using J(1,3,4) by (simp add: vec_put_def nat_index)
  moreover have E': "\<forall>e\<in>set (es[i := x]). length e = nat sz" using J(5) x set_update_subset_insert [of es i x] by auto
  moreover have "vec_rep sz (v\<lparr>vec_data := Some ?d\<rparr>) (es[i := x])"
    by (rule vec_rep_SomeI [where J = J]) (use J E' length_concat_elems [OF E'] in auto)
  ultimately show ?thesis by blast
qed

section \<open>Mapping\<close>

lemma vec_rep_growable:
  assumes R: "vec_rep sz v es" and n: "0 < n" "2 * int (length es + n) * sz < 2 ^ 31"
  shows "growable sz v"
proof -
  have sz: "0 < sz" using R by (simp add: vec_rep_def)
  have "1 * sz \<le> 2 * int (length es + n) * sz" "2 * int (length es) * sz \<le> 2 * int (length es + n) * sz"
    using sz n(1) by (intro mult_right_mono; simp)+
  then have "sz < 2 ^ 31" "2 * int (length es) * sz < 2 ^ 31" using n(2) by linarith+
  moreover have "vec_capacity v = int (length es)" if "\<not> vec_length v < vec_capacity v" using vec_rep_len [OF R] that by simp
  ultimately show ?thesis by (cases "vec_length v < vec_capacity v") (simp_all add: growable_def)
qed

text \<open>What a failing push loses is missing from the result; nothing is reported.\<close>

lemma map_loop_ok:
  "vec_rep sz v es \<Longrightarrow> 2 * int (length es + length xs) * sz < 2 ^ 31 \<Longrightarrow> \<forall>x\<in>set xs. length (f x) = nat sz \<Longrightarrow>
   \<exists>v' w' ys. map_loop sz f xs v w = Inr (v', w') \<and> vec_rep sz v' (es @ ys) \<and> subseq ys (map f xs) \<and>
     (w_mallocs w = [] \<longrightarrow> ys = map f xs)"
proof (induction xs arbitrary: v es w)
  case (Cons x xs)
  have g: "growable sz v" by (rule vec_rep_growable [OF Cons.prems(1), of "length (x # xs)"]) (use Cons.prems(2) in simp_all)
  obtain rv v1 w1 where p: "vec_push sz (f x) v w = Inr (rv, v1, w1)" "w_mallocs w = [] \<longrightarrow> w_mallocs w1 = []"
    "rv = 0 \<and> vec_rep sz v1 (es @ [f x]) \<or> rv = - 1 \<and> v1 = v \<and> w_mallocs w \<noteq> []"
    using vec_push_ok [OF Cons.prems(1) g, of "f x" w] Cons.prems(3) by auto
  show ?case
  proof (cases "rv = 0")
    case True
    then have R1: "vec_rep sz v1 (es @ [f x])" using p(3) by auto
    obtain v' w' ys where m: "map_loop sz f xs v1 w1 = Inr (v', w')" "vec_rep sz v' ((es @ [f x]) @ ys)"
      "subseq ys (map f xs)" "w_mallocs w1 = [] \<longrightarrow> ys = map f xs"
      using Cons.IH [OF R1, of w1] Cons.prems(2,3) by auto
    then show ?thesis using p(1,2) by (intro exI [of _ v'] exI [of _ w'] exI [of _ "f x # ys"]) auto
  next
    case False
    have "2 * int (length es + length xs) * sz \<le> 2 * int (length es + length (x # xs)) * sz"
      using Cons.prems(1) by (intro mult_right_mono) (simp_all add: vec_rep_def)
    then have "2 * int (length es + length xs) * sz < 2 ^ 31" using Cons.prems(2) by linarith
    then obtain v' w' ys where m: "map_loop sz f xs v w1 = Inr (v', w')" "vec_rep sz v' (es @ ys)" "subseq ys (map f xs)"
      using Cons.IH [OF Cons.prems(1), of w1] Cons.prems(3) by auto
    then show ?thesis using p False by (intro exI [of _ v'] exI [of _ w'] exI [of _ ys]) auto
  qed
qed (auto intro: exI [of _ "[]"])

lemma vec_map_ok:
  assumes R: "vec_rep sz v es" and R2: "vec_rep sz2 v2 xs" and n: "2 * int (length es + length xs) * sz < 2 ^ 31"
    and f: "\<forall>x\<in>set xs. length (f x) = nat sz"
  shows "\<exists>v' w' ys. vec_map sz2 sz f v2 v w = Inr (v', w') \<and> vec_rep sz v' (es @ ys) \<and> subseq ys (map f xs) \<and>
     (w_mallocs w = [] \<longrightarrow> ys = map f xs)"
  using map_loop_ok [OF R n f, of w] vec_foreach_ok [OF R2] by (simp add: vec_map_def)

end
