(* ===== verification/Vec_Loops.thy ===== *)
theory Vec_Loops
  imports Vec_Spec
begin

text \<open>
  The iteration macros of \<open>src/include/sys/vec.h\<close> that hand out pointers, walk two vectors, run
  code for every element or look at a field of the elements. A pointer to an element is given by
  the index of the element. What is run for an element acts on a state of the caller.
\<close>

section \<open>Pointers to the elements\<close>

definition vec_at_ptr :: "int \<Rightarrow> vec \<Rightarrow> int \<Rightarrow> fault + int" where
  "vec_at_ptr memsz v i =
     bindr (c_deref (vec_data v)) (\<lambda>d. bindr (guard UB (0 \<le> i \<and> i * memsz \<le> int (length d))) (\<lambda>_. Inr i))"

text \<open>One past the last element; that of an empty vector may be the null pointer.\<close>

definition vec_end_ptr :: "int \<Rightarrow> vec \<Rightarrow> fault + int" where
  "vec_end_ptr memsz v = (if vec_length v = 0 then Inr 0 else vec_at_ptr memsz v (vec_length v))"

definition vec_last_ptr :: "int \<Rightarrow> vec \<Rightarrow> fault + int" where
  "vec_last_ptr memsz v = bindr (c_int (vec_length v - 1)) (vec_at_ptr memsz v)"

primrec foreach_ptr_loop :: "int \<Rightarrow> vec \<Rightarrow> int \<Rightarrow> nat \<Rightarrow> fault + int list" where
  "foreach_ptr_loop memsz v i 0 = Inr []"
| "foreach_ptr_loop memsz v i (Suc n) =
     bindr (vec_at_ptr memsz v i) (\<lambda>p. bindr (foreach_ptr_loop memsz v (i + 1) n) (\<lambda>ps. Inr (p # ps)))"

definition vec_foreach_ptr :: "int \<Rightarrow> vec \<Rightarrow> fault + int list" where
  "vec_foreach_ptr memsz v =
     (if vec_length v > 0 then foreach_ptr_loop memsz v 0 (nat (vec_length v)) else Inr [])"

primrec foreach_ptr_rev_loop :: "int \<Rightarrow> vec \<Rightarrow> nat \<Rightarrow> fault + int list" where
  "foreach_ptr_rev_loop memsz v 0 = Inr []"
| "foreach_ptr_rev_loop memsz v (Suc n) =
     bindr (vec_at_ptr memsz v (int n)) (\<lambda>p. bindr (foreach_ptr_rev_loop memsz v n) (\<lambda>ps. Inr (p # ps)))"

definition vec_foreach_ptr_rev :: "int \<Rightarrow> vec \<Rightarrow> fault + int list" where
  "vec_foreach_ptr_rev memsz v =
     (if vec_length v > 0 then foreach_ptr_rev_loop memsz v (nat (vec_length v)) else Inr [])"

section \<open>Adding by memcpy\<close>

text \<open>As many bytes are copied as the value has, whatever the size of the elements.\<close>

definition vec_emplace_push :: "int \<Rightarrow> bytes \<Rightarrow> vec \<Rightarrow> eob_world \<Rightarrow> fault + int \<times> vec \<times> eob_world" where
  "vec_emplace_push memsz val v w =
     bindr (vec_expand_fn memsz v w) (\<lambda>(err, v, w).
     if err \<noteq> 0 then Inr (- 1, v, w)
     else
       bindr (c_deref (vec_data v)) (\<lambda>d.
       bindr (guard UB (0 \<le> vec_length v \<and> vec_length v * memsz + int (length val) \<le> int (length d))) (\<lambda>_.
       Inr (0, v\<lparr>vec_data := Some (overlay (nat (vec_length v * memsz)) val d), vec_length := vec_length v + 1\<rparr>, w))))"

lemma vec_emplace_push_eq: "int (length val) = memsz \<Longrightarrow> vec_emplace_push memsz val v w = vec_push memsz val v w"
  by (auto simp: vec_emplace_push_def vec_push_def vec_put_def bindr_assoc distrib_right guard_def
    intro!: bindr_cong split: prod.splits)

section \<open>Two vectors\<close>

text \<open>\<open>vec_zip\<close> visits nothing when the lengths differ.\<close>

primrec zip_loop :: "int \<Rightarrow> int \<Rightarrow> vec \<Rightarrow> vec \<Rightarrow> int \<Rightarrow> nat \<Rightarrow> fault + (bytes \<times> bytes) list" where
  "zip_loop sz1 sz2 v1 v2 i 0 = Inr []"
| "zip_loop sz1 sz2 v1 v2 i (Suc n) =
     bindr (vec_at sz1 v1 i) (\<lambda>x. bindr (vec_at sz2 v2 i) (\<lambda>y.
     bindr (zip_loop sz1 sz2 v1 v2 (i + 1) n) (\<lambda>ps. Inr ((x, y) # ps))))"

definition vec_zip :: "int \<Rightarrow> int \<Rightarrow> vec \<Rightarrow> vec \<Rightarrow> fault + (bytes \<times> bytes) list" where
  "vec_zip sz1 sz2 v1 v2 =
     (if vec_length v1 > 0 \<and> vec_length v2 = vec_length v1
      then zip_loop sz1 sz2 v1 v2 0 (nat (vec_length v1)) else Inr [])"

primrec zip_ptr_loop :: "int \<Rightarrow> int \<Rightarrow> vec \<Rightarrow> vec \<Rightarrow> int \<Rightarrow> nat \<Rightarrow> fault + (int \<times> int) list" where
  "zip_ptr_loop sz1 sz2 v1 v2 i 0 = Inr []"
| "zip_ptr_loop sz1 sz2 v1 v2 i (Suc n) =
     bindr (vec_at_ptr sz1 v1 i) (\<lambda>p. bindr (vec_at_ptr sz2 v2 i) (\<lambda>q.
     bindr (zip_ptr_loop sz1 sz2 v1 v2 (i + 1) n) (\<lambda>ps. Inr ((p, q) # ps))))"

definition vec_zip_ptr :: "int \<Rightarrow> int \<Rightarrow> vec \<Rightarrow> vec \<Rightarrow> fault + (int \<times> int) list" where
  "vec_zip_ptr sz1 sz2 v1 v2 =
     (if vec_length v1 > 0 \<and> vec_length v2 = vec_length v1
      then zip_ptr_loop sz1 sz2 v1 v2 0 (nat (vec_length v1)) else Inr [])"

section \<open>Code run for every element\<close>

primrec iter_list :: "('a \<Rightarrow> 's \<Rightarrow> fault + 's) \<Rightarrow> 'a list \<Rightarrow> 's \<Rightarrow> fault + 's" where
  "iter_list f [] s = Inr s"
| "iter_list f (x # xs) s = bindr (f x s) (iter_list f xs)"

primrec iter_loop :: "int \<Rightarrow> (bytes \<Rightarrow> 's \<Rightarrow> fault + 's) \<Rightarrow> vec \<Rightarrow> int \<Rightarrow> nat \<Rightarrow> 's \<Rightarrow> fault + 's" where
  "iter_loop memsz f v i 0 s = Inr s"
| "iter_loop memsz f v i (Suc n) s =
     bindr (vec_at memsz v i) (\<lambda>x. bindr (f x s) (iter_loop memsz f v (i + 1) n))"

definition vec_iter :: "int \<Rightarrow> (bytes \<Rightarrow> 's \<Rightarrow> fault + 's) \<Rightarrow> vec \<Rightarrow> 's \<Rightarrow> fault + 's" where
  "vec_iter memsz f v s = (if vec_length v > 0 then iter_loop memsz f v 0 (nat (vec_length v)) s else Inr s)"

primrec iter_ptr_loop :: "int \<Rightarrow> (int \<Rightarrow> 's \<Rightarrow> fault + 's) \<Rightarrow> vec \<Rightarrow> int \<Rightarrow> nat \<Rightarrow> 's \<Rightarrow> fault + 's" where
  "iter_ptr_loop memsz f v i 0 s = Inr s"
| "iter_ptr_loop memsz f v i (Suc n) s =
     bindr (vec_at_ptr memsz v i) (\<lambda>p. bindr (f p s) (iter_ptr_loop memsz f v (i + 1) n))"

definition vec_iter_ptr :: "int \<Rightarrow> (int \<Rightarrow> 's \<Rightarrow> fault + 's) \<Rightarrow> vec \<Rightarrow> 's \<Rightarrow> fault + 's" where
  "vec_iter_ptr memsz f v s = (if vec_length v > 0 then iter_ptr_loop memsz f v 0 (nat (vec_length v)) s else Inr s)"

text \<open>\<open>free\<close> of the allocated blocks, given by their pointers; the null pointer is ignored.\<close>

definition c_free :: "bytes \<Rightarrow> bytes set \<Rightarrow> fault + bytes set" where
  "c_free p heap =
     (if \<forall>b\<in>set p. b = 0 then Inr heap else bindr (guard UB (p \<in> heap)) (\<lambda>_. Inr (heap - {p})))"

definition vec_deinit_with_ptr :: "vec \<Rightarrow> bytes set \<Rightarrow> fault + vec \<times> bytes set" where
  "vec_deinit_with_ptr v heap = bindr (vec_iter 8 c_free v heap) (\<lambda>heap. Inr (vec_deinit v, heap))"

section \<open>Fields of the elements\<close>

text \<open>The field is a number of bytes at an offset in the element.\<close>

definition vec_find_by_field :: "int \<Rightarrow> nat \<Rightarrow> nat \<Rightarrow> bytes \<Rightarrow> vec \<Rightarrow> fault + int" where
  "vec_find_by_field memsz off n val v = vec_find_by_cmp memsz (\<lambda>x. bslice off n x = val) v"

text \<open>
  The string that a field (or a getter) of the element leads to, which may be a null pointer.
  Without a match the iterator is the end of the vector.
\<close>

primrec find_str_loop :: "int \<Rightarrow> (bytes \<Rightarrow> fault + string) \<Rightarrow> string \<Rightarrow> vec \<Rightarrow> int \<Rightarrow> nat \<Rightarrow> fault + int" where
  "find_str_loop memsz getter val v i 0 = vec_end_ptr memsz v"
| "find_str_loop memsz getter val v i (Suc n) =
     bindr (vec_at memsz v i) (\<lambda>x. bindr (getter x) (\<lambda>s.
     if s = val then vec_at_ptr memsz v i else find_str_loop memsz getter val v (i + 1) n))"

definition vec_find_by_str_getter :: "int \<Rightarrow> (bytes \<Rightarrow> fault + string) \<Rightarrow> string \<Rightarrow> vec \<Rightarrow> fault + int" where
  "vec_find_by_str_getter memsz getter val v =
     (if vec_length v > 0 then find_str_loop memsz getter val v 0 (nat (vec_length v)) else vec_end_ptr memsz v)"

definition vec_find_by_str_field :: "int \<Rightarrow> (bytes \<Rightarrow> fault + string) \<Rightarrow> string \<Rightarrow> vec \<Rightarrow> fault + int" where
  "vec_find_by_str_field memsz field val v = vec_find_by_str_getter memsz field val v"

section \<open>What the loops visit\<close>

lemma vec_at_ptr_ok:
  assumes R: "vec_rep sz v es" and i: "i \<le> length es" and ne: "es \<noteq> []"
  shows "vec_at_ptr sz v (int i) = Inr (int i)"
proof -
  obtain d where d: "vec_data v = Some d" "int (length d) = vec_capacity v * sz" and sz: "0 < sz"
    using R ne by (auto simp: vec_rep_def split: option.splits)
  have "int i * sz \<le> vec_capacity v * sz" using vec_rep_len [OF R] i sz by (intro mult_right_mono) auto
  then show ?thesis using d by (simp add: vec_at_ptr_def)
qed

lemma vec_end_ptr_ok: "vec_rep sz v es \<Longrightarrow> vec_end_ptr sz v = Inr (int (length es))"
  using vec_rep_len [of sz v es] vec_at_ptr_ok [of sz v es "length es"] by (cases "es = []") (auto simp: vec_end_ptr_def)

lemma foreach_ptr_loop_ok:
  "vec_rep sz v es \<Longrightarrow> i + n \<le> length es \<Longrightarrow> foreach_ptr_loop sz v (int i) n = Inr (map int [i..<i + n])"
proof (induction n arbitrary: i)
  case (Suc n)
  have "vec_at_ptr sz v (int i) = Inr (int i)" using Suc.prems by (intro vec_at_ptr_ok) auto
  then show ?case using Suc.IH [of "Suc i"] Suc.prems by (simp add: add.commute upt_conv_Cons)
qed simp

lemma foreach_ptr_rev_loop_ok:
  "vec_rep sz v es \<Longrightarrow> n \<le> length es \<Longrightarrow> foreach_ptr_rev_loop sz v n = Inr (rev (map int [0..<n]))"
proof (induction n)
  case (Suc n)
  have "vec_at_ptr sz v (int n) = Inr (int n)" using Suc.prems by (intro vec_at_ptr_ok) auto
  then show ?case using Suc by simp
qed simp

lemma vec_foreach_ptr_ok:
  assumes R: "vec_rep sz v es"
  shows "vec_foreach_ptr sz v = Inr (map int [0..<length es])"
    and "vec_foreach_ptr_rev sz v = Inr (rev (map int [0..<length es]))"
  using foreach_ptr_loop_ok [OF R, of 0 "length es"] foreach_ptr_rev_loop_ok [OF R order_refl] vec_rep_len [OF R]
  by (auto simp: vec_foreach_ptr_def vec_foreach_ptr_rev_def)

lemma zip_loop_ok:
  assumes R: "vec_rep sz1 v1 es" "vec_rep sz2 v2 fs"
  shows "i + n \<le> length es \<Longrightarrow> i + n \<le> length fs \<Longrightarrow>
    zip_loop sz1 sz2 v1 v2 (int i) n = Inr (take n (drop i (zip es fs)))"
proof (induction n arbitrary: i)
  case (Suc n)
  have "vec_at sz1 v1 (int i) = Inr (es ! i)" "vec_at sz2 v2 (int i) = Inr (fs ! i)"
    using Suc.prems by (auto intro!: vec_at_ok R)
  moreover have "zip_loop sz1 sz2 v1 v2 (int i + 1) n = Inr (take n (drop (Suc i) (zip es fs)))"
    using Suc.IH [of "Suc i"] Suc.prems by (simp add: add.commute)
  moreover have "drop i (zip es fs) = (es ! i, fs ! i) # drop (Suc i) (zip es fs)"
    using Suc.prems Cons_nth_drop_Suc [of i "zip es fs"] by simp
  ultimately show ?case by simp
qed simp

lemma vec_zip_ok:
  assumes R: "vec_rep sz1 v1 es" "vec_rep sz2 v2 fs"
  shows "vec_zip sz1 sz2 v1 v2 = Inr (if length es = length fs then zip es fs else [])"
  using zip_loop_ok [OF R, of 0 "length es"] vec_rep_len [OF R(1)] vec_rep_len [OF R(2)] by (auto simp: vec_zip_def)

lemma zip_ptr_loop_ok:
  assumes R: "vec_rep sz1 v1 es" "vec_rep sz2 v2 fs"
  shows "i + n \<le> length es \<Longrightarrow> i + n \<le> length fs \<Longrightarrow>
    zip_ptr_loop sz1 sz2 v1 v2 (int i) n = Inr (map (\<lambda>k. (int k, int k)) [i..<i + n])"
proof (induction n arbitrary: i)
  case (Suc n)
  have "vec_at_ptr sz1 v1 (int i) = Inr (int i)" "vec_at_ptr sz2 v2 (int i) = Inr (int i)"
    using Suc.prems by (auto intro!: vec_at_ptr_ok R)
  then show ?case using Suc.IH [of "Suc i"] Suc.prems by (simp add: add.commute upt_conv_Cons)
qed simp

lemma vec_zip_ptr_ok:
  assumes R: "vec_rep sz1 v1 es" "vec_rep sz2 v2 fs"
  shows "vec_zip_ptr sz1 sz2 v1 v2 = Inr (if length es = length fs then map (\<lambda>k. (int k, int k)) [0..<length es] else [])"
  using zip_ptr_loop_ok [OF R, of 0 "length es"] vec_rep_len [OF R(1)] vec_rep_len [OF R(2)] by (auto simp: vec_zip_ptr_def)

lemma iter_loop_ok:
  "vec_rep sz v es \<Longrightarrow> i + n \<le> length es \<Longrightarrow> iter_loop sz f v (int i) n s = iter_list f (take n (drop i es)) s"
proof (induction n arbitrary: i s)
  case (Suc n)
  have "vec_at sz v (int i) = Inr (es ! i)" using Suc.prems by (intro vec_at_ok) simp_all
  moreover have "iter_loop sz f v (int i + 1) n = iter_list f (take n (drop (Suc i) es))"
    using Suc.IH [of "Suc i"] Suc.prems by (simp add: add.commute fun_eq_iff)
  moreover have "drop i es = es ! i # drop (Suc i) es" using Suc.prems(2) by (simp add: Cons_nth_drop_Suc)
  ultimately show ?case by simp
qed simp

lemma vec_iter_ok: "vec_rep sz v es \<Longrightarrow> vec_iter sz f v s = iter_list f es s"
  using iter_loop_ok [of sz v es 0 "length es"] vec_rep_len [of sz v es] by (auto simp: vec_iter_def)

lemma iter_ptr_loop_ok:
  "vec_rep sz v es \<Longrightarrow> i + n \<le> length es \<Longrightarrow> iter_ptr_loop sz f v (int i) n s = iter_list f (map int [i..<i + n]) s"
proof (induction n arbitrary: i s)
  case (Suc n)
  have "vec_at_ptr sz v (int i) = Inr (int i)" using Suc.prems by (intro vec_at_ptr_ok) auto
  moreover have "iter_ptr_loop sz f v (int i + 1) n = iter_list f (map int [Suc i..<Suc i + n])"
    using Suc.IH [of "Suc i"] Suc.prems by (simp add: add.commute fun_eq_iff)
  moreover have "map int [i..<i + Suc n] = int i # map int [Suc i..<Suc i + n]" by (simp add: upt_conv_Cons del: upt_Suc)
  ultimately show ?case by (simp del: upt_Suc)
qed simp

lemma vec_iter_ptr_ok: "vec_rep sz v es \<Longrightarrow> vec_iter_ptr sz f v s = iter_list f (map int [0..<length es]) s"
  using iter_ptr_loop_ok [of sz v es 0 "length es"] vec_rep_len [of sz v es] by (auto simp: vec_iter_ptr_def)

text \<open>Every block that the elements point to is freed, if no two elements point to the same one.\<close>

lemma iter_free_ok:
  "distinct (filter (\<lambda>p. \<exists>b\<in>set p. b \<noteq> 0) es) \<Longrightarrow> {p \<in> set es. \<exists>b\<in>set p. b \<noteq> 0} \<subseteq> heap \<Longrightarrow>
    iter_list c_free es heap = Inr (heap - {p \<in> set es. \<exists>b\<in>set p. b \<noteq> 0})"
proof (induction es arbitrary: heap)
  case (Cons p es)
  show ?case
  proof (cases "\<exists>b\<in>set p. b \<noteq> 0")
    case True
    then have "c_free p heap = Inr (heap - {p})" using Cons.prems by (auto simp: c_free_def)
    moreover have "iter_list c_free es (heap - {p}) = Inr (heap - {p} - {p \<in> set es. \<exists>b\<in>set p. b \<noteq> 0})"
      using True Cons.prems by (intro Cons.IH) auto
    moreover have "heap - {p} - {p \<in> set es. \<exists>b\<in>set p. b \<noteq> 0} = heap - {q \<in> set (p # es). \<exists>b\<in>set q. b \<noteq> 0}"
      using True by auto
    ultimately show ?thesis by simp
  next
    case False
    then have "{q \<in> set (p # es). \<exists>b\<in>set q. b \<noteq> 0} = {q \<in> set es. \<exists>b\<in>set q. b \<noteq> 0}" by auto
    then show ?thesis using False Cons by (simp add: c_free_def)
  qed
qed simp

lemma find_str_loop_ok:
  "vec_rep sz v es \<Longrightarrow> i + n = length es \<Longrightarrow> \<forall>e\<in>set es. g e = Inr (str e) \<Longrightarrow>
    find_str_loop sz g val v (int i) n = Inr (int (i + length (takeWhile (\<lambda>e. str e \<noteq> val) (drop i es))))"
proof (induction n arbitrary: i)
  case 0
  then show ?case by (simp add: vec_end_ptr_ok)
next
  case (Suc n)
  have "vec_at sz v (int i) = Inr (es ! i)" "g (es ! i) = Inr (str (es ! i))" "vec_at_ptr sz v (int i) = Inr (int i)"
    using Suc.prems by (auto intro!: vec_at_ok vec_at_ptr_ok)
  moreover have "find_str_loop sz g val v (int i + 1) n =
      Inr (int (Suc i + length (takeWhile (\<lambda>e. str e \<noteq> val) (drop (Suc i) es))))"
    using Suc.IH [of "Suc i"] Suc.prems by (simp add: add.commute)
  moreover have "drop i es = es ! i # drop (Suc i) es" using Suc.prems(2) by (simp add: Cons_nth_drop_Suc)
  ultimately show ?case by simp
qed

lemma vec_find_by_str_ok:
  assumes "vec_rep sz v es" "\<forall>e\<in>set es. g e = Inr (str e)"
  shows "vec_find_by_str_field sz g val v = Inr (int (length (takeWhile (\<lambda>e. str e \<noteq> val) es)))"
  using find_str_loop_ok [of sz v es 0 "length es" g str val] assms vec_rep_len [OF assms(1)] vec_end_ptr_ok [OF assms(1)]
  by (auto simp: vec_find_by_str_field_def vec_find_by_str_getter_def)

section \<open>Property\<close>

text \<open>
  C31. The loops visit what they say: \<open>vec_zip\<close> the pairs of two vectors of the same length (and
  nothing at all otherwise), \<open>vec_foreach_ptr\<close> and \<open>vec_foreach_ptr_rev\<close> pointers to all elements
  in the two orders, \<open>vec_iter\<close> every element once and in order; \<open>vec_find_by_str_field\<close> ends at
  the first match or at the end, and \<open>vec_deinit_with_ptr\<close> frees every block it points to.
\<close>

theorem vec_loops_visit:
  assumes R: "vec_rep sz1 v1 es" and S: "vec_rep sz2 v2 fs" and P: "vec_rep 8 v3 ps"
    and g: "\<forall>e\<in>set es. g e = Inr (str e)"
    and d: "distinct (filter (\<lambda>p. \<exists>b\<in>set p. b \<noteq> 0) ps)" "{p \<in> set ps. \<exists>b\<in>set p. b \<noteq> 0} \<subseteq> heap"
  shows "vec_zip sz1 sz2 v1 v2 = Inr (if length es = length fs then zip es fs else []) \<and>
    vec_foreach_ptr sz1 v1 = Inr (map int [0..<length es]) \<and>
    vec_foreach_ptr_rev sz1 v1 = Inr (rev (map int [0..<length es])) \<and>
    vec_iter sz1 f v1 s = iter_list f es s \<and>
    vec_find_by_str_field sz1 g val v1 = Inr (int (length (takeWhile (\<lambda>e. str e \<noteq> val) es))) \<and>
    vec_deinit_with_ptr v3 heap = Inr (vec_init, heap - {p \<in> set ps. \<exists>b\<in>set p. b \<noteq> 0})"
  using vec_zip_ok [OF R S] vec_foreach_ptr_ok [OF R] vec_iter_ok [OF R] vec_find_by_str_ok [OF R g]
    vec_iter_ok [OF P, of c_free heap] iter_free_ok [OF d]
  by (simp add: vec_deinit_with_ptr_def vec_deinit_def)

theorem vec_loops_visit_witness:
  "vec_zip 2 1 \<lparr>vec_data = Some [1, 2, 3, 4], vec_length = 2, vec_capacity = 2\<rparr>
      \<lparr>vec_data = Some [8, 9], vec_length = 2, vec_capacity = 2\<rparr> = Inr [([1, 2], [8]), ([3, 4], [9])] \<and>
    vec_deinit_with_ptr \<lparr>vec_data = Some [8, 0, 0, 0, 0, 0, 0, 0], vec_length = 1, vec_capacity = 1\<rparr> {[8, 0, 0, 0, 0, 0, 0, 0]} =
      Inr (vec_init, {})"
proof -
  let ?p = "[8, 0, 0, 0, 0, 0, 0, 0] :: bytes"
  have "{p \<in> set [?p]. \<exists>b\<in>set p. b \<noteq> 0} = {?p}" by auto
  then show ?thesis
    using vec_loops_visit [of 2 "\<lparr>vec_data = Some [1, 2, 3, 4], vec_length = 2, vec_capacity = 2\<rparr>" "[[1, 2], [3, 4]]"
      1 "\<lparr>vec_data = Some [8, 9], vec_length = 2, vec_capacity = 2\<rparr>" "[[8], [9]]"
      "\<lparr>vec_data = Some ?p, vec_length = 1, vec_capacity = 1\<rparr>" "[?p]" "\<lambda>_. Inr []" "\<lambda>_. []" "{?p}" "\<lambda>_ (s::unit). Inr s" "()" "[]"]
    by (simp add: vec_rep_def)
qed

end
