(* ===== verification/Vec_Props.thy ===== *)
theory Vec_Props
  imports Vec_Resize Vec_Loops
begin

text \<open>
  What a client of \<open>src/include/sys/vec.h\<close> may rely on: the operations of a vector are those of
  the list of its elements. The calls of a client are data; \<open>vec_do\<close> runs one of them on the
  model of the code, \<open>list_do\<close> on the abstract list.
\<close>

section \<open>Calls\<close>




text \<open>\<open>vec_elems\<close> reads the list off a vector: the abstraction for the arguments of \<open>Extend\<close> and \<open>Map\<close>.\<close>

definition vec_elems :: "int \<Rightarrow> vec \<Rightarrow> bytes list" where
  "vec_elems sz v = map (\<lambda>i. bslice (i * nat sz) (nat sz) (case vec_data v of None \<Rightarrow> [] | Some d \<Rightarrow> d)) [0..<nat (vec_length v)]"






section \<open>The remaining operations\<close>

lemma vec_rep_elems: "vec_rep sz v es \<Longrightarrow> vec_elems sz v = es"
proof (rule nth_equalityI)
  assume R: "vec_rep sz v es"
  then have len: "vec_length v = int (length es)" and sz: "0 < sz" using vec_rep_len [OF R] by (simp_all add: vec_rep_def)
  show "length (vec_elems sz v) = length es" using len by (simp add: vec_elems_def)
  fix i assume "i < length (vec_elems sz v)"
  then have i: "i < length es" using len by (simp add: vec_elems_def)
  then obtain d where d: "vec_data v = Some d" using R by (auto simp: vec_rep_def split: option.splits)
  have "vec_at sz v (int i) = Inr (es ! i)" by (rule vec_at_ok [OF R i])
  then have "bslice (nat (int i * sz)) (nat sz) d = es ! i" using d by (simp add: vec_at_def bindr_guard_Inr_iff)
  then show "vec_elems sz v ! i = es ! i" using i len d sz by (simp add: vec_elems_def nat_index)
qed










section \<open>The properties\<close>




definition short_world :: eob_world where
  "short_world = \<lparr>w_disk = [], w_sched = [], w_mallocs = [False], w_junk = (\<lambda>_. 0)\<rparr>"


lemma full_length_small:
  assumes R: "vec_rep sz v es" and full: "vec_length v = vec_capacity v" and g: "growable sz v"
  shows "vec_length v + 1 < 2 ^ 31"
proof (cases "vec_capacity v = 0")
  case False
  have "0 < sz" "0 \<le> vec_capacity v" using R by (simp_all add: vec_rep_def)
  then have "2 * vec_capacity v < 2 ^ 31" using g full False small_count [of sz "2 * vec_capacity v"] by (simp add: growable_def)
  then show ?thesis using full False \<open>0 \<le> vec_capacity v\<close> by linarith
qed (use full in simp)

lemma vec_expand_fails:
  assumes R: "vec_rep sz v es" and full: "vec_length v = vec_capacity v" and g: "growable sz v" and fails: "w_mallocs w = False # ms"
  shows "\<exists>w'. vec_expand_fn sz v w = Inr (- 1, v, w')"
proof -
  have sz: "0 < sz" and cap: "0 \<le> vec_capacity v" using R by (simp_all add: vec_rep_def)
  let ?n = "if vec_capacity v = 0 then 1 else 2 * vec_capacity v"
  have "?n * sz = (if vec_capacity v = 0 then sz else 2 * vec_capacity v * sz)" by simp
  then have n: "0 < ?n" "?n * sz < 2 ^ 31" using g full cap unfolding growable_def by simp_all
  then have c: "0 < ?n * sz" "?n < 2 ^ 31" using sz small_count [OF sz _ n(2)] by simp_all
  have "c_int (vec_length v + 1) = Inr (vec_length v + 1)" using full_length_small [OF R full g] full cap by simp
  moreover have "(if vec_capacity v = 0 then Inr 1 else bindr (guard UB (vec_capacity v \<ge> 0)) (\<lambda>_. c_int (2 * vec_capacity v))) = Inr ?n"
    using cap c(2) by (auto simp: c_int_def split: if_splits)
  moreover have "c_int (?n * sz) = Inr (?n * sz)" using c(1) n(2) by simp
  moreover obtain w' where "sys_realloc (vec_data v) (?n * sz) w = Inr (None, w')"
    using realloc_cases [OF c(1), of "vec_data v" w] fails by auto
  ultimately have "vec_expand_fn sz v w = Inr (- 1, v, w')" using full unfolding vec_expand_fn_def by simp
  then show ?thesis ..
qed

text \<open>
  C29. An insertion whose allocation fails still reports success: \<open>vec_insert\<close> returns 0, the
  length goes past the capacity, the new value is nowhere, and reading the last element is then
  an access outside the block.
\<close>

theorem vec_insert_unreported:
  assumes R: "vec_rep sz v (A @ B)" and full: "vec_length v = vec_capacity v" and g: "growable sz v"
    and x: "length x = nat sz" and fails: "w_mallocs w = False # ms"
  shows "\<exists>w'. vec_insert sz (int (length A)) x v w = Inr (0, v\<lparr>vec_length := vec_length v + 1\<rparr>, w') \<and>
    vec_last sz (v\<lparr>vec_length := vec_length v + 1\<rparr>) = Inl UB"
proof -
  have sz: "0 < sz" and len: "vec_length v = int (length (A @ B))" using R vec_rep_len [OF R] by (simp_all add: vec_rep_def)
  have small: "vec_length v + 1 < 2 ^ 31" using full_length_small [OF R full g] .
  obtain w' where e: "vec_expand_fn sz v w = Inr (- 1, v, w')" using vec_expand_fails [OF R full g fails] by blast
  have "vec_insert sz (int (length A)) x v w = Inr (0, v\<lparr>vec_length := vec_length v + 1\<rparr>, w')"
    using e small len by (simp add: vec_insert_def vec_insert_fn_def)
  moreover have "vec_at sz (v\<lparr>vec_length := vec_length v + 1\<rparr>) (vec_length v) = Inl UB"
  proof (cases "vec_data v")
    case (Some d)
    then have "int (length d) = vec_length v * sz" using R full by (simp add: vec_rep_def)
    then show ?thesis using Some sz by (simp add: vec_at_def algebra_simps)
  qed (simp add: vec_at_def)
  ultimately show ?thesis using small len by (simp add: vec_last_def)
qed

theorem vec_insert_unreported_witness:
  "\<exists>w'. vec_insert 1 1 [9] \<lparr>vec_data = Some [1, 2], vec_length = 2, vec_capacity = 2\<rparr> short_world =
      Inr (0, \<lparr>vec_data = Some [1, 2], vec_length = 3, vec_capacity = 2\<rparr>, w')"
  using vec_insert_unreported [of 1 "\<lparr>vec_data = Some [1, 2], vec_length = 2, vec_capacity = 2\<rparr>" "[[1]]" "[[2]]" "[9]"
      short_world "[]"]
  by (auto simp: vec_rep_def growable_def short_world_def)

text \<open>
  C30. \<open>vec_swapsplice\<close> fills the hole left by the removed elements with the last elements of the
  vector, as many as were removed. With fewer elements behind the hole than in it, some of those
  that it moves are the removed ones, which stay in the vector in place of others.
\<close>

theorem vec_swapsplice_fills:
  assumes R: "vec_rep sz v (A @ M @ B)" and ne: "vec_data v \<noteq> None"
  shows "\<exists>v'. vec_swapsplice sz (int (length A)) (int (length M)) v = Inr v' \<and>
    vec_rep sz v' (A @ take (length B) (drop (length B) (M @ B) @ B))"
  by (rule vec_swapsplice_ok [OF assms])

theorem vec_swapsplice_fills_witness:
  "\<exists>v'. vec_swapsplice 1 1 2 \<lparr>vec_data = Some [1, 2, 3, 4], vec_length = 4, vec_capacity = 4\<rparr> = Inr v' \<and>
    vec_rep 1 v' [[1], [3]]"
  using vec_swapsplice_fills [of 1 "\<lparr>vec_data = Some [1, 2, 3, 4], vec_length = 4, vec_capacity = 4\<rparr>" "[[1]]" "[[2], [3]]" "[[4]]"]
  by (simp add: vec_rep_def)

end
