(* ===== verification/Kmod_Device.thy ===== *)
theory Kmod_Device
  imports Eob_World
begin

text \<open>
  The kernel module's devices: \<open>src/modules/kmod/eoblock_device.c\<close> and
  \<open>src/modules/kmod/eoblock_main.c\<close>. The kernel is a state: what the module allocated from it,
  and oracles for what its calls return. \<open>k_allocs\<close> lists which allocations succeed,
  \<open>k_calls\<close> the results of the successive calls that register something (0 is success),
  \<open>k_files\<close> those of \<open>filp_open\<close> and \<open>k_blks\<close> those of \<open>blkdev_get_by_path\<close>; an exhausted
  oracle means success. Pointers to objects are numbers, handed out in order and never reused;
  an object that was freed is no longer in its map, and touching it is undefined.
\<close>

definition EIO :: int where [simp]: "EIO = 5"
definition ENXIO :: int where [simp]: "ENXIO = 6"
definition ENOENT :: int where [simp]: "ENOENT = 2"
definition ENODEV :: int where [simp]: "ENODEV = 19"
definition EINVAL :: int where [simp]: "EINVAL = 22"

section \<open>State\<close>

text \<open>A block device found by its path: an error pointer, null, or one with or without a disk of so many sectors.\<close>

datatype blkdev = Blk_err int | Blk_null | Blk "u64 option"

record eob_kdevice =
  kd_name :: string
  kd_path :: string
  kd_fd :: "nat option"
  kd_sectors :: u64
  kd_bdev :: "blkdev option"

record eoblock_iface_base =
  if_name :: string
  if_device_name :: string
  if_kobj :: bool
  if_dev :: "nat option"

record kernel =
  k_next :: nat
  k_devs :: "nat \<Rightarrow> eob_kdevice option"
  k_heap :: "nat \<Rightarrow> eoblock_iface_base option"
  k_ifaces :: "nat list"
  k_setup_id :: u32
  k_ctx :: "nat option list option"
  k_open_files :: "nat list"
  k_root :: bool
  k_ifaces_kobj :: bool
  k_allocs :: "bool list"
  k_calls :: "int list"
  k_files :: "int list"
  k_blks :: "blkdev list"

fun take_alloc :: "kernel \<Rightarrow> bool \<times> kernel" where
  "take_alloc k = (case k_allocs k of [] \<Rightarrow> (True, k) | b # bs \<Rightarrow> (b, k\<lparr>k_allocs := bs\<rparr>))"

fun take_call :: "kernel \<Rightarrow> int \<times> kernel" where
  "take_call k = (case k_calls k of [] \<Rightarrow> (0, k) | r # rs \<Rightarrow> (r, k\<lparr>k_calls := rs\<rparr>))"

fun take_file :: "kernel \<Rightarrow> int \<times> kernel" where
  "take_file k = (case k_files k of [] \<Rightarrow> (0, k) | r # rs \<Rightarrow> (r, k\<lparr>k_files := rs\<rparr>))"

fun take_blk :: "kernel \<Rightarrow> blkdev \<times> kernel" where
  "take_blk k = (case k_blks k of [] \<Rightarrow> (Blk (Some 0), k) | b # bs \<Rightarrow> (b, k\<lparr>k_blks := bs\<rparr>))"

text \<open>\<open>strcpy\<close> into an array of \<open>cap\<close> characters.\<close>

definition c_strcpy :: "nat \<Rightarrow> string \<Rightarrow> fault + string" where
  "c_strcpy cap s = bindr (guard UB (length s < cap)) (\<lambda>_. Inr s)"

definition PATH_MAX_K :: nat where "PATH_MAX_K = 4096"

section \<open>eoblock\_device.c\<close>

text \<open>\<open>filp_open\<close> gives a file or an error pointer, which is negative.\<close>

definition eob_open_fd :: "nat \<Rightarrow> kernel \<Rightarrow> fault + int \<times> kernel" where
  "eob_open_fd d k =
     bindr (c_deref (k_devs k d)) (\<lambda>dev.
     let (r, k) = take_file k in
     if r < 0 then Inr (r, k)
     else Inr (0, k\<lparr>k_next := Suc (k_next k), k_open_files := k_next k # k_open_files k,
       k_devs := (k_devs k)(d \<mapsto> dev\<lparr>kd_fd := Some (k_next k)\<rparr>)\<rparr>))"

text \<open>The loop of \<open>eob_open_blk\<close>; \<open>n\<close> is \<open>50 - count\<close>.\<close>

fun is_err :: "blkdev \<Rightarrow> bool" where
  "is_err (Blk_err e) = True"
| "is_err _ = False"

primrec open_blk_loop :: "nat \<Rightarrow> blkdev \<Rightarrow> kernel \<Rightarrow> blkdev \<times> kernel" where
  "open_blk_loop 0 bdev k = (bdev, k)"
| "open_blk_loop (Suc n) bdev k =
     (if \<not> is_err bdev then (bdev, k)
      else let (bdev, k) = take_blk k in
        if bdev = Blk_err (- ENOENT) then open_blk_loop n bdev k
        else (bdev, k))"

definition eob_open_blk :: "nat option \<Rightarrow> string \<Rightarrow> kernel \<Rightarrow> fault + int \<times> kernel" where
  "eob_open_blk dev path k =
     (let (bdev, k) = open_blk_loop 50 (Blk_err (- ENXIO)) k in
      case bdev of
        Blk_err e \<Rightarrow> Inr (- e, k)
      | Blk_null \<Rightarrow> Inr (- EINVAL, k)
      | Blk disk \<Rightarrow>
          (case dev of None \<Rightarrow> Inr (- EINVAL, k)
           | Some d \<Rightarrow>
               (case disk of None \<Rightarrow> Inr (- EINVAL, k)
                | Some capacity \<Rightarrow>
                    bindr (c_deref (k_devs k d)) (\<lambda>self.
                    Inr (0, k\<lparr>k_devs := (k_devs k)(d \<mapsto>
                      self\<lparr>kd_path := take PATH_MAX_K path, kd_sectors := capacity, kd_bdev := Some bdev\<rparr>)\<rparr>)))))"

definition eob_close_fd :: "nat \<Rightarrow> kernel \<Rightarrow> fault + kernel" where
  "eob_close_fd d k =
     bindr (c_deref (k_devs k d)) (\<lambda>dev. bindr (c_deref (kd_fd dev)) (\<lambda>fd.
     bindr (guard UB (fd \<in> set (k_open_files k))) (\<lambda>_.
     Inr (k\<lparr>k_open_files := remove1 fd (k_open_files k)\<rparr>))))"

text \<open>\<open>blkdev_put\<close> on what \<open>eob_open_blk\<close> found: the device keeps the pointer, the references that the kernel
  counts are not part of the state.\<close>

definition eob_close_blk :: "nat \<Rightarrow> kernel \<Rightarrow> fault + kernel" where
  "eob_close_blk d k = bindr (c_deref (k_devs k d)) (\<lambda>dev. bindr (c_deref (kd_bdev dev)) (\<lambda>bdev. Inr k))"

text \<open>The module's end of a failed \<open>VERIFY\<close>: \<open>BUG_ON(0)\<close> does nothing, and the caller goes on.\<close>

definition eob_panic :: int where
  "eob_panic = 0"

text \<open>\<open>ndo_open\<close> and \<open>ndo_stop\<close> of the network device.\<close>

definition eob_net_device_open :: "nat \<Rightarrow> kernel \<Rightarrow> fault + int \<times> kernel" where
  "eob_net_device_open d k =
     bindr (eob_open_fd d k) (\<lambda>(result, k). if 0 \<noteq> result then Inr (- ENODEV, k) else Inr (0, k))"

definition eob_device_release :: "nat \<Rightarrow> kernel \<Rightarrow> fault + int \<times> kernel" where
  "eob_device_release d k = bindr (eob_close_fd d k) (\<lambda>k. Inr (0, k))"

text \<open>
  \<open>alloc_netdev\<close> stops the kernel (\<open>BUG_ON\<close>) when the name does not fit into \<open>IFNAMSIZ\<close> characters
  with its null byte; it runs the constructor, which clears the private part.
\<close>

definition IFNAMSIZ :: nat where [simp]: "IFNAMSIZ = 16"

definition eob_device_ctor :: eob_kdevice where
  "eob_device_ctor = \<lparr>kd_name = [], kd_path = [], kd_fd = None, kd_sectors = 0, kd_bdev = None\<rparr>"

definition eob_alloc_netdev :: "string \<Rightarrow> kernel \<Rightarrow> fault + nat option \<times> kernel" where
  "eob_alloc_netdev name k =
     bindr (guard Abort (length name < IFNAMSIZ)) (\<lambda>_.
     let (ok, k) = take_alloc k in
     Inr (if ok then (Some (k_next k), k\<lparr>k_next := Suc (k_next k), k_devs := (k_devs k)(k_next k \<mapsto> eob_device_ctor)\<rparr>)
      else (None, k)))"

definition free_netdev :: "nat \<Rightarrow> kernel \<Rightarrow> kernel" where
  "free_netdev d k = k\<lparr>k_devs := (k_devs k)(d := None)\<rparr>"

text \<open>
  \<open>eob_device_open(path, pname, pres)\<close>: the device is returned through \<open>pres\<close> on success.
\<close>

definition eob_device_open :: "string \<Rightarrow> string \<Rightarrow> kernel \<Rightarrow> fault + int \<times> nat option \<times> kernel" where
  "eob_device_open path pname k =
     bindr (eob_alloc_netdev pname k) (\<lambda>(ndev, k).
     case ndev of
        None \<Rightarrow> Inr (- ENODEV, None, k)
      | Some d \<Rightarrow>
          bindr (c_deref (k_devs k d)) (\<lambda>dev.
          bindr (c_strcpy PATH_MAX_K path) (\<lambda>path. bindr (c_strcpy 256 pname) (\<lambda>pname.
          let k = k\<lparr>k_devs := (k_devs k)(d \<mapsto> dev\<lparr>kd_path := path, kd_name := pname\<rparr>)\<rparr>;
            (result, k) = take_call k in
          if result \<noteq> 0 then Inr (- ENODEV, None, free_netdev d k) else Inr (0, Some d, k)))))"

text \<open>\<open>eob_device_close\<close> has an empty body; nobody reads the value it lacks.\<close>

definition eob_device_close :: "nat option \<Rightarrow> kernel \<Rightarrow> kernel" where
  "eob_device_close dev k = k"

definition add_eob_device_impl :: "string \<Rightarrow> int \<Rightarrow> kernel \<Rightarrow> fault + int \<times> nat option \<times> kernel" where
  "add_eob_device_impl path node_id k =
     bindr (eob_alloc_netdev ''eob%d'' k) (\<lambda>(ndev, k).
     case ndev of
        None \<Rightarrow> Inr (- ENODEV, None, k)
      | Some d \<Rightarrow>
          bindr (c_deref (k_devs k d)) (\<lambda>dev.
          bindr (c_strcpy PATH_MAX_K path) (\<lambda>path.
          let k = k\<lparr>k_devs := (k_devs k)(d \<mapsto> dev\<lparr>kd_path := path\<rparr>)\<rparr>; (result, k) = take_call k in
          if result \<noteq> 0 then Inr (- ENODEV, None, free_netdev d k) else Inr (0, Some d, k))))"

definition remove_eob_device_impl :: "nat \<Rightarrow> kernel \<Rightarrow> fault + int \<times> kernel" where
  "remove_eob_device_impl d k = bindr (c_deref (k_devs k d)) (\<lambda>_. Inr (0, free_netdev d k))"

section \<open>eoblock\_main.c\<close>

definition MAX_EOB_DEVICES :: nat where [simp]: "MAX_EOB_DEVICES = 32"

text \<open>The node id is an index into the array of devices, unchecked; the slot keeps its pointer after a removal.\<close>

definition remove_eob_device :: "int \<Rightarrow> kernel \<Rightarrow> fault + int \<times> kernel" where
  "remove_eob_device node_id k =
     bindr (c_deref (k_ctx k)) (\<lambda>devices.
     bindr (guard UB (0 \<le> node_id \<and> node_id < int MAX_EOB_DEVICES)) (\<lambda>_.
     bindr (c_deref (devices ! nat node_id)) (\<lambda>dev. remove_eob_device_impl dev k)))"

definition add_eob_device :: "string \<Rightarrow> int \<Rightarrow> kernel \<Rightarrow> fault + int \<times> kernel" where
  "add_eob_device path node_id k =
     bindr (c_deref (k_ctx k)) (\<lambda>devices.
     bindr (add_eob_device_impl path node_id k) (\<lambda>(rv, dev, k).
     if rv = 0 then
       bindr (guard UB (0 \<le> node_id \<and> node_id < int MAX_EOB_DEVICES)) (\<lambda>_.
       Inr (rv, k\<lparr>k_ctx := Some (devices[nat node_id := dev])\<rparr>))
     else Inr (rv, k)))"

end
