(* ===== verification/Eob_Text.thy ===== *)
theory Eob_Text
  imports Eob_Prelude
begin

text \<open>
  Numbers as text: what the program uses of \<open>printf\<close> (\<open>%d\<close>, \<open>%lu\<close>), \<open>atoi\<close> and
  \<open>inet_ntoa\<close>. Strings are lists of the characters before the null byte.
\<close>

fun dec_digits :: "nat \<Rightarrow> string" where
  "dec_digits n = (if n < 10 then [char_of (48 + n)] else dec_digits (n div 10) @ [char_of (48 + n mod 10)])"

declare dec_digits.simps [simp del]

definition dec_int :: "int \<Rightarrow> string" where
  "dec_int i = (if i < 0 then CHR ''-'' # dec_digits (nat (- i)) else dec_digits (nat i))"

text \<open>\<open>atoi\<close>: white space, a sign and the digits in front; undefined when the value is no \<open>int\<close>.\<close>

definition is_digit :: "char \<Rightarrow> bool" where
  "is_digit c \<longleftrightarrow> 48 \<le> (of_char c :: nat) \<and> (of_char c :: nat) \<le> 57"

definition digits_val :: "string \<Rightarrow> nat" where
  "digits_val s = fold (\<lambda>c n. 10 * n + (of_char c - 48)) s 0"

definition c_isspace :: "char \<Rightarrow> bool" where
  "c_isspace c \<longleftrightarrow> c \<in> {CHR '' '', CHR 0x09, CHR 0x0A, CHR 0x0B, CHR 0x0C, CHR 0x0D}"

definition c_atoi :: "string \<Rightarrow> fault + int" where
  "c_atoi s =
     (let s = dropWhile c_isspace s;
          neg = (s \<noteq> [] \<and> hd s = CHR ''-'');
          s = (if s \<noteq> [] \<and> hd s \<in> {CHR ''-'', CHR ''+''} then tl s else s);
          n = int (digits_val (takeWhile is_digit s))
      in c_int (if neg then - n else n))"

definition to_bytes :: "string \<Rightarrow> bytes" where
  "to_bytes s = map of_char s"

text \<open>\<open>inet_ntoa\<close>: the four bytes of the address as they lie in memory.\<close>

definition inet_ntoa :: "u32 \<Rightarrow> string" where
  "inet_ntoa a =
     (let b = map (\<lambda>x. dec_digits (unat x)) (le32 a)
      in b ! 0 @ ''.'' @ b ! 1 @ ''.'' @ b ! 2 @ ''.'' @ b ! 3)"

section \<open>Reading back what was printed\<close>

lemma digit_char: "n < 10 \<Longrightarrow> is_digit (char_of (48 + n)) \<and> of_char (char_of (48 + n :: nat) :: char) = 48 + n"
  by (simp add: is_digit_def)

lemma dec_digits_char: "c \<in> set (dec_digits n) \<Longrightarrow> is_digit c"
proof (induction n rule: dec_digits.induct)
  case (1 n)
  then show ?case using digit_char [of n] digit_char [of "n mod 10"]
    by (auto simp: dec_digits.simps [of n] split: if_splits)
qed

lemma digits_val_snoc: "digits_val (s @ [c]) = 10 * digits_val s + (of_char c - 48)"
  by (simp add: digits_val_def)

lemma digits_val_dec: "digits_val (dec_digits n) = n"
proof (induction n rule: dec_digits.induct)
  case (1 n)
  show ?case
  proof (cases "n < 10")
    case True
    then show ?thesis using digit_char [of n] by (simp add: dec_digits.simps [of n] digits_val_def)
  next
    case False
    have "digits_val (dec_digits n) = 10 * (n div 10) + n mod 10"
      using 1 [OF False] digit_char [of "n mod 10"] False by (simp add: dec_digits.simps [of n] digits_val_snoc)
    then show ?thesis by simp
  qed
qed

lemma dec_digits_ne [simp]: "dec_digits n \<noteq> []"
  by (simp add: dec_digits.simps [of n])

lemma atoi_dec: "n < 2 ^ 31 \<Longrightarrow> c_atoi (dec_digits n) = Inr (int n)"
proof -
  assume n: "n < 2 ^ 31"
  let ?s = "dec_digits n"
  have h: "is_digit (hd ?s)" using dec_digits_char [of "hd ?s" n] by simp
  then have "\<not> c_isspace (hd ?s)" "hd ?s \<noteq> CHR ''-''" "hd ?s \<noteq> CHR ''+''" by (auto simp: is_digit_def c_isspace_def)
  moreover have "dropWhile c_isspace ?s = ?s" using calculation by (cases ?s) auto
  moreover have "takeWhile is_digit ?s = ?s" using dec_digits_char by (simp add: takeWhile_eq_all_conv)
  then have "digits_val (takeWhile is_digit ?s) = n" by (simp only: digits_val_dec)
  moreover have "int n < 2 ^ 31" using n by simp
  ultimately show ?thesis by (simp add: c_atoi_def)
qed

end
