(* ===== verification/Kmod_Sysfs.thy ===== *)
theory Kmod_Sysfs
  imports Kmod_Device Eob_Text
begin

text \<open>
  The module's control files: \<open>src/modules/kmod/eoblock_sysfs.c\<close>, with the module's
  initialisation and exit of \<open>eoblock_main.c\<close>. Strings are lists of the characters before the
  null byte; a \<open>char *\<close> that moves through a buffer is the rest of it, and the null byte written
  at a delimiter cuts the part in front of it. \<open>isspace\<close> and \<open>kstrtoul\<close> are the kernel's:
  parameters.
\<close>

section \<open>Words and tokens\<close>

definition is_sep :: "(char \<Rightarrow> bool) \<Rightarrow> char \<Rightarrow> bool" where
  "is_sep isspace c \<longleftrightarrow> isspace c \<or> c = CHR ''=''"

definition eoblock_get_next_lexem :: "(char \<Rightarrow> bool) \<Rightarrow> string option \<Rightarrow> string \<times> string option" where
  "eoblock_get_next_lexem isspace token_str =
     (case token_str of
        None \<Rightarrow> ([], None)
      | Some s \<Rightarrow>
          (let p = dropWhile (is_sep isspace) s;
               q = dropWhile (\<lambda>c. \<not> is_sep isspace c) p
           in (takeWhile (\<lambda>c. \<not> is_sep isspace c) p, Some (if q \<noteq> [] then tl q else q))))"

definition is_end :: "char \<Rightarrow> bool" where
  "is_end c \<longleftrightarrow> c = CHR 0x0A \<or> c = CHR '';''"

text \<open>The result and the moved \<open>input_str\<close>.\<close>

definition eoblock_get_next_token_str :: "string \<Rightarrow> string option \<times> string" where
  "eoblock_get_next_token_str p =
     (let i = length (takeWhile (\<lambda>c. \<not> is_end c) p) in
      if i = 0 then (None, p)
      else (Some (take i p), if i = length p then drop i p else drop (i + 1) p))"

text \<open>\<open>strcasecmp(a, b) == 0\<close>.\<close>

definition to_lower :: "char \<Rightarrow> char" where
  "to_lower c = (if (65 :: nat) \<le> of_char c \<and> of_char c \<le> (90 :: nat) then char_of (of_char c + 32 :: nat) else c)"

definition strcasecmp_eq :: "string \<Rightarrow> string \<Rightarrow> bool" where
  "strcasecmp_eq a b \<longleftrightarrow> map to_lower a = map to_lower b"

section \<open>Interfaces\<close>

definition kfree :: "nat \<Rightarrow> kernel \<Rightarrow> kernel" where
  "kfree a k = k\<lparr>k_heap := (k_heap k)(a := None)\<rparr>"

definition kobject_del :: "nat \<Rightarrow> kernel \<Rightarrow> kernel" where
  "kobject_del a k = k\<lparr>k_heap := (k_heap k)(a := map_option (\<lambda>i. i\<lparr>if_kobj := False\<rparr>) (k_heap k a))\<rparr>"

text \<open>\<open>list_add_tail\<close> writes to the entry that was last.\<close>

definition list_add_tail :: "nat \<Rightarrow> kernel \<Rightarrow> fault + kernel" where
  "list_add_tail a k =
     bindr (guard UB (k_ifaces k \<noteq> [] \<longrightarrow> k_heap k (last (k_ifaces k)) \<noteq> None)) (\<lambda>_.
     Inr (k\<lparr>k_ifaces := k_ifaces k @ [a]\<rparr>))"

text \<open>\<open>list_del\<close> writes to the two neighbours.\<close>

definition list_del :: "nat \<Rightarrow> kernel \<Rightarrow> fault + kernel" where
  "list_del a k =
     (let before = takeWhile (\<lambda>x. x \<noteq> a) (k_ifaces k); behind = tl (dropWhile (\<lambda>x. x \<noteq> a) (k_ifaces k)) in
      bindr (guard UB ((before \<noteq> [] \<longrightarrow> k_heap k (last before) \<noteq> None) \<and> (behind \<noteq> [] \<longrightarrow> k_heap k (hd behind) \<noteq> None))) (\<lambda>_.
      Inr (k\<lparr>k_ifaces := before @ behind\<rparr>)))"

text \<open>The two labels: the second gives up the kobject and frees, both return \<open>res\<close>.\<close>

definition do_out_free :: "int \<Rightarrow> nat \<Rightarrow> kernel \<Rightarrow> fault + int \<times> kernel" where
  "do_out_free res a k = Inr (res, kfree a k)"

definition do_out_del_kobj :: "int \<Rightarrow> nat \<Rightarrow> kernel \<Rightarrow> fault + int \<times> kernel" where
  "do_out_del_kobj res a k = do_out_free res a (kobject_del a k)"

definition eoblock_add_iface_kobj :: "string \<Rightarrow> string \<Rightarrow> kernel \<Rightarrow> fault + int \<times> kernel" where
  "eoblock_add_iface_kobj iface_name device k =
     (let (ok, k) = take_alloc k in
      if \<not> ok then Inr (- ENOMEM, k)
      else
        let a = k_next k;
            k = k\<lparr>k_next := Suc a, k_heap := (k_heap k)(a \<mapsto> \<lparr>if_name = [], if_device_name = [], if_kobj = False, if_dev = None\<rparr>)\<rparr> in
        if length iface_name \<ge> 256 then do_out_free (- EINVAL) a k
        else if length device > 256 then do_out_free (- EINVAL) a k
        else
          bindr (c_strcpy 256 iface_name) (\<lambda>name. bindr (c_strcpy 256 device) (\<lambda>dev_name.
          let iface = \<lparr>if_name = name, if_device_name = dev_name, if_kobj = False, if_dev = None\<rparr>;
              k = k\<lparr>k_heap := (k_heap k)(a \<mapsto> iface)\<rparr>;
              (res, k) = take_call k in
          if res \<noteq> 0 then do_out_free res a k
          else
            let k = k\<lparr>k_heap := (k_heap k)(a \<mapsto> iface\<lparr>if_kobj := True\<rparr>)\<rparr>;
                (res, k) = take_call k in
            if res \<noteq> 0 then do_out_del_kobj res a k
            else
              bindr (list_add_tail a k) (\<lambda>k.
              bindr (eob_device_open device iface_name k) (\<lambda>(res, dev, k).
              if res \<noteq> 0 then do_out_del_kobj res a k
              else Inr (0, k\<lparr>k_heap := (k_heap k)(a \<mapsto> iface\<lparr>if_kobj := True, if_dev := dev\<rparr>)\<rparr>))))))"

text \<open>The parameter loop: the name of the device in the parameters, or an error.\<close>

lemma next_token_shorter: "eoblock_get_next_token_str s = (Some t, r) \<Longrightarrow> length r < length s"
  by (cases s) (auto simp: eoblock_get_next_token_str_def Let_def split: if_splits)

function add_iface_params :: "(char \<Rightarrow> bool) \<Rightarrow> string \<Rightarrow> string option \<Rightarrow> int + string option" where
  "add_iface_params isspace params dev_name =
     (case eoblock_get_next_token_str params of
        (None, _) \<Rightarrow> Inr dev_name
      | (Some param, params) \<Rightarrow>
          let (p, rest) = eoblock_get_next_lexem isspace (Some param) in
          if p = [] then Inl (- EINVAL)
          else
            let (pp, rest) = eoblock_get_next_lexem isspace rest in
            if pp = [] then Inl (- EINVAL)
            else if fst (eoblock_get_next_lexem isspace rest) \<noteq> [] then Inl (- EINVAL)
            else if strcasecmp_eq ''dev'' p then add_iface_params isspace params (Some pp)
            else Inl (- EINVAL))"
  by pat_completeness auto
termination
  by (relation "measure (\<lambda>(_, s, _). length s)") (auto dest!: sym [THEN next_token_shorter])

declare add_iface_params.simps [simp del]

definition eoblock_add_iface :: "(char \<Rightarrow> bool) \<Rightarrow> string \<Rightarrow> string \<Rightarrow> kernel \<Rightarrow> fault + int \<times> kernel" where
  "eoblock_add_iface isspace iface_name params k =
     (case add_iface_params isspace params None of
        Inl res \<Rightarrow> Inr (res, k)
      | Inr None \<Rightarrow> Inr (- EINVAL, k)
      | Inr (Some dev_name) \<Rightarrow> eoblock_add_iface_kobj iface_name dev_name k)"

primrec find_iface :: "string \<Rightarrow> nat list \<Rightarrow> kernel \<Rightarrow> fault + nat option" where
  "find_iface name [] k = Inr None"
| "find_iface name (a # as) k =
     bindr (c_deref (k_heap k a)) (\<lambda>iface. if if_name iface = name then Inr (Some a) else find_iface name as k)"

definition eoblock_remove_iface :: "string \<Rightarrow> kernel \<Rightarrow> fault + int \<times> kernel" where
  "eoblock_remove_iface name k =
     bindr (find_iface name (k_ifaces k) k) (\<lambda>found.
     case found of
       None \<Rightarrow> Inr (- ENOENT, k)
     | Some a \<Rightarrow>
         bindr (c_deref (k_heap k a)) (\<lambda>iface.
         let k = eob_device_close (if_dev iface) k in
         bindr (list_del a k) (\<lambda>k. Inr (0, kfree a (kobject_del a k)))))"

section \<open>Control files\<close>

definition eoblock_iface_mgmt_cb :: "(char \<Rightarrow> bool) \<Rightarrow> string \<Rightarrow> kernel \<Rightarrow> fault + int \<times> kernel" where
  "eoblock_iface_mgmt_cb isspace buffer k =
     (let (p, pp) = eoblock_get_next_lexem isspace (Some buffer) in
      if strcasecmp_eq ''add'' p then
        let (iface_name, pp) = eoblock_get_next_lexem isspace pp in
        if iface_name = [] then Inr (- EINVAL, k)
        else bindr (c_deref pp) (\<lambda>pp. eoblock_add_iface isspace iface_name pp k)
      else if strcasecmp_eq ''del'' p then
        let (iface_name, pp) = eoblock_get_next_lexem isspace pp in
        if iface_name = [] then Inr (- EINVAL, k)
        else
          let (p, pp) = eoblock_get_next_lexem isspace pp in
          if p \<noteq> [] then Inr (- EINVAL, k)
          else eoblock_remove_iface iface_name k
      else Inr (- EINVAL, k))"

text \<open>\<open>kasprintf\<close> with \<open>%.*s\<close> copies up to \<open>count\<close> characters and stops at a null byte.\<close>

definition eoblock_iface_mgmt_store :: "(char \<Rightarrow> bool) \<Rightarrow> string \<Rightarrow> nat \<Rightarrow> kernel \<Rightarrow> fault + int \<times> kernel" where
  "eoblock_iface_mgmt_store isspace buf count k =
     (let (ok, k) = take_alloc k in
      if \<not> ok then Inr (- ENOMEM, k)
      else
        bindr (eoblock_iface_mgmt_cb isspace (takeWhile (\<lambda>c. c \<noteq> CHR 0x00) (take count buf)) k) (\<lambda>(res, k).
        Inr (if res = 0 then int count else res, k)))"

definition eoblock_iface_mgmt_show :: string where
  "eoblock_iface_mgmt_show =
     ''Usage: echo '' @ [CHR 0x22] @ ''add iface_name <device, partition, file>'' @ [CHR 0x22] @ '' >mgmt'' @ [CHR 0x0A] @
     ''       echo '' @ [CHR 0x22] @ ''del iface_name'' @ [CHR 0x22] @ '' >mgmt'' @ [CHR 0x0A]"

definition eoblock_setup_id_store :: "(string \<Rightarrow> int + u64) \<Rightarrow> string \<Rightarrow> nat \<Rightarrow> kernel \<Rightarrow> int \<times> kernel" where
  "eoblock_setup_id_store kstrtoul buf count k =
     (case kstrtoul buf of
        Inl res \<Rightarrow> (res, k)
      | Inr val \<Rightarrow> (int count, k\<lparr>k_setup_id := ucast val\<rparr>))"

definition eoblock_setup_id_show :: "kernel \<Rightarrow> string" where
  "eoblock_setup_id_show k = dec_int (sint (k_setup_id k)) @ [CHR 0x0A]"

definition eoblock_iface_dev_name_show :: "nat \<Rightarrow> kernel \<Rightarrow> fault + string" where
  "eoblock_iface_dev_name_show a k =
     bindr (c_deref (k_heap k a)) (\<lambda>iface. Inr (if_device_name iface @ [CHR 0x0A]))"

text \<open>The files of the module and the dispatch of the two operations on them.\<close>

datatype attr = Setup_id | Mgmt | Dev_name nat

fun eoblock_show :: "attr \<Rightarrow> kernel \<Rightarrow> fault + string" where
  "eoblock_show Setup_id k = Inr (eoblock_setup_id_show k)"
| "eoblock_show Mgmt k = Inr eoblock_iface_mgmt_show"
| "eoblock_show (Dev_name a) k = eoblock_iface_dev_name_show a k"

fun eoblock_store :: "(char \<Rightarrow> bool) \<Rightarrow> (string \<Rightarrow> int + u64) \<Rightarrow> attr \<Rightarrow> string \<Rightarrow> nat \<Rightarrow> kernel \<Rightarrow> fault + int \<times> kernel" where
  "eoblock_store isspace kstrtoul Setup_id buf count k = Inr (eoblock_setup_id_store kstrtoul buf count k)"
| "eoblock_store isspace kstrtoul Mgmt buf count k = eoblock_iface_mgmt_store isspace buf count k"
| "eoblock_store isspace kstrtoul (Dev_name a) buf count k = Inr (- EIO, k)"

section \<open>Loading and unloading\<close>

definition eoblock_sysfs_init :: "kernel \<Rightarrow> int \<times> kernel" where
  "eoblock_sysfs_init k =
     (let (res, k) = take_call k in
      if res \<noteq> 0 then (res, k)
      else
        let k = k\<lparr>k_root := True\<rparr>; (ok, k) = take_alloc k in
        if \<not> ok then (- EINVAL, k\<lparr>k_root := False\<rparr>)
        else (res, k\<lparr>k_ifaces_kobj := True\<rparr>))"

definition eoblock_sysfs_cleanup :: "kernel \<Rightarrow> kernel" where
  "eoblock_sysfs_cleanup k = k\<lparr>k_ifaces_kobj := False, k_root := False\<rparr>"

text \<open>A failure of the control files leaves the context allocated; the exit frees nothing else.\<close>

definition oeblock_init :: "kernel \<Rightarrow> int \<times> kernel" where
  "oeblock_init k =
     (let (ok, k) = take_alloc k in
      if \<not> ok then (- ENOMEM, k\<lparr>k_ctx := None\<rparr>)
      else eoblock_sysfs_init (k\<lparr>k_ctx := Some (replicate MAX_EOB_DEVICES None)\<rparr>))"

definition oeblock_exit :: "kernel \<Rightarrow> kernel" where
  "oeblock_exit k = (eoblock_sysfs_cleanup k)\<lparr>k_ctx := None\<rparr>"

end
