(* ===== verification/Kmod_Spec.thy ===== *)
theory Kmod_Spec
  imports Kmod_Sysfs
begin

text \<open>
  What the control files of the kernel module keep: the invariant of the table of interfaces,
  how commands are cut into words, and what the operations on interfaces do.
\<close>

section \<open>The invariant\<close>

definition iface_ok :: "kernel \<Rightarrow> eoblock_iface_base \<Rightarrow> bool" where
  "iface_ok k i \<longleftrightarrow> length (if_name i) < IFNAMSIZ \<and> length (if_device_name i) < 256 \<and> if_kobj i \<and>
     (\<exists>d dev. if_dev i = Some d \<and> k_devs k d = Some dev \<and> kd_name dev = if_name i \<and> kd_path dev = if_device_name i)"

text \<open>The allocated interfaces are those on the list, each with its network device.\<close>

definition kinv :: "kernel \<Rightarrow> bool" where
  "kinv k \<longleftrightarrow> distinct (k_ifaces k) \<and> dom (k_heap k) = set (k_ifaces k) \<and>
     (\<forall>a i. k_heap k a = Some i \<longrightarrow> iface_ok k i) \<and>
     (\<forall>a\<ge>k_next k. k_heap k a = None \<and> k_devs k a = None)"

lemma kinvD:
  assumes "kinv k"
  shows "distinct (k_ifaces k)" and "a \<in> set (k_ifaces k) \<longleftrightarrow> k_heap k a \<noteq> None"
    and "k_heap k a = Some i \<Longrightarrow> iface_ok k i" and "k_next k \<le> a \<Longrightarrow> k_heap k a = None" and "k_next k \<le> a \<Longrightarrow> k_devs k a = None"
  using assms by (auto simp: kinv_def dom_def)

lemma iface_ok_more:
  "iface_ok k i \<Longrightarrow> k_devs k' = (k_devs k)(d \<mapsto> dev) \<Longrightarrow> k_devs k d = None \<Longrightarrow> iface_ok k' i"
  unfolding iface_ok_def by (metis fun_upd_other option.distinct(1))

text \<open>Steps that leave the table alone.\<close>

definition same_table :: "kernel \<Rightarrow> kernel \<Rightarrow> bool" where
  "same_table k k' \<longleftrightarrow> k_heap k' = k_heap k \<and> k_ifaces k' = k_ifaces k \<and> k_next k \<le> k_next k' \<and>
     (\<forall>a. k_devs k a \<noteq> None \<longrightarrow> k_devs k' a = k_devs k a) \<and> (\<forall>a\<ge>k_next k'. k_devs k' a = None)"

lemma kinv_same: "kinv k \<Longrightarrow> same_table k k' \<Longrightarrow> kinv k'"
proof -
  assume K: "kinv k" and S: "same_table k k'"
  have "iface_ok k' i" if "iface_ok k i" for i using that S unfolding iface_ok_def same_table_def by fastforce
  then show "kinv k'" using K S by (auto simp: kinv_def same_table_def)
qed

lemma take_alloc_same: "take_alloc k = (ok, k') \<Longrightarrow> kinv k \<Longrightarrow> same_table k k'"
  by (auto simp: same_table_def kinv_def split: list.splits)

lemma take_call_same: "take_call k = (r, k') \<Longrightarrow> kinv k \<Longrightarrow> same_table k k'"
  by (auto simp: same_table_def kinv_def split: list.splits)

section \<open>Opening a device\<close>

lemma device_open_ok:
  assumes "length path < 256" and "length pname < 16" and new: "\<forall>a\<ge>k_next k. k_devs k a = None"
  shows "\<exists>res dev k'. eob_device_open path pname k = Inr (res, dev, k') \<and> k_heap k' = k_heap k \<and> k_ifaces k' = k_ifaces k \<and>
    k_next k \<le> k_next k' \<and> (\<forall>a\<ge>k_next k'. k_devs k' a = None) \<and>
    (res = 0 \<and> dev = Some (k_next k) \<and>
       k_devs k' = (k_devs k)(k_next k \<mapsto> eob_device_ctor\<lparr>kd_path := path, kd_name := pname\<rparr>) \<or>
     res = - ENODEV \<and> dev = None \<and> k_devs k' = k_devs k)"
proof -
  obtain ok k1 where a: "take_alloc k = (ok, k1)" by fastforce
  then have k1: "k_heap k1 = k_heap k" "k_ifaces k1 = k_ifaces k" "k_next k1 = k_next k" "k_devs k1 = k_devs k"
    by (auto split: list.splits)
  show ?thesis
  proof (cases ok)
    case False
    then have "eob_device_open path pname k = Inr (- ENODEV, None, k1)"
      using a assms(2) by (simp add: eob_device_open_def eob_alloc_netdev_def del: take_alloc.simps)
    then show ?thesis using k1 new by auto
  next
    case True
    let ?d = "k_next k" and ?dev = "eob_device_ctor\<lparr>kd_path := path, kd_name := pname\<rparr>"
    let ?k2 = "k1\<lparr>k_next := Suc ?d, k_devs := (k_devs k)(?d \<mapsto> ?dev)\<rparr>"
    obtain r k3 where c: "take_call ?k2 = (r, k3)" by fastforce
    then have k3: "k_heap k3 = k_heap k" "k_ifaces k3 = k_ifaces k" "k_next k3 = Suc ?d" "k_devs k3 = (k_devs k)(?d \<mapsto> ?dev)"
      using k1 by (auto split: list.splits)
    have "eob_device_open path pname k = (if r \<noteq> 0 then Inr (- ENODEV, None, free_netdev ?d k3) else Inr (0, Some ?d, k3))"
      using a True assms(1,2) k1 c
      by (simp add: eob_device_open_def eob_alloc_netdev_def c_strcpy_def PATH_MAX_K_def del: take_alloc.simps take_call.simps)
    moreover have "k_devs (free_netdev ?d k3) = k_devs k" using k3 new by (auto simp: free_netdev_def fun_eq_iff)
    ultimately show ?thesis using k3 new by (auto simp: free_netdev_def)
  qed
qed

section \<open>Adding an interface\<close>

text \<open>A new object that is not on the list.\<close>

definition pending :: "kernel \<Rightarrow> kernel \<Rightarrow> eoblock_iface_base \<Rightarrow> bool" where
  "pending k k' i \<longleftrightarrow> k_heap k' = (k_heap k)(k_next k \<mapsto> i) \<and> k_ifaces k' = k_ifaces k \<and> k_next k' = Suc (k_next k) \<and>
     k_devs k' = k_devs k"

lemma pending_free:
  assumes "kinv k" and "pending k k' i"
  shows "same_table k (kfree (k_next k) k')" and "same_table k (kfree (k_next k) (kobject_del (k_next k) k'))"
  using assms kinvD(4) [OF assms(1) order_refl] kinvD(5) [OF assms(1)]
  by (auto simp: same_table_def pending_def kfree_def kobject_del_def fun_eq_iff)

lemma pending_call: "pending k k1 i \<Longrightarrow> take_call k1 = (r, k2) \<Longrightarrow> pending k k2 i"
  by (auto simp: pending_def split: list.splits)

lemma list_add_tail_inv: "kinv k \<Longrightarrow> pending k k' i \<Longrightarrow> list_add_tail (k_next k) k' = Inr (k'\<lparr>k_ifaces := k_ifaces k @ [k_next k]\<rparr>)"
  using kinvD(2) [of k "last (k_ifaces k)"] last_in_set [of "k_ifaces k"] by (cases "k_ifaces k = []") (auto simp: list_add_tail_def pending_def)

text \<open>How far an addition gets: refused with the table unchanged, or the opening of the device decides.\<close>

definition new_iface :: "string \<Rightarrow> string \<Rightarrow> eoblock_iface_base" where
  "new_iface name device = \<lparr>if_name = name, if_device_name = device, if_kobj = True, if_dev = None\<rparr>"

definition try_open :: "string \<Rightarrow> string \<Rightarrow> nat \<Rightarrow> kernel \<Rightarrow> fault + int \<times> kernel" where
  "try_open name device a k =
     bindr (eob_device_open device name k) (\<lambda>(res, dev, k).
       if res \<noteq> 0 then do_out_del_kobj res a k
       else Inr (0, k\<lparr>k_heap := (k_heap k)(a \<mapsto> (new_iface name device)\<lparr>if_dev := dev\<rparr>)\<rparr>))"

lemma add_kobj_cases:
  assumes K: "kinv k"
  shows "(eoblock_add_iface_kobj name device k = Inl UB \<and> length name < 256 \<and> length device = 256) \<or>
    (\<exists>res k'. eoblock_add_iface_kobj name device k = Inr (res, k') \<and> same_table k k' \<and> res \<noteq> 0) \<or>
    (\<exists>k'. eoblock_add_iface_kobj name device k = try_open name device (k_next k) (k'\<lparr>k_ifaces := k_ifaces k @ [k_next k]\<rparr>) \<and>
      pending k k' (new_iface name device) \<and> length name < 256 \<and> length device < 256)"
proof -
  obtain ok k1 where a: "take_alloc k = (ok, k1)" by fastforce
  have S1: "same_table k k1" and n1: "k_next k1 = k_next k" "k_heap k1 = k_heap k" "k_devs k1 = k_devs k" "k_ifaces k1 = k_ifaces k"
    using take_alloc_same [OF a K] a by (auto split: list.splits)
  let ?a = "k_next k"
  define k2 where "k2 i = k1\<lparr>k_next := Suc ?a, k_heap := (k_heap k)(?a \<mapsto> i)\<rparr>" for i
  have p2: "pending k (k2 i) i" for i using n1 by (simp add: pending_def k2_def)
  consider (full) "ok" "length name < 256" "length device = 256" | (1) "\<not> ok" | (2) "ok" "length name \<ge> 256 \<or> length device > 256"
    | (3) "ok" "length name < 256" "length device < 256" by linarith
  then show ?thesis
  proof cases
    case full
    then have "eoblock_add_iface_kobj name device k = Inl UB"
      using a by (simp add: eoblock_add_iface_kobj_def c_strcpy_def Let_def del: take_alloc.simps take_call.simps)
    then show ?thesis using full by blast
  next
    case 1
    then show ?thesis using a S1 by (simp add: eoblock_add_iface_kobj_def del: take_alloc.simps)
  next
    case 2
    then have "eoblock_add_iface_kobj name device k = Inr (- EINVAL, kfree ?a (k2 \<lparr>if_name = [], if_device_name = [], if_kobj = False, if_dev = None\<rparr>))"
      using a n1 by (cases "256 \<le> length name") (simp_all add: eoblock_add_iface_kobj_def do_out_free_def k2_def Let_def del: take_alloc.simps)
    then show ?thesis using pending_free(1) [OF K p2] by auto
  next
    case 3
    let ?i = "\<lparr>if_name = name, if_device_name = device, if_kobj = False, if_dev = None\<rparr>"
    obtain r1 k3 where c1: "take_call (k2 ?i) = (r1, k3)" by fastforce
    have p3: "pending k k3 ?i" by (rule pending_call [OF p2 c1])
    let ?k4 = "k3\<lparr>k_heap := (k_heap k3)(?a \<mapsto> new_iface name device)\<rparr>"
    have p4: "pending k ?k4 (new_iface name device)" using p3 by (simp add: pending_def)
    obtain r2 k5 where c2: "take_call ?k4 = (r2, k5)" by fastforce
    have p5: "pending k k5 (new_iface name device)" by (rule pending_call [OF p4 c2])
    have run: "eoblock_add_iface_kobj name device k =
        (if r1 \<noteq> 0 then do_out_free r1 ?a k3
         else if r2 \<noteq> 0 then do_out_del_kobj r2 ?a k5
         else try_open name device ?a (k5\<lparr>k_ifaces := k_ifaces k @ [?a]\<rparr>))"
      using a n1 3 c1 c2 list_add_tail_inv [OF K p5]
      by (simp add: eoblock_add_iface_kobj_def c_strcpy_def k2_def new_iface_def try_open_def Let_def
          del: take_alloc.simps take_call.simps)
        (simp only: new_iface_def n1 eoblock_iface_base.update_convs simp_thms)
    show ?thesis
      using run pending_free [OF K p3] pending_free [OF K p5] p5 3(2,3) by (auto simp: do_out_free_def do_out_del_kobj_def)
  qed
qed

lemma try_open_inv:
  assumes K: "kinv k" and P: "pending k k' (new_iface name device)" and l: "length name < 16" "length device < 256"
  shows "\<exists>res k''. try_open name device (k_next k) (k'\<lparr>k_ifaces := k_ifaces k @ [k_next k]\<rparr>) = Inr (res, k'') \<and>
    k_ifaces k'' = k_ifaces k @ [k_next k] \<and>
    (res = 0 \<and> kinv k'' \<and> k_heap k'' = (k_heap k)(k_next k \<mapsto> (new_iface name device)\<lparr>if_dev := Some (Suc (k_next k))\<rparr>) \<and>
       k_devs k'' = (k_devs k)(Suc (k_next k) \<mapsto> eob_device_ctor\<lparr>kd_path := device, kd_name := name\<rparr>) \<or>
     res = - ENODEV \<and> k_heap k'' = k_heap k)"
proof -
  let ?a = "k_next k" and ?k1 = "k'\<lparr>k_ifaces := k_ifaces k @ [k_next k]\<rparr>"
  have k1: "k_heap ?k1 = (k_heap k)(?a \<mapsto> new_iface name device)" "k_next ?k1 = Suc ?a" "k_devs ?k1 = k_devs k"
    "k_ifaces ?k1 = k_ifaces k @ [?a]" using P by (simp_all add: pending_def)
  have new: "\<forall>b\<ge>k_next ?k1. k_devs ?k1 b = None" using k1 kinvD(5) [OF K] by simp
  obtain res dev k2 where o: "eob_device_open device name ?k1 = Inr (res, dev, k2)" "k_heap k2 = k_heap ?k1" "k_ifaces k2 = k_ifaces ?k1"
    "k_next ?k1 \<le> k_next k2" "\<forall>b\<ge>k_next k2. k_devs k2 b = None"
    and r: "res = 0 \<and> dev = Some (k_next ?k1) \<and> k_devs k2 = (k_devs ?k1)(k_next ?k1 \<mapsto> eob_device_ctor\<lparr>kd_path := device, kd_name := name\<rparr>) \<or>
      res = - ENODEV \<and> dev = None \<and> k_devs k2 = k_devs ?k1"
    using device_open_ok [OF l(2,1) new] by blast
  have a: "k_heap k ?a = None" using kinvD(4) [OF K order_refl] .
  show ?thesis
  proof (cases "res = 0")
    case False
    then have "try_open name device ?a ?k1 = Inr (- ENODEV, kfree ?a (kobject_del ?a k2))"
      using o(1) r by (auto simp: try_open_def do_out_del_kobj_def do_out_free_def)
    moreover have "k_heap (kfree ?a (kobject_del ?a k2)) = k_heap k"
      using o(2) k1(1) a by (simp add: kfree_def kobject_del_def fun_upd_idem)
    moreover have "k_ifaces (kfree ?a (kobject_del ?a k2)) = k_ifaces k @ [?a]" using o(3) k1 by (simp add: kfree_def kobject_del_def)
    ultimately show ?thesis by blast
  next
    case True
    let ?i = "(new_iface name device)\<lparr>if_dev := Some (Suc ?a)\<rparr>" and ?d = "eob_device_ctor\<lparr>kd_path := device, kd_name := name\<rparr>"
    let ?k3 = "k2\<lparr>k_heap := (k_heap k2)(?a \<mapsto> ?i)\<rparr>"
    have D: "dev = Some (Suc ?a)" and devs: "k_devs k2 = (k_devs k)(Suc ?a \<mapsto> ?d)" using r True k1(2,3) by auto
    then have run: "try_open name device ?a ?k1 = Inr (0, ?k3)" using o(1) True by (simp add: try_open_def)
    have heap: "k_heap ?k3 = (k_heap k)(?a \<mapsto> ?i)" using o(2) k1(1) by simp
    have "iface_ok ?k3 ?i" using l devs by (simp add: iface_ok_def new_iface_def eob_device_ctor_def)
    moreover have "iface_ok ?k3 i" if "k_heap k b = Some i" for b i
      using iface_ok_more [OF kinvD(3) [OF K that], of ?k3 "Suc ?a" ?d] devs kinvD(5) [OF K, of "Suc ?a"] by simp
    moreover have "distinct (k_ifaces k @ [?a])" using kinvD(1,2) [OF K] a by auto
    moreover have "dom (k_heap ?k3) = set (k_ifaces k @ [?a])" using K unfolding heap by (auto simp: kinv_def)
    moreover have "k_next ?k1 \<le> b \<Longrightarrow> k_heap ?k3 b = None" for b using kinvD(4) [OF K, of b] k1(2) unfolding heap by auto
    ultimately have "kinv ?k3"
      unfolding kinv_def using o(3,4,5) k1(2,4) heap by (auto split: if_splits)
    then show ?thesis using run heap devs o(3) k1(4) True by auto
  qed
qed

text \<open>A name that is too long for a network device stops the kernel.\<close>

lemma try_open_long: "16 \<le> length name \<Longrightarrow> try_open name device a k = Inl Abort"
  by (simp add: try_open_def eob_device_open_def eob_alloc_netdev_def)

section \<open>Removing an interface\<close>

definition named :: "kernel \<Rightarrow> string \<Rightarrow> nat \<Rightarrow> bool" where
  "named k name a \<longleftrightarrow> (case k_heap k a of None \<Rightarrow> False | Some i \<Rightarrow> if_name i = name)"

lemma find_iface_live: "\<forall>a\<in>set as. k_heap k a \<noteq> None \<Longrightarrow> find_iface name as k = Inr (List.find (named k name) as)"
  by (induction as) (auto simp: named_def)

text \<open>The traversal reaches every entry in front of the first with the name: a freed one is read.\<close>

lemma find_iface_dead:
  "\<forall>a\<in>set as. k_heap k a \<noteq> None \<and> \<not> named k name a \<Longrightarrow> k_heap k b = None \<Longrightarrow> find_iface name (as @ b # bs) k = Inl UB"
  by (induction as) (auto simp: named_def)

lemma list_del_live:
  assumes "k_ifaces k = A @ a # B" and "a \<notin> set A" and "\<forall>b\<in>set A \<union> set B. k_heap k b \<noteq> None"
  shows "list_del a k = Inr (k\<lparr>k_ifaces := A @ B\<rparr>)"
proof -
  have "takeWhile (\<lambda>x. x \<noteq> a) (A @ a # B) = A" "dropWhile (\<lambda>x. x \<noteq> a) (A @ a # B) = a # B"
    using assms(2) by (induction A) auto
  then show ?thesis using assms(1,3) by (simp add: list_del_def)
qed

lemma find_none: "\<forall>x\<in>set xs. \<not> P x \<Longrightarrow> List.find P xs = None"
  by (induction xs) auto

lemma find_first: "P x \<Longrightarrow> \<forall>y\<in>set A. \<not> P y \<Longrightarrow> List.find P (A @ x # B) = Some x"
  by (induction A) auto

lemma remove_absent: "kinv k \<Longrightarrow> \<forall>a\<in>set (k_ifaces k). \<not> named k name a \<Longrightarrow> eoblock_remove_iface name k = Inr (- ENOENT, k)"
  using find_iface_live [of "k_ifaces k" k name] kinvD(2) [of k] find_none [of "k_ifaces k" "named k name"]
  by (auto simp: eoblock_remove_iface_def)

lemma remove_present:
  assumes K: "kinv k" and l: "k_ifaces k = A @ a # B" and n: "named k name a" and A: "\<forall>b\<in>set A. \<not> named k name b"
  shows "\<exists>k'. eoblock_remove_iface name k = Inr (0, k') \<and> kinv k' \<and> k_ifaces k' = A @ B \<and> k_heap k' = (k_heap k)(a := None) \<and>
    k_devs k' = k_devs k \<and> k_allocs k' = k_allocs k \<and> k_calls k' = k_calls k"
proof -
  have live: "\<forall>b\<in>set (k_ifaces k). k_heap k b \<noteq> None" using kinvD(2) [OF K] by blast
  have d: "a \<notin> set A" "a \<notin> set B" using kinvD(1) [OF K] l by auto
  obtain i where i: "k_heap k a = Some i" using live l by auto
  have "List.find (named k name) (k_ifaces k) = Some a" using find_first [of "named k name" a A B] l n A by simp
  then have f: "find_iface name (k_ifaces k) k = Inr (Some a)" using find_iface_live [OF live] by simp
  have del: "list_del a k = Inr (k\<lparr>k_ifaces := A @ B\<rparr>)" by (rule list_del_live [OF l d(1)]) (use live l in auto)
  let ?k = "kfree a (kobject_del a (k\<lparr>k_ifaces := A @ B\<rparr>))"
  have run: "eoblock_remove_iface name k = Inr (0, ?k)"
    using f i del by (simp add: eoblock_remove_iface_def eob_device_close_def)
  have h: "k_heap ?k = (k_heap k)(a := None)" by (simp add: kfree_def kobject_del_def)
  have o: "k_ifaces ?k = A @ B" "k_devs ?k = k_devs k" "k_next ?k = k_next k" "k_allocs ?k = k_allocs k" "k_calls ?k = k_calls k"
    by (simp_all add: kfree_def kobject_del_def)
  have "dom (k_heap ?k) = set (A @ B)" using K l d unfolding h by (auto simp: kinv_def)
  moreover have "iface_ok ?k j" if "k_heap ?k b = Some j" for b j
    using that kinvD(3) [OF K, of b j] o(2) unfolding h iface_ok_def by (auto split: if_splits)
  moreover have "distinct (A @ B)" using kinvD(1) [OF K] l by simp
  moreover have "k_next k \<le> b \<Longrightarrow> k_heap ?k b = None \<and> k_devs ?k b = None" for b
    using kinvD(4,5) [OF K, of b] o(2) unfolding h by simp
  ultimately have "kinv ?k" unfolding kinv_def o by blast
  then show ?thesis using run h o by blast
qed

section \<open>Cutting commands into words\<close>

text \<open>A word: not empty, without separators.\<close>

definition word_of :: "(char \<Rightarrow> bool) \<Rightarrow> string \<Rightarrow> bool" where
  "word_of isspace s \<longleftrightarrow> s \<noteq> [] \<and> (\<forall>c\<in>set s. \<not> is_sep isspace c)"

lemma next_lexem_word:
  assumes "word_of isspace w" and "s = [] \<or> is_sep isspace (hd s)"
  shows "eoblock_get_next_lexem isspace (Some (w @ s)) = (w, Some (tl s))"
proof -
  have "dropWhile (is_sep isspace) (w @ s) = w @ s" using assms(1) by (cases w) (auto simp: word_of_def)
  moreover have "takeWhile (\<lambda>c. \<not> is_sep isspace c) (w @ s) = w" "dropWhile (\<lambda>c. \<not> is_sep isspace c) (w @ s) = s"
    using assms by (cases s; auto simp: word_of_def takeWhile_append dropWhile_append takeWhile_eq_all_conv)+
  ultimately show ?thesis unfolding eoblock_get_next_lexem_def Let_def option.case by (simp only: if_cancel) (cases s; simp)
qed

lemma next_lexem_none: "\<forall>c\<in>set s. is_sep isspace c \<Longrightarrow> fst (eoblock_get_next_lexem isspace (Some s)) = []"
  by (induction s) (auto simp: eoblock_get_next_lexem_def Let_def)

lemma next_lexem_length: "eoblock_get_next_lexem isspace (Some s) = (w, Some r) \<Longrightarrow> length w + length r \<le> length s"
  using arg_cong [OF takeWhile_dropWhile_id [of "\<lambda>c. \<not> is_sep isspace c" "dropWhile (is_sep isspace) s"], of length]
    length_dropWhile_le [of "is_sep isspace" s]
  by (auto simp: eoblock_get_next_lexem_def Let_def split: if_splits)

lemma next_lexem_Some: "\<exists>w r. eoblock_get_next_lexem isspace (Some s) = (w, Some r)"
  by (simp add: eoblock_get_next_lexem_def Let_def)

text \<open>The result of an addition whose calls to the kernel all succeed.\<close>

definition added :: "string \<Rightarrow> string \<Rightarrow> kernel \<Rightarrow> kernel" where
  "added name device k = k\<lparr>k_next := k_next k + 2,
     k_heap := (k_heap k)(k_next k \<mapsto> \<lparr>if_name = name, if_device_name = device, if_kobj = True, if_dev = Some (k_next k + 1)\<rparr>),
     k_ifaces := k_ifaces k @ [k_next k],
     k_devs := (k_devs k)(k_next k + 1 \<mapsto> \<lparr>kd_name = name, kd_path = device, kd_fd = None, kd_sectors = 0, kd_bdev = None\<rparr>)\<rparr>"

text \<open>A kernel that refuses nothing.\<close>

definition willing :: "kernel \<Rightarrow> bool" where
  "willing k \<longleftrightarrow> k_allocs k = [] \<and> k_calls k = []"

lemma add_kobj_opens:
  assumes K: "kinv k" and W: "willing k" and l: "length name < 256" "length device < 256"
  shows "eoblock_add_iface_kobj name device k = try_open name device (k_next k)
    (k\<lparr>k_next := Suc (k_next k), k_heap := (k_heap k)(k_next k \<mapsto> new_iface name device), k_ifaces := k_ifaces k @ [k_next k]\<rparr>)"
proof -
  let ?a = "k_next k"
  let ?k1 = "k\<lparr>k_next := Suc ?a, k_heap := (k_heap k)(?a \<mapsto> new_iface name device)\<rparr>"
  have P: "pending k ?k1 (new_iface name device)" by (simp add: pending_def)
  have W1: "k_allocs k = []" "k_calls k = []" using W by (simp_all add: willing_def)
  show ?thesis
    using W1 l list_add_tail_inv [OF K P]
    by (simp add: eoblock_add_iface_kobj_def c_strcpy_def try_open_def Let_def new_iface_def)
      (simp only: new_iface_def eoblock_iface_base.update_convs)
qed

lemma add_kobj_willing:
  assumes K: "kinv k" and W: "willing k" and l: "length name < 16" "length device < 256"
  shows "eoblock_add_iface_kobj name device k = Inr (0, added name device k)" and "kinv (added name device k)"
proof -
  let ?a = "k_next k"
  let ?k1 = "k\<lparr>k_next := Suc ?a, k_heap := (k_heap k)(?a \<mapsto> new_iface name device)\<rparr>"
  have P: "pending k ?k1 (new_iface name device)" by (simp add: pending_def)
  have W1: "k_allocs k = []" "k_calls k = []" using W by (simp_all add: willing_def)
  have run: "eoblock_add_iface_kobj name device k = try_open name device ?a (?k1\<lparr>k_ifaces := k_ifaces k @ [?a]\<rparr>)"
    using add_kobj_opens [OF K W _ l(2), of name] l(1) by simp
  have open': "eob_device_open device name (?k1\<lparr>k_ifaces := k_ifaces k @ [?a]\<rparr>) =
      Inr (0, Some (Suc ?a), ?k1\<lparr>k_ifaces := k_ifaces k @ [?a], k_next := Suc (Suc ?a),
        k_devs := (k_devs k)(Suc ?a \<mapsto> eob_device_ctor\<lparr>kd_path := device, kd_name := name\<rparr>)\<rparr>)"
    using W1 l by (simp add: eob_device_open_def eob_alloc_netdev_def c_strcpy_def PATH_MAX_K_def)
  show eq: "eoblock_add_iface_kobj name device k = Inr (0, added name device k)"
    unfolding run using open' by (simp add: try_open_def added_def new_iface_def eob_device_ctor_def)
  show "kinv (added name device k)" using try_open_inv [OF K P l] run eq by auto
qed

text \<open>
  Names and devices that bring such a kernel down: a device of 256 characters passes the check and
  is copied past its array, a name of 16 characters or more stops the kernel in \<open>alloc_netdev\<close>.
\<close>

definition overlong :: "string \<Rightarrow> string \<Rightarrow> bool" where
  "overlong name device \<longleftrightarrow> length name < 256 \<and> (length device = 256 \<or> length device < 256 \<and> IFNAMSIZ \<le> length name)"

lemma add_kobj_overlong:
  assumes K: "kinv k" and W: "willing k" and o: "overlong name device"
  shows "eoblock_add_iface_kobj name device k = Inl (if length device = 256 then UB else Abort)"
proof (cases "length device = 256")
  case True
  then show ?thesis using o W by (simp add: overlong_def willing_def eoblock_add_iface_kobj_def c_strcpy_def Let_def)
next
  case False
  then show ?thesis using o add_kobj_opens [OF K W, of name device] try_open_long [of name] by (simp add: overlong_def)
qed

end
