(* ===== verification/Kmod_Props.thy ===== *)
theory Kmod_Props
  imports Kmod_Spec
begin

text \<open>
  The properties of the kernel module's control files: a command does what it spells, the table
  of interfaces keeps its invariant, and what is left behind when the device does not open.
\<close>

section \<open>Commands\<close>

definition ascii_space :: "(char \<Rightarrow> bool) \<Rightarrow> bool" where
  "ascii_space isspace \<longleftrightarrow> isspace CHR '' '' \<and> isspace CHR 0x0A \<and> (\<forall>c\<in>set ''adelv''. \<not> isspace c)"

text \<open>A word that can stand in a command: no null byte and no end of a token either.\<close>

definition plain :: "(char \<Rightarrow> bool) \<Rightarrow> string \<Rightarrow> bool" where
  "plain isspace s \<longleftrightarrow> word_of isspace s \<and> length s < 256 \<and> (\<forall>c\<in>set s. c \<noteq> CHR 0x00 \<and> \<not> is_end c)"

definition add_command :: "string \<Rightarrow> string \<Rightarrow> string" where
  "add_command name device = ''add '' @ name @ '' dev='' @ device @ [CHR 0x0A]"

definition del_command :: "string \<Rightarrow> string" where
  "del_command name = ''del '' @ name @ [CHR 0x0A]"

lemma ascii_words:
  assumes "ascii_space isspace"
  shows "word_of isspace ''add''" and "word_of isspace ''del''" and "word_of isspace ''dev''"
    and "is_sep isspace CHR '' ''" and "is_sep isspace CHR 0x0A" and "is_sep isspace CHR ''=''"
  using assms by (auto simp: ascii_space_def word_of_def is_sep_def)

lemma params_dev:
  assumes sp: "ascii_space isspace" and d: "plain isspace device"
  shows "add_iface_params isspace (''dev='' @ device @ [CHR 0x0A]) None = Inr (Some device)"
proof -
  note w = ascii_words [OF sp]
  have e: "\<not> is_end c" if "c \<in> set (''dev='' @ device)" for c using that d by (auto simp: plain_def is_end_def)
  then have t: "takeWhile (\<lambda>c. \<not> is_end c) ((''dev='' @ device) @ [CHR 0x0A]) = ''dev='' @ device"
    by (subst takeWhile_append2) (auto simp: is_end_def)
  have tok: "eoblock_get_next_token_str (''dev='' @ device @ [CHR 0x0A]) = (Some (''dev='' @ device), [])"
    using t by (simp add: eoblock_get_next_token_str_def Let_def)
  have l1: "eoblock_get_next_lexem isspace (Some (''dev='' @ device)) = (''dev'', Some device)"
    using next_lexem_word [OF w(3), of "CHR ''='' # device"] w(6) by simp
  have l2: "eoblock_get_next_lexem isspace (Some device) = (device, Some [])"
    using next_lexem_word [of isspace device "[]"] d by (simp add: plain_def)
  have ne: "device \<noteq> []" using d by (simp add: plain_def word_of_def)
  have nil: "add_iface_params isspace [] x = Inr x" for x
    by (simp add: add_iface_params.simps [of isspace "[]"] eoblock_get_next_token_str_def)
  have "add_iface_params isspace P None = Inr (Some device)"
    if "eoblock_get_next_token_str P = (Some Q, [])" "eoblock_get_next_lexem isspace (Some Q) = (''dev'', Some device)" for P Q
    using that l2 next_lexem_none [of "[]" isspace] ne nil
    by (simp add: add_iface_params.simps [of isspace P] strcasecmp_eq_def)
  then show ?thesis using tok l1 by blast
qed

lemma no_null: "\<forall>c\<in>set s. c \<noteq> CHR 0x00 \<Longrightarrow> takeWhile (\<lambda>c. c \<noteq> CHR 0x00) (take (length s) s) = s"
  by (simp add: takeWhile_eq_all_conv)

lemma mgmt_add:
  assumes sp: "ascii_space isspace" and n: "plain isspace name" and d: "plain isspace device"
  shows "eoblock_iface_mgmt_cb isspace (add_command name device) k = eoblock_add_iface_kobj name device k"
proof -
  note w = ascii_words [OF sp]
  have l1: "eoblock_get_next_lexem isspace (Some (add_command name device)) = (''add'', Some (name @ '' dev='' @ device @ [CHR 0x0A]))"
    using next_lexem_word [OF w(1), of "CHR '' '' # name @ '' dev='' @ device @ [CHR 0x0A]"] w(4) by (simp add: add_command_def)
  have l2: "eoblock_get_next_lexem isspace (Some (name @ '' dev='' @ device @ [CHR 0x0A])) = (name, Some (''dev='' @ device @ [CHR 0x0A]))"
    using next_lexem_word [of isspace name "'' dev='' @ device @ [CHR 0x0A]"] n w(4) by (simp add: plain_def)
  have "name \<noteq> []" using n by (simp add: plain_def word_of_def)
  then show ?thesis
    using l1 l2 params_dev [OF sp d] by (simp add: eoblock_iface_mgmt_cb_def strcasecmp_eq_def eoblock_add_iface_def)
qed

lemma mgmt_del:
  assumes sp: "ascii_space isspace" and n: "plain isspace name"
  shows "eoblock_iface_mgmt_cb isspace (del_command name) k = eoblock_remove_iface name k"
proof -
  note w = ascii_words [OF sp]
  have l1: "eoblock_get_next_lexem isspace (Some (del_command name)) = (''del'', Some (name @ [CHR 0x0A]))"
    using next_lexem_word [OF w(2), of "CHR '' '' # name @ [CHR 0x0A]"] w(4) by (simp add: del_command_def)
  have l2: "eoblock_get_next_lexem isspace (Some (name @ [CHR 0x0A])) = (name, Some [])"
    using next_lexem_word [of isspace name "[CHR 0x0A]"] n w(5) by (simp add: plain_def)
  have "name \<noteq> []" using n by (simp add: plain_def word_of_def)
  then show ?thesis
    using l1 l2 by (simp add: eoblock_iface_mgmt_cb_def strcasecmp_eq_def to_lower_def eoblock_get_next_lexem_def [of _ "Some []"])
qed

lemma command_plain:
  "plain isspace name \<Longrightarrow> plain isspace device \<Longrightarrow> \<forall>c\<in>set (add_command name device). c \<noteq> CHR 0x00"
  "plain isspace name \<Longrightarrow> \<forall>c\<in>set (del_command name). c \<noteq> CHR 0x00"
  by (auto simp: plain_def add_command_def del_command_def)

lemma mgmt_store_add:
  assumes K: "kinv k" and W: "willing k" and sp: "ascii_space isspace" and n: "plain isspace name" and d: "plain isspace device"
    and short: "length name < IFNAMSIZ"
  shows "eoblock_iface_mgmt_store isspace (add_command name device) (length (add_command name device)) k =
      Inr (int (length (add_command name device)), added name device k)"
proof -
  have l: "length name < 16" "length device < 256" using n d short by (simp_all add: plain_def)
  have alloc: "take_alloc k = (True, k)" using W by (simp add: willing_def)
  show ?thesis
    unfolding eoblock_iface_mgmt_store_def alloc no_null [OF command_plain(1) [OF n d]] mgmt_add [OF sp n d]
    by (simp add: add_kobj_willing(1) [OF K W l])
qed

lemma add_del_short:
  assumes K: "kinv k" and W: "willing k" and sp: "ascii_space isspace" and n: "plain isspace name" and d: "plain isspace device"
    and free: "\<forall>a\<in>set (k_ifaces k). \<not> named k name a" and short: "length name < IFNAMSIZ"
  shows "\<exists>k'. eoblock_iface_mgmt_store isspace (del_command name) (length (del_command name)) (added name device k) =
        Inr (int (length (del_command name)), k') \<and>
      k_ifaces k' = k_ifaces k \<and> k_heap k' = k_heap k \<and> k_devs k' = k_devs (added name device k)"
proof -
  have l: "length name < 16" "length device < 256" using short d by (simp_all add: plain_def)
  note A = add_kobj_willing [OF K W l]
  have alloc: "take_alloc (added name device k) = (True, added name device k)"
    using W by (simp add: willing_def added_def)
  let ?k = "added name device k" and ?a = "k_next k"
  have heap: "k_heap k ?a = None" using kinvD(4) [OF K order_refl] .
  then have other: "\<forall>a\<in>set (k_ifaces k). \<not> named ?k name a"
    using free kinvD(2) [OF K] by (auto simp: named_def added_def split: option.splits)
  have "named ?k name ?a" by (simp add: named_def added_def)
  moreover have "k_ifaces ?k = k_ifaces k @ ?a # []" by (simp add: added_def)
  ultimately obtain k' where k': "eoblock_remove_iface name ?k = Inr (0, k')" "k_ifaces k' = k_ifaces k"
    "k_heap k' = (k_heap ?k)(?a := None)" "k_devs k' = k_devs ?k"
    using remove_present [OF A(2), of "k_ifaces k" ?a "[]" name] other by auto
  have "k_heap k' = k_heap k" using k'(3) heap by (auto simp: added_def)
  moreover have "eoblock_iface_mgmt_store isspace (del_command name) (length (del_command name)) ?k =
      Inr (int (length (del_command name)), k')"
    unfolding eoblock_iface_mgmt_store_def alloc no_null [OF command_plain(2) [OF n]] mgmt_del [OF sp n] by (simp add: k'(1))
  ultimately show ?thesis using k'(2,4) by blast
qed

text \<open>
  C32. The two commands of the help text do what they say, and undo each other except for the
  network device: after "add NAME dev=DEVICE" the interface NAME is the last one listed, with a
  registered network device of that name for the path DEVICE; after "del NAME" the table is the
  one before, and the network device is still there. That is for names of up to 15 characters; the
  module also lets longer ones through, up to 255, and the kernel stops on them.
\<close>

theorem add_then_del:
  assumes K: "kinv k" and W: "willing k" and sp: "ascii_space isspace" and n: "plain isspace name" and d: "plain isspace device"
    and free: "\<forall>a\<in>set (k_ifaces k). \<not> named k name a"
  shows "if length name < IFNAMSIZ then
    eoblock_iface_mgmt_store isspace (add_command name device) (length (add_command name device)) k =
      Inr (int (length (add_command name device)), added name device k) \<and>
    (\<exists>k'. eoblock_iface_mgmt_store isspace (del_command name) (length (del_command name)) (added name device k) =
        Inr (int (length (del_command name)), k') \<and>
      k_ifaces k' = k_ifaces k \<and> k_heap k' = k_heap k \<and> k_devs k' = k_devs (added name device k))
    else eoblock_iface_mgmt_store isspace (add_command name device) (length (add_command name device)) k = Inl Abort"
proof (cases "length name < IFNAMSIZ")
  case True
  then show ?thesis using mgmt_store_add [OF K W sp n d True] add_del_short [OF K W sp n d free True] by simp
next
  case False
  have "overlong name device" using False n d by (simp add: overlong_def plain_def)
  from add_kobj_overlong [OF K W this] have "eoblock_add_iface_kobj name device k = Inl Abort"
    using d by (simp add: plain_def)
  moreover have alloc: "take_alloc k = (True, k)" using W by (simp add: willing_def)
  ultimately show ?thesis
    unfolding eoblock_iface_mgmt_store_def alloc no_null [OF command_plain(1) [OF n d]] mgmt_add [OF sp n d]
    using False by simp
qed

text \<open>A kernel with one interface, and the white space of the C locale.\<close>

definition demo_kernel :: kernel where
  "demo_kernel = \<lparr>k_next = 2,
     k_devs = [1 \<mapsto> \<lparr>kd_name = ''eob0'', kd_path = ''/dev/sda'', kd_fd = None, kd_sectors = 0, kd_bdev = None\<rparr>],
     k_heap = [0 \<mapsto> \<lparr>if_name = ''eob0'', if_device_name = ''/dev/sda'', if_kobj = True, if_dev = Some 1\<rparr>],
     k_ifaces = [0], k_setup_id = 0, k_ctx = None, k_open_files = [], k_root = True, k_ifaces_kobj = True,
     k_allocs = [], k_calls = [], k_files = [], k_blks = []\<rparr>"

definition demo_space :: "char \<Rightarrow> bool" where
  "demo_space c \<longleftrightarrow> c \<in> {CHR '' '', CHR 0x09, CHR 0x0A, CHR 0x0B, CHR 0x0C, CHR 0x0D}"

lemma demo_kernel_inv: "kinv demo_kernel" "willing demo_kernel"
  by (auto simp: kinv_def willing_def demo_kernel_def iface_ok_def dom_def split: if_splits)

lemma demo_space_ok: "ascii_space demo_space" "plain demo_space ''eob1''" "plain demo_space ''/dev/sdb''"
  by (simp_all add: ascii_space_def demo_space_def plain_def word_of_def is_sep_def is_end_def)

lemma demo_kernel_free: "\<forall>a\<in>set (k_ifaces demo_kernel). \<not> named demo_kernel ''eob1'' a"
  by (simp add: named_def demo_kernel_def)

theorem add_then_del_witness:
  "eoblock_iface_mgmt_store demo_space (add_command ''eob1'' ''/dev/sdb'') (length (add_command ''eob1'' ''/dev/sdb'')) demo_kernel =
    Inr (22, added ''eob1'' ''/dev/sdb'' demo_kernel)"
  using add_then_del [OF demo_kernel_inv demo_space_ok demo_kernel_free] by (simp add: add_command_def)

section \<open>The invariant\<close>

lemma params_shorter: "add_iface_params isspace s x = Inr (Some y) \<Longrightarrow> length y < length s \<or> x = Some y"
proof (induction s arbitrary: x rule: length_induct)
  case (1 s)
  show ?case
  proof (cases "eoblock_get_next_token_str s")
    case (Pair t r)
    show ?thesis
    proof (cases t)
      case None
      then show ?thesis using 1(2) Pair by (simp add: add_iface_params.simps [of isspace s])
    next
      case (Some param)
      have lt: "length r < length s" "length param \<le> length s"
        using next_token_shorter [of s param r] Pair Some by (auto simp: eoblock_get_next_token_str_def Let_def split: if_splits)
      obtain p r1 where l1: "eoblock_get_next_lexem isspace (Some param) = (p, Some r1)" using next_lexem_Some by blast
      obtain pp r2 where l2: "eoblock_get_next_lexem isspace (Some r1) = (pp, Some r2)" using next_lexem_Some by blast
      have "p \<noteq> []" "pp \<noteq> []" "fst (eoblock_get_next_lexem isspace (Some r2)) = []" "strcasecmp_eq ''dev'' p"
        "add_iface_params isspace r (Some pp) = Inr (Some y)"
        using 1(2) Pair Some l1 l2 by (simp_all add: add_iface_params.simps [of isspace s] split: if_splits)
      moreover from this have "length y < length r \<or> pp = y" using 1(1) lt(1) by auto
      moreover have "length pp < length s"
        using next_lexem_length [OF l1] next_lexem_length [OF l2] \<open>p \<noteq> []\<close> lt(2) by (cases p) simp_all
      ultimately show ?thesis using lt by auto
    qed
  qed
qed

lemma remove_inv: "kinv k \<Longrightarrow> \<exists>res k'. eoblock_remove_iface name k = Inr (res, k') \<and> kinv k'"
proof (cases "\<exists>a\<in>set (k_ifaces k). named k name a")
  case True
  then obtain A a B where l: "k_ifaces k = A @ a # B" "named k name a" "\<forall>b\<in>set A. \<not> named k name b"
    using split_list_first_prop [OF True] by blast
  assume "kinv k"
  then show ?thesis using remove_present [OF _ l] by blast
qed (use remove_absent in blast)

text \<open>
  An addition returns, with the invariant kept unless it reports \<open>-ENODEV\<close>, or ends in a fault, and
  that only for a name or a device that is too long.
\<close>

definition keeps_or :: "bool \<Rightarrow> fault + int \<times> kernel \<Rightarrow> bool" where
  "keeps_or bad r \<longleftrightarrow> (case r of Inl f \<Rightarrow> bad | Inr (res, k') \<Rightarrow> res \<noteq> - ENODEV \<longrightarrow> kinv k')"

lemma add_kobj_inv:
  assumes K: "kinv k"
  shows "keeps_or (overlong name device) (eoblock_add_iface_kobj name device k)"
  using add_kobj_cases [OF K, of name device]
proof (elim disjE exE conjE)
  fix res k'
  assume "eoblock_add_iface_kobj name device k = Inr (res, k')" "same_table k k'"
  then show ?thesis using kinv_same [OF K] by (simp add: keeps_or_def)
next
  fix k'
  assume o: "eoblock_add_iface_kobj name device k = try_open name device (k_next k) (k'\<lparr>k_ifaces := k_ifaces k @ [k_next k]\<rparr>)"
    and p: "pending k k' (new_iface name device)" and l: "length name < 256" "length device < 256"
  show ?thesis
  proof (cases "length name < IFNAMSIZ")
    case True
    then have "length name < 16" by simp
    then show ?thesis using try_open_inv [OF K p _ l(2)] o by (auto simp: keeps_or_def)
  next
    case False
    then show ?thesis using o l try_open_long [of name] by (simp add: keeps_or_def overlong_def)
  qed
qed (simp add: keeps_or_def overlong_def)

text \<open>What a write to the control file asks to add: the name and the device, if it is an addition that can be parsed.\<close>

definition add_request :: "(char \<Rightarrow> bool) \<Rightarrow> string \<Rightarrow> (string \<times> string) option" where
  "add_request isspace b =
     (let (p, pp) = eoblock_get_next_lexem isspace (Some b); (name, pp) = eoblock_get_next_lexem isspace pp in
      if strcasecmp_eq ''add'' p \<and> name \<noteq> [] then
        case pp of None \<Rightarrow> None | Some pp \<Rightarrow>
          (case add_iface_params isspace pp None of Inr (Some device) \<Rightarrow> Some (name, device) | _ \<Rightarrow> None)
      else None)"

definition bad_request :: "(char \<Rightarrow> bool) \<Rightarrow> string \<Rightarrow> nat \<Rightarrow> bool" where
  "bad_request isspace buf count \<longleftrightarrow>
     (case add_request isspace (takeWhile (\<lambda>c. c \<noteq> CHR 0x00) (take count buf)) of
        None \<Rightarrow> False | Some (name, device) \<Rightarrow> overlong name device)"

lemma mgmt_cb_request:
  "add_request isspace b = Some (name, device) \<Longrightarrow> eoblock_iface_mgmt_cb isspace b k = eoblock_add_iface_kobj name device k"
  by (auto simp: add_request_def eoblock_iface_mgmt_cb_def eoblock_add_iface_def Let_def
      split: prod.splits if_splits option.splits sum.splits)

lemma mgmt_cb_inv:
  assumes K: "kinv k"
  shows "keeps_or (case add_request isspace b of None \<Rightarrow> False | Some (name, device) \<Rightarrow> overlong name device)
    (eoblock_iface_mgmt_cb isspace b k)"
proof (cases "add_request isspace b")
  case (Some nd)
  then show ?thesis using mgmt_cb_request add_kobj_inv [OF K] by (cases nd) simp
next
  case None
  obtain p r1 where l1: "eoblock_get_next_lexem isspace (Some b) = (p, Some r1)" using next_lexem_Some by blast
  obtain name r2 where l2: "eoblock_get_next_lexem isspace (Some r1) = (name, Some r2)" using next_lexem_Some by blast
  have del: "\<exists>res k'. eoblock_remove_iface name k = Inr (res, k') \<and> kinv k'" using remove_inv [OF K] .
  have "\<exists>res k'. eoblock_add_iface isspace name r2 k = Inr (res, k') \<and> kinv k'" if "strcasecmp_eq ''add'' p" "name \<noteq> []"
    using None that l1 l2 K by (auto simp: add_request_def eoblock_add_iface_def split: sum.splits option.splits)
  then show ?thesis using None l1 l2 del K
    by (auto simp: eoblock_iface_mgmt_cb_def keeps_or_def split: prod.split)
qed

text \<open>
  Whatever is written to the control file, and whatever the kernel answers to the calls of the
  module: the write returns, nothing that was freed is touched, and the table of interfaces keeps its
  invariant (every listed interface is allocated and has its network device, and none is allocated
  that is not listed), unless the write reports that the device could not be opened or asks for a
  name or a device that is too long.
\<close>

lemma mgmt_store_keeps:
  assumes K: "kinv k"
  shows "keeps_or (bad_request isspace buf count) (eoblock_iface_mgmt_store isspace buf count k)"
proof -
  let ?b = "takeWhile (\<lambda>c. c \<noteq> CHR 0x00) (take count buf)"
  obtain ok k1 where a: "take_alloc k = (ok, k1)" by fastforce
  have K1: "kinv k1" by (rule kinv_same [OF K take_alloc_same [OF a K]])
  show ?thesis
  proof (cases ok)
    case True
    show ?thesis using a True mgmt_cb_inv [OF K1, of isspace ?b]
      by (cases "eoblock_iface_mgmt_cb isspace ?b k1")
        (auto simp: eoblock_iface_mgmt_store_def bad_request_def keeps_or_def simp del: take_alloc.simps)
  qed (use a K1 in \<open>simp add: eoblock_iface_mgmt_store_def keeps_or_def del: take_alloc.simps\<close>)
qed

lemma mgmt_store_bad:
  assumes K: "kinv k" and W: "willing k" and b: "bad_request isspace buf count"
  shows "\<exists>f. eoblock_iface_mgmt_store isspace buf count k = Inl f"
proof -
  let ?b = "takeWhile (\<lambda>c. c \<noteq> CHR 0x00) (take count buf)"
  obtain name device where r: "add_request isspace ?b = Some (name, device)" "overlong name device"
    using b by (auto simp: bad_request_def split: option.splits)
  show ?thesis
    using add_kobj_overlong [OF K W r(2)] mgmt_cb_request [OF r(1), of k] W
    by (simp add: eoblock_iface_mgmt_store_def willing_def)
qed

text \<open>
  C33. When the device cannot be opened the interface is freed but stays on the list: the next
  command that goes through the list, a removal of a name that is not there or an addition
  that the kernel does not refuse, touches the freed memory. (With a name of 16 characters or more
  the kernel has stopped before.)
\<close>

theorem failed_open_dangles:
  assumes K: "kinv k" and l: "length name < 256" "length device < 256"
    and a: "k_allocs k = []" and r: "k_calls k = [0, 0, r]" "r \<noteq> 0"
  shows "if length name < IFNAMSIZ then
    \<exists>k'. eoblock_add_iface_kobj name device k = Inr (- ENODEV, k') \<and> \<not> kinv k' \<and>
    (\<forall>x. (\<forall>b\<in>set (k_ifaces k). \<not> named k x b) \<longrightarrow> eoblock_remove_iface x k' = Inl UB) \<and>
    (\<forall>x y. length x < 256 \<longrightarrow> length y < 256 \<longrightarrow> eoblock_add_iface_kobj x y k' = Inl UB)
    else eoblock_add_iface_kobj name device k = Inl Abort"
proof -
  let ?a = "k_next k"
  let ?k1 = "k\<lparr>k_next := Suc ?a, k_heap := (k_heap k)(?a \<mapsto> new_iface name device), k_calls := [r]\<rparr>"
  have P: "pending k ?k1 (new_iface name device)" by (simp add: pending_def)
  have run: "eoblock_add_iface_kobj name device k = try_open name device ?a (?k1\<lparr>k_ifaces := k_ifaces k @ [?a]\<rparr>)"
    using a r l list_add_tail_inv [OF K P]
    by (simp add: eoblock_add_iface_kobj_def c_strcpy_def try_open_def Let_def new_iface_def)
      (simp only: new_iface_def eoblock_iface_base.update_convs)
  show ?thesis
  proof (cases "length name < IFNAMSIZ")
    case False
    then show ?thesis using run try_open_long [of name] by simp
  next
    case short: True
    obtain k2 where k2: "eob_device_open device name (?k1\<lparr>k_ifaces := k_ifaces k @ [?a]\<rparr>) = Inr (- ENODEV, None, k2)"
      "k_heap k2 = (k_heap k)(?a \<mapsto> new_iface name device)" "k_ifaces k2 = k_ifaces k @ [?a]" "k_allocs k2 = []" "k_calls k2 = []"
      "k_next k2 = Suc (Suc ?a)" using a r l short by (simp add: eob_device_open_def eob_alloc_netdev_def c_strcpy_def PATH_MAX_K_def free_netdev_def)
    let ?k = "kfree ?a (kobject_del ?a k2)"
    have ret: "eoblock_add_iface_kobj name device k = Inr (- ENODEV, ?k)"
      unfolding run using k2(1) by (simp add: try_open_def do_out_del_kobj_def do_out_free_def)
    have st: "k_ifaces ?k = k_ifaces k @ [?a]" "k_heap ?k ?a = None" "\<And>b. b \<noteq> ?a \<Longrightarrow> k_heap ?k b = k_heap k b"
      "k_allocs ?k = []" "k_calls ?k = []" "k_next ?k = Suc (Suc ?a)" using k2 by (simp_all add: kfree_def kobject_del_def)
    have old: "k_heap ?k b \<noteq> None" "named ?k x b = named k x b" if "b \<in> set (k_ifaces k)" for b x
    proof -
      have "k_heap k b \<noteq> None" using that kinvD(2) [OF K] by blast
      moreover have "b \<noteq> ?a" using calculation kinvD(4) [OF K order_refl] by auto
      ultimately show "k_heap ?k b \<noteq> None" "named ?k x b = named k x b" using st(3) by (simp_all add: named_def)
    qed
    have "\<not> kinv ?k" using st(1,2) kinvD(2) [of ?k ?a] by auto
    moreover have "eoblock_remove_iface x ?k = Inl UB" if "\<forall>b\<in>set (k_ifaces k). \<not> named k x b" for x
      using find_iface_dead [of "k_ifaces k" ?k x ?a "[]"] old that st(1,2) by (simp add: eoblock_remove_iface_def)
    moreover have "eoblock_add_iface_kobj x y ?k = Inl UB" if xy: "length x < 256" "length y < 256" for x y
      using xy st by (simp add: eoblock_add_iface_kobj_def c_strcpy_def list_add_tail_def Let_def)
    ultimately show ?thesis using ret short by auto
  qed
qed

text \<open>The same kernel when the registration of the next network device fails.\<close>

theorem failed_open_dangles_witness:
  "\<exists>k'. eoblock_add_iface_kobj ''eob1'' ''/dev/sdb'' (demo_kernel\<lparr>k_calls := [0, 0, - 17]\<rparr>) = Inr (- ENODEV, k') \<and>
    eoblock_remove_iface ''eob2'' k' = Inl UB"
proof -
  have "kinv (demo_kernel\<lparr>k_calls := [0, 0, - 17]\<rparr>)" using demo_kernel_inv by (simp add: kinv_def iface_ok_def)
  then show ?thesis
    using failed_open_dangles [of "demo_kernel\<lparr>k_calls := [0, 0, - 17]\<rparr>" "''eob1''" "''/dev/sdb''" "- 17"]
    by (auto simp: demo_kernel_def named_def)
qed

section \<open>Waiting for a block device\<close>

lemma open_blk_loop_retries:
  "open_blk_loop (length es + n) (Blk_err e) k =
     (if es = [] then open_blk_loop n (Blk_err e) k else open_blk_loop n (Blk_err (- ENOENT)) (k\<lparr>k_blks := bs\<rparr>))"
  if "k_blks k = es @ bs" "\<forall>b\<in>set es. b = Blk_err (- ENOENT)"
  using that
proof (induction es arbitrary: k e)
  case (Cons b es)
  let ?k = "k\<lparr>k_blks := es @ bs\<rparr>"
  have "open_blk_loop (length (b # es) + n) (Blk_err e) k = open_blk_loop (length es + n) (Blk_err (- ENOENT)) ?k"
    using Cons.prems by simp
  also have "\<dots> = (if es = [] then open_blk_loop n (Blk_err (- ENOENT)) ?k else open_blk_loop n (Blk_err (- ENOENT)) (?k\<lparr>k_blks := bs\<rparr>))"
    by (rule Cons.IH) (use Cons.prems in simp_all)
  finally show ?case by simp
qed simp

text \<open>
  C34. Opening a block device waits for it: a device that is missing for up to 49 attempts and
  then there is opened, with its path and capacity recorded; one that is missing for 50 attempts
  is given up after exactly these, with the error number 2 that is positive, unlike those of
  the other failures.
\<close>

theorem open_blk_waits:
  assumes m: "\<forall>b\<in>set es. b = Blk_err (- ENOENT)" and b: "k_blks k = es @ Blk (Some cap) # bs"
    and d: "k_devs k d = Some dev" "length path \<le> PATH_MAX_K"
  shows "eob_open_blk (Some d) path k =
    (if length es < 50 then
       Inr (0, k\<lparr>k_blks := bs, k_devs := (k_devs k)(d \<mapsto> dev\<lparr>kd_path := path, kd_sectors := cap, kd_bdev := Some (Blk (Some cap))\<rparr>)\<rparr>)
     else Inr (2, k\<lparr>k_blks := drop 50 (k_blks k)\<rparr>))"
proof (cases "length es < 50")
  case True
  then obtain n where n: "50 = length es + Suc n" by (metis add_Suc_right less_iff_Suc_add)
  have "open_blk_loop 50 (Blk_err (- ENXIO)) k = (Blk (Some cap), k\<lparr>k_blks := bs\<rparr>)"
    unfolding n using open_blk_loop_retries [OF b m, of "Suc n" "- ENXIO"] b by auto
  then show ?thesis using True d by (simp add: eob_open_blk_def)
next
  case False
  have es: "es = take 50 es @ drop 50 es" by simp
  have "length (take 50 es) = 50" "take 50 es \<noteq> []" using False by auto
  then have "open_blk_loop 50 (Blk_err (- ENXIO)) k = (Blk_err (- ENOENT), k\<lparr>k_blks := drop 50 (k_blks k)\<rparr>)"
    using open_blk_loop_retries [of k "take 50 es" "drop 50 (k_blks k)" 0 "- ENXIO"] m b False
    by (auto dest: in_set_takeD)
  then show ?thesis using False by (simp add: eob_open_blk_def)
qed

theorem open_blk_waits_witness:
  "eob_open_blk (Some 1) ''/dev/sdc'' (demo_kernel\<lparr>k_blks := replicate 50 (Blk_err (- ENOENT)) @ [Blk (Some 8)]\<rparr>) =
     Inr (2, demo_kernel\<lparr>k_blks := [Blk (Some 8)]\<rparr>) \<and>
   fst (case eob_open_blk (Some 1) ''/dev/sdc'' (demo_kernel\<lparr>k_blks := [Blk_err (- ENOENT), Blk (Some 8)]\<rparr>) of Inr r \<Rightarrow> r) = 0"
  using open_blk_waits [of "replicate 50 (Blk_err (- ENOENT))" "demo_kernel\<lparr>k_blks := replicate 50 (Blk_err (- ENOENT)) @ [Blk (Some 8)]\<rparr>" 8 "[]" 1]
    open_blk_waits [of "[Blk_err (- ENOENT)]" "demo_kernel\<lparr>k_blks := [Blk_err (- ENOENT), Blk (Some 8)]\<rparr>" 8 "[]" 1]
  by (simp add: demo_kernel_def PATH_MAX_K_def)

end
