(* ===== verification/Kmod_Reach.thy ===== *)
theory Kmod_Reach
  imports Kmod_Props
begin

text \<open>
  The life of the loaded kernel module, from \<open>oeblock_init\<close> on: the writes to its control files, the
  opening and stopping of its network devices by the kernel, and any behaviour of the calls into
  the kernel, as one transition relation, with the invariants of every state it reaches.
\<close>

section \<open>What the operations leave alone\<close>

text \<open>Open files, and the devices that were allocated before.\<close>

definition dev_frame :: "kernel \<Rightarrow> kernel \<Rightarrow> bool" where
  "dev_frame k k' \<longleftrightarrow> k_open_files k' = k_open_files k \<and> k_next k \<le> k_next k' \<and>
     (\<forall>a<k_next k. k_devs k' a = k_devs k a)"

lemma dev_frame_refl [simp]: "dev_frame k k"
  by (simp add: dev_frame_def)

lemma dev_frame_trans: "dev_frame k k' \<Longrightarrow> dev_frame k' k'' \<Longrightarrow> dev_frame k k''"
  by (simp add: dev_frame_def)

lemma take_alloc_frame: "take_alloc k = (ok, k') \<Longrightarrow> dev_frame k k'"
  by (auto simp: dev_frame_def split: list.splits)

lemma take_call_frame: "take_call k = (r, k') \<Longrightarrow> dev_frame k k'"
  by (auto simp: dev_frame_def split: list.splits)

lemma dev_frame_table:
  "dev_frame k (kfree a k') = dev_frame k k'" "dev_frame k (kobject_del a k') = dev_frame k k'"
  "dev_frame k (k'\<lparr>k_heap := hp\<rparr>) = dev_frame k k'" "dev_frame k (k'\<lparr>k_ifaces := is\<rparr>) = dev_frame k k'"
  by (simp_all add: dev_frame_def kfree_def kobject_del_def)

lemma device_open_frame: "eob_device_open path pname k = Inr (res, dev, k') \<Longrightarrow> dev_frame k k'"
proof -
  assume r: "eob_device_open path pname k = Inr (res, dev, k')"
  obtain ok k1 where a: "take_alloc k = (ok, k1)" by fastforce
  have 1: "dev_frame k k1" using a by (rule take_alloc_frame)
  show ?thesis
  proof (cases ok)
    case True
    let ?k2 = "k1\<lparr>k_next := Suc (k_next k1), k_devs := (k_devs k1)(k_next k1 \<mapsto> eob_device_ctor\<lparr>kd_path := path, kd_name := pname\<rparr>)\<rparr>"
    obtain c k3 where c: "take_call ?k2 = (c, k3)" by fastforce
    have "dev_frame k1 ?k2" by (simp add: dev_frame_def)
    then have 3: "dev_frame k k3" "k_next k1 \<le> k_next k1" using 1 take_call_frame [OF c] dev_frame_trans by blast+
    have "k' = k3 \<or> k' = free_netdev (k_next k1) k3"
      using r a True c by (auto simp: eob_device_open_def eob_alloc_netdev_def bindr_Inr_iff c_strcpy_def guard_Inr_iff
          simp del: take_alloc.simps take_call.simps split: if_splits)
    moreover have "dev_frame k (free_netdev (k_next k1) k3)"
      using 3 1 by (auto simp: dev_frame_def free_netdev_def)
    ultimately show ?thesis using 3 by blast
  qed (use r a 1 in \<open>auto simp: eob_device_open_def eob_alloc_netdev_def bindr_assoc bindr_Inr_iff guard_Inr_iff simp del: take_alloc.simps\<close>)
qed

lemma list_add_tail_frame: "list_add_tail a k = Inr k' \<Longrightarrow> k' = k\<lparr>k_ifaces := k_ifaces k @ [a]\<rparr>"
  by (simp add: list_add_tail_def bindr_guard_Inr_iff)

lemma list_del_frame: "list_del a k = Inr k' \<Longrightarrow> dev_frame k k'"
  by (auto simp: list_del_def bindr_guard_Inr_iff dev_frame_def Let_def)

lemma remove_frame: "eoblock_remove_iface name k = Inr (res, k') \<Longrightarrow> dev_frame k k'"
  by (auto simp: eoblock_remove_iface_def bindr_Inr_iff eob_device_close_def dev_frame_table split: option.splits
      dest!: list_del_frame)

lemma add_kobj_frame: "eoblock_add_iface_kobj name device k = Inr (res, k') \<Longrightarrow> dev_frame k k'"
proof -
  assume r: "eoblock_add_iface_kobj name device k = Inr (res, k')"
  obtain ok k1 where a: "take_alloc k = (ok, k1)" by fastforce
  have 1: "dev_frame k k1" using a by (rule take_alloc_frame)
  let ?k2 = "\<lambda>i. k1\<lparr>k_next := Suc (k_next k1), k_heap := (k_heap k1)(k_next k1 \<mapsto> i)\<rparr>"
  have 2: "dev_frame k (?k2 i)" for i using 1 by (auto simp: dev_frame_def)
  let ?i = "\<lparr>if_name = name, if_device_name = device, if_kobj = False, if_dev = None\<rparr>"
  obtain c k3 where c: "take_call (?k2 ?i) = (c, k3)" by fastforce
  have 3: "dev_frame k k3" using dev_frame_trans [OF 2 take_call_frame [OF c]] .
  let ?k4 = "k3\<lparr>k_heap := (k_heap k3)(k_next k1 \<mapsto> ?i\<lparr>if_kobj := True\<rparr>)\<rparr>"
  obtain e k5 where e: "take_call ?k4 = (e, k5)" by fastforce
  have "dev_frame k ?k4" using 3 by (simp add: dev_frame_table)
  then have 5: "dev_frame k k5" using take_call_frame [OF e] dev_frame_trans by blast
  let ?k6 = "k5\<lparr>k_ifaces := k_ifaces k5 @ [k_next k1]\<rparr>"
  have 6: "dev_frame k ?k6" using 5 by (simp add: dev_frame_table)
  have dev: "dev_frame k kd" if "eob_device_open device name ?k6 = Inr (rs, d, kd)" for rs d kd
    using dev_frame_trans [OF 6 device_open_frame [OF that]] .
  have tail: "dev_frame k k'" if "bindr (list_add_tail (k_next k1) k5) (\<lambda>k. bindr (eob_device_open device name k) (\<lambda>(res, dev, k).
      if res \<noteq> 0 then do_out_del_kobj res (k_next k1) k
      else Inr (0, k\<lparr>k_heap := (k_heap k)(k_next k1 \<mapsto> ?i\<lparr>if_kobj := True, if_dev := dev\<rparr>)\<rparr>))) = Inr (res, k')"
    using that dev by (auto simp: bindr_Inr_iff do_out_del_kobj_def do_out_free_def dev_frame_table
        dest!: list_add_tail_frame split: if_splits)
  note run = eoblock_add_iface_kobj_def do_out_free_def do_out_del_kobj_def c_strcpy_def dev_frame_table Let_def
  show ?thesis
  proof (cases "ok \<and> length name < 256 \<and> length device < 256")
    case True
    then have "eoblock_add_iface_kobj name device k =
      (if c \<noteq> 0 then do_out_free c (k_next k1) k3 else if e \<noteq> 0 then do_out_del_kobj e (k_next k1) k5
       else bindr (list_add_tail (k_next k1) k5) (\<lambda>k. bindr (eob_device_open device name k) (\<lambda>(res, dev, k).
         if res \<noteq> 0 then do_out_del_kobj res (k_next k1) k
         else Inr (0, k\<lparr>k_heap := (k_heap k)(k_next k1 \<mapsto> ?i\<lparr>if_kobj := True, if_dev := dev\<rparr>)\<rparr>))))"
      using a c e by (simp add: eoblock_add_iface_kobj_def c_strcpy_def Let_def del: take_alloc.simps take_call.simps)
    then show ?thesis using r 3 5 tail by (auto simp: do_out_free_def do_out_del_kobj_def dev_frame_table split: if_splits)
  next
    case False
    then show ?thesis using r a 1 2
      by (auto simp: run bindr_Inr_iff guard_Inr_iff simp del: take_alloc.simps take_call.simps split: if_splits)
  qed
qed

lemma store_frame:
  assumes "eoblock_store isspace kstrtoul attr buf count k = Inr (res, k')"
  shows "dev_frame k k'"
proof (cases attr)
  case Setup_id
  then show ?thesis using assms by (auto simp: eoblock_setup_id_store_def dev_frame_def split: sum.splits)
next
  case Mgmt
  obtain ok k1 where a: "take_alloc k = (ok, k1)" by fastforce
  have 1: "dev_frame k k1" using a by (rule take_alloc_frame)
  have add: "dev_frame k1 k2" if "eoblock_add_iface isspace name params k1 = Inr (rs, k2)" for name params rs k2
    using that by (auto simp: eoblock_add_iface_def dest: add_kobj_frame split: sum.splits option.splits)
  have "dev_frame k1 k2" if "eoblock_iface_mgmt_cb isspace b k1 = Inr (rs, k2)" for b rs k2
    using that by (auto simp: eoblock_iface_mgmt_cb_def bindr_Inr_iff dest: add remove_frame split: prod.splits if_splits)
  then show ?thesis
    using assms Mgmt a 1 dev_frame_trans [OF 1]
    by (auto simp: eoblock_iface_mgmt_store_def bindr_Inr_iff simp del: take_alloc.simps split: if_splits)
qed (use assms in auto)

section \<open>The transition relation\<close>

text \<open>
  \<open>up\<close> is the set of the network devices that are up: the kernel opens a device that is registered
  and not up, and stops one that is. A control file of an interface exists while the interface is
  listed. A write that stops the kernel is not a step. After a write that reports \<open>-ENODEV\<close> the
  table is damaged, see \<open>failed_open_dangles\<close>; these runs are left out.
\<close>

definition attr_there :: "kernel \<Rightarrow> attr \<Rightarrow> bool" where
  "attr_there k attr \<longleftrightarrow> (case attr of Dev_name a \<Rightarrow> a \<in> set (k_ifaces k) | _ \<Rightarrow> True)"

definition unloaded :: "kernel \<Rightarrow> bool" where
  "unloaded k \<longleftrightarrow> k_heap k = Map.empty \<and> k_devs k = Map.empty \<and> k_ifaces k = [] \<and> k_open_files k = []"

inductive kreach :: "(char \<Rightarrow> bool) \<Rightarrow> (string \<Rightarrow> int + u64) \<Rightarrow> kernel \<Rightarrow> nat set \<Rightarrow> bool"
  for isspace kstrtoul where
  load: "unloaded k0 \<Longrightarrow> oeblock_init k0 = (0, k) \<Longrightarrow> kreach isspace kstrtoul k {}"
| store: "kreach isspace kstrtoul k up \<Longrightarrow> attr_there k attr \<Longrightarrow>
    eoblock_store isspace kstrtoul attr buf count k = Inr (res, k') \<Longrightarrow> res \<noteq> - ENODEV \<Longrightarrow> kreach isspace kstrtoul k' up"
| net_open: "kreach isspace kstrtoul k up \<Longrightarrow> k_devs k d \<noteq> None \<Longrightarrow> d \<notin> up \<Longrightarrow>
    eob_net_device_open d k = Inr (res, k') \<Longrightarrow> kreach isspace kstrtoul k' (if res = 0 then insert d up else up)"
| net_stop: "kreach isspace kstrtoul k up \<Longrightarrow> d \<in> up \<Longrightarrow> eob_device_release d k = Inr (res, k') \<Longrightarrow>
    kreach isspace kstrtoul k' (up - {d})"
| kernel_calls: "kreach isspace kstrtoul k up \<Longrightarrow>
    kreach isspace kstrtoul (k\<lparr>k_allocs := as, k_calls := cs, k_files := fs, k_blks := bs\<rparr>) up"

section \<open>The invariants\<close>

text \<open>Every device that is up has an open file of its own.\<close>

definition upinv :: "kernel \<Rightarrow> nat set \<Rightarrow> bool" where
  "upinv k up \<longleftrightarrow>
     (\<forall>d\<in>up. \<exists>dev fd. k_devs k d = Some dev \<and> kd_fd dev = Some fd \<and> fd \<in> set (k_open_files k)) \<and>
     (\<forall>d\<in>up. \<forall>e\<in>up. map_option kd_fd (k_devs k d) = map_option kd_fd (k_devs k e) \<longrightarrow> d = e) \<and>
     (\<forall>fd\<in>set (k_open_files k). fd < k_next k) \<and> distinct (k_open_files k)"

lemma upinv_frame:
  assumes U: "upinv k up" and K: "kinv k" and F: "dev_frame k k'"
  shows "upinv k' up"
proof -
  have "k_devs k' d = k_devs k d" if "d \<in> up" for d
  proof -
    have "k_devs k d \<noteq> None" using U that by (auto simp: upinv_def)
    then have "d < k_next k" using kinvD(5) [OF K, of d] by (meson not_less)
    then show ?thesis using F by (simp add: dev_frame_def)
  qed
  moreover have "k_open_files k' = k_open_files k" "k_next k \<le> k_next k'" using F by (simp_all add: dev_frame_def)
  ultimately show ?thesis using U by (auto simp: upinv_def)
qed

lemma loaded_inv: "unloaded k0 \<Longrightarrow> oeblock_init k0 = (0, k) \<Longrightarrow> kinv k \<and> upinv k {}"
  by (auto simp: unloaded_def oeblock_init_def eoblock_sysfs_init_def kinv_def upinv_def Let_def split: list.splits if_splits)

lemma kinv_cong: "k_next k' = k_next k \<Longrightarrow> k_devs k' = k_devs k \<Longrightarrow> k_heap k' = k_heap k \<Longrightarrow>
    k_ifaces k' = k_ifaces k \<Longrightarrow> kinv k' = kinv k"
  by (simp add: kinv_def iface_ok_def)

lemma upinv_cong: "k_next k' = k_next k \<Longrightarrow> k_devs k' = k_devs k \<Longrightarrow> k_open_files k' = k_open_files k \<Longrightarrow>
    upinv k' up = upinv k up"
  by (simp add: upinv_def)

definition bad_write :: "(char \<Rightarrow> bool) \<Rightarrow> attr \<Rightarrow> string \<Rightarrow> nat \<Rightarrow> bool" where
  "bad_write isspace attr buf count \<longleftrightarrow> attr = Mgmt \<and> bad_request isspace buf count"

lemma store_keeps:
  assumes K: "kinv k"
  shows "keeps_or (bad_write isspace attr buf count) (eoblock_store isspace kstrtoul attr buf count k)"
proof (cases attr)
  case Setup_id
  obtain res k' where e: "eoblock_setup_id_store kstrtoul buf count k = (res, k')" by fastforce
  then have "kinv k' = kinv k"
    by (intro kinv_cong) (auto simp: eoblock_setup_id_store_def split: sum.splits)
  then show ?thesis using Setup_id e K by (simp add: keeps_or_def)
next
  case Mgmt
  then show ?thesis using mgmt_store_keeps [OF K] by (simp add: bad_write_def)
qed (use K in \<open>simp add: keeps_or_def\<close>)

text \<open>An open replaces the file of the device and takes a new number.\<close>

lemma net_open_cases:
  assumes "k_devs k d = Some dev"
  shows "eob_net_device_open d k = (let (r, k1) = take_file k in
    if r < 0 then Inr (- ENODEV, k1)
    else Inr (0, k1\<lparr>k_next := Suc (k_next k), k_open_files := k_next k # k_open_files k,
       k_devs := (k_devs k)(d \<mapsto> dev\<lparr>kd_fd := Some (k_next k)\<rparr>)\<rparr>))"
  using assms by (auto simp: eob_net_device_open_def eob_open_fd_def Let_def split: prod.splits list.splits)

lemma take_file_keeps: "take_file k = (r, k') \<Longrightarrow> kinv k \<Longrightarrow> kinv k' \<and> (upinv k up \<longrightarrow> upinv k' up)"
  using kinv_cong [of k' k] upinv_cong [of k' k up] by (auto split: list.splits)

lemma kinv_file:
  assumes K: "kinv k" and d: "k_devs k d = Some dev" and n: "k_next k \<le> n"
  shows "kinv (k\<lparr>k_next := n, k_open_files := fs, k_devs := (k_devs k)(d \<mapsto> dev\<lparr>kd_fd := fd\<rparr>)\<rparr>)"
proof -
  have "d < k_next k" using kinvD(5) [OF K, of d] d by (metis not_less option.distinct(1))
  then show ?thesis using K d n unfolding kinv_def iface_ok_def by fastforce
qed

lemma upinv_opened:
  assumes U: "upinv k up" and d: "k_devs k d = Some dev" "d \<notin> up"
  shows "upinv (k\<lparr>k_next := Suc (k_next k), k_open_files := k_next k # k_open_files k,
    k_devs := (k_devs k)(d \<mapsto> dev\<lparr>kd_fd := Some (k_next k)\<rparr>)\<rparr>) (insert d up)"
proof -
  have old: "\<exists>fd. k_devs k e \<noteq> None \<and> map_option kd_fd (k_devs k e) = Some (Some fd) \<and> fd < k_next k" if "e \<in> up" for e
    using U that by (fastforce simp: upinv_def)
  have "map_option kd_fd (k_devs k e) \<noteq> Some (Some (k_next k))" if "e \<in> up" for e
    using old [OF that] by auto
  then show ?thesis using U d by (auto simp: upinv_def)
qed

lemma net_open_inv:
  assumes K: "kinv k" and U: "upinv k up" and d: "k_devs k d \<noteq> None" "d \<notin> up"
  obtains res k' where "eob_net_device_open d k = Inr (res, k')" and "kinv k'"
    and "upinv k' (if res = 0 then insert d up else up)"
proof -
  obtain dev where dev: "k_devs k d = Some dev" using d(1) by blast
  obtain r k1 where f: "take_file k = (r, k1)" by fastforce
  have k1: "k_next k1 = k_next k" "k_devs k1 = k_devs k" "k_open_files k1 = k_open_files k"
    using f by (auto split: list.splits)
  have K1: "kinv k1" "upinv k1 up" using take_file_keeps [OF f K] U by blast+
  show thesis
  proof (cases "r < 0")
    case True
    then show ?thesis using net_open_cases [OF dev] f K1 by (intro that [of "- ENODEV" k1]) (simp_all del: take_file.simps)
  next
    case False
    let ?k = "k1\<lparr>k_next := Suc (k_next k), k_open_files := k_next k # k_open_files k,
       k_devs := (k_devs k)(d \<mapsto> dev\<lparr>kd_fd := Some (k_next k)\<rparr>)\<rparr>"
    have "eob_net_device_open d k = Inr (0, ?k)" using net_open_cases [OF dev] f False by (simp del: take_file.simps)
    moreover have "kinv ?k" using kinv_file [OF K1(1), where d = d and dev = dev and n = "Suc (k_next k)"] dev
      by (simp add: k1)
    moreover have "upinv ?k (insert d up)" using upinv_opened [OF K1(2), of d dev] dev d(2) by (simp add: k1)
    ultimately show ?thesis by (intro that [of 0 ?k]) simp_all
  qed
qed

lemma net_stop_inv:
  assumes K: "kinv k" and U: "upinv k up" and d: "d \<in> up"
  obtains k' where "eob_device_release d k = Inr (0, k')" and "kinv k'" and "upinv k' (up - {d})"
proof -
  obtain dev fd where dev: "k_devs k d = Some dev" "kd_fd dev = Some fd" "fd \<in> set (k_open_files k)"
    using U d by (auto simp: upinv_def)
  let ?k = "k\<lparr>k_open_files := remove1 fd (k_open_files k)\<rparr>"
  have other: "kd_fd e \<noteq> Some fd" if "k_devs k x = Some e" "x \<in> up" "x \<noteq> d" for x e
    using U that d dev by (auto simp: upinv_def)
  have "distinct (k_open_files k)" using U by (simp add: upinv_def)
  then have s: "set (k_open_files ?k) = set (k_open_files k) - {fd}" "distinct (k_open_files ?k)" by simp_all
  have "upinv ?k (up - {d})"
    unfolding upinv_def s using U other s(2) unfolding upinv_def by fastforce
  moreover have "kinv ?k" using K by (simp add: kinv_def iface_ok_def)
  moreover have "eob_device_release d k = Inr (0, ?k)" using dev by (simp add: eob_device_release_def eob_close_fd_def)
  ultimately show thesis by (intro that)
qed

lemma kreach_inv: "kreach isspace kstrtoul k up \<Longrightarrow> kinv k \<and> upinv k up"
proof (induction rule: kreach.induct)
  case (load k0 k)
  then show ?case by (rule loaded_inv)
next
  case (store k up attr buf count res k')
  then have K: "kinv k" "upinv k up" by simp_all
  then have "upinv k' up" using upinv_frame store_frame [OF store.hyps(3)] by blast
  moreover have "kinv k'"
    using store_keeps [OF K(1), where isspace = isspace and attr = attr and buf = buf and count = count and kstrtoul = kstrtoul] store.hyps(3,4) by (simp add: keeps_or_def)
  ultimately show ?case by simp
next
  case (net_open k up d res k')
  then have K: "kinv k" "upinv k up" by simp_all
  obtain r' k'' where "eob_net_device_open d k = Inr (r', k'')" "kinv k''" "upinv k'' (if r' = 0 then insert d up else up)"
    by (rule net_open_inv [OF K net_open.hyps(2,3)])
  then show ?case using net_open.hyps(4) by simp
next
  case (net_stop k up d res k')
  then have K: "kinv k" "upinv k up" by simp_all
  obtain k'' where "eob_device_release d k = Inr (0, k'')" "kinv k''" "upinv k'' (up - {d})"
    by (rule net_stop_inv [OF K net_stop.hyps(2)])
  then show ?case using net_stop.hyps(3) by simp
next
  case (kernel_calls k up bs fs cs as)
  let ?k = "k\<lparr>k_allocs := as, k_calls := cs, k_files := fs, k_blks := bs\<rparr>"
  have "kinv ?k = kinv k" "upinv ?k up = upinv k up" by (rule kinv_cong upinv_cong; simp)+
  then show ?case using kernel_calls by simp
qed

section \<open>Unloading\<close>

lemma exit_leaves:
  assumes K: "kinv k"
  shows "let k' = oeblock_exit k in k_ctx k' = None \<and> \<not> k_root k' \<and> \<not> k_ifaces_kobj k' \<and>
    k_open_files k' = k_open_files k \<and>
    (\<forall>a\<in>set (k_ifaces k). \<exists>i d dev. k_heap k' a = Some i \<and> if_dev i = Some d \<and> k_devs k' d = Some dev) \<and>
    (unloaded k' \<longleftrightarrow> k_devs k = Map.empty \<and> k_open_files k = [])"
proof -
  have own: "\<exists>i d dev. k_heap k a = Some i \<and> if_dev i = Some d \<and> k_devs k d = Some dev" if "a \<in> set (k_ifaces k)" for a
  proof -
    have "k_heap k a \<noteq> None" using that kinvD(2) [OF K, of a] by simp
    then obtain i where i: "k_heap k a = Some i" by blast
    obtain d dev where "if_dev i = Some d" "k_devs k d = Some dev" using kinvD(3) [OF K i] unfolding iface_ok_def by blast
    then show ?thesis using i by simp
  qed
  have "k_ifaces k = []" if "k_devs k = Map.empty"
  proof (rule ccontr)
    assume "k_ifaces k \<noteq> []"
    then have "hd (k_ifaces k) \<in> set (k_ifaces k)" by simp
    then show False using own [of "hd (k_ifaces k)"] that by simp
  qed
  moreover have "k_heap k = Map.empty" if "k_ifaces k = []" using K that by (simp add: kinv_def)
  ultimately have "unloaded (oeblock_exit k) \<longleftrightarrow> k_devs k = Map.empty \<and> k_open_files k = []"
    unfolding unloaded_def by (auto simp: oeblock_exit_def eoblock_sysfs_cleanup_def)
  then show ?thesis using own by (simp add: Let_def) (simp add: oeblock_exit_def eoblock_sysfs_cleanup_def)
qed

section \<open>Property\<close>

text \<open>
  C5. The loaded module, in every state that it reaches by writes that do not report \<open>-ENODEV\<close>, by
  the opening and stopping of its network devices, and whatever the kernel answers to its calls:

  the table of interfaces has its invariant (each listed interface is allocated and has its own
  network device, and nothing else is allocated); a read of a control file, the opening of a device
  and the stop of one that is up touch no freed memory and do not abort, and neither does a write of
  any length, except an addition with a device of exactly 256 characters or with a name of 16 to 255
  characters (\<open>bad_write\<close>), which ends in a fault when the kernel grants what the write asks for; no two
  devices that are up share a file;

  unloading gives up the context and the directories and nothing else: every listed interface, its
  network device and every open file are still there afterwards, so that the module leaves the
  kernel as it found it only if no network device was ever left behind.
\<close>

theorem module_safe:
  assumes "kreach isspace kstrtoul k up"
  shows "kinv k \<and>
    (\<forall>attr buf count. attr_there k attr \<longrightarrow>
       (\<exists>s. eoblock_show attr k = Inr s) \<and>
       (\<not> bad_write isspace attr buf count \<longrightarrow> (\<exists>r. eoblock_store isspace kstrtoul attr buf count k = Inr r)) \<and>
       (bad_write isspace attr buf count \<longrightarrow>
         (\<exists>f. eoblock_store isspace kstrtoul attr buf count (k\<lparr>k_allocs := [], k_calls := []\<rparr>) = Inl f))) \<and>
    (\<forall>d. k_devs k d \<noteq> None \<longrightarrow> d \<notin> up \<longrightarrow> (\<exists>r. eob_net_device_open d k = Inr r)) \<and>
    (\<forall>d\<in>up. \<exists>k'. eob_device_release d k = Inr (0, k')) \<and>
    (\<forall>d\<in>up. \<forall>e\<in>up. map_option kd_fd (k_devs k d) = map_option kd_fd (k_devs k e) \<longrightarrow> d = e) \<and>
    (let k' = oeblock_exit k in k_ctx k' = None \<and> \<not> k_root k' \<and> \<not> k_ifaces_kobj k' \<and>
       k_open_files k' = k_open_files k \<and>
       (\<forall>a\<in>set (k_ifaces k). \<exists>i d dev. k_heap k' a = Some i \<and> if_dev i = Some d \<and> k_devs k' d = Some dev) \<and>
       (unloaded k' \<longleftrightarrow> k_devs k = Map.empty \<and> k_open_files k = []))"
proof -
  have K: "kinv k" and U: "upinv k up" using kreach_inv [OF assms] by blast+
  have "\<exists>s. eoblock_show attr k = Inr s" if "attr_there k attr" for attr
    using that kinvD(2) [OF K] by (cases attr) (auto simp: attr_there_def eoblock_iface_dev_name_show_def)
  moreover have "\<exists>r. eoblock_store isspace kstrtoul attr buf count k = Inr r" if "\<not> bad_write isspace attr buf count" for attr buf count
    using store_keeps [OF K, where isspace = isspace and attr = attr and buf = buf and count = count and kstrtoul = kstrtoul] that by (auto simp: keeps_or_def split: sum.splits)
  moreover have "\<exists>f. eoblock_store isspace kstrtoul attr buf count (k\<lparr>k_allocs := [], k_calls := []\<rparr>) = Inl f"
    if "bad_write isspace attr buf count" for attr buf count
  proof -
    have "kinv (k\<lparr>k_allocs := [], k_calls := []\<rparr>) = kinv k" by (rule kinv_cong) simp_all
    then show ?thesis using that mgmt_store_bad [of "k\<lparr>k_allocs := [], k_calls := []\<rparr>" isspace buf count] K
      by (simp add: bad_write_def willing_def)
  qed
  moreover have "\<exists>r. eob_net_device_open d k = Inr r" if "k_devs k d \<noteq> None" "d \<notin> up" for d
    using net_open_inv [OF K U that] by metis
  moreover have "\<exists>k'. eob_device_release d k = Inr (0, k')" if "d \<in> up" for d
    using net_stop_inv [OF K U that] by metis
  moreover have "d = e" if "d \<in> up" "e \<in> up" "map_option kd_fd (k_devs k d) = map_option kd_fd (k_devs k e)" for d e
    using U that unfolding upinv_def by blast
  moreover note exit_leaves [OF K]
  ultimately show ?thesis using K by blast
qed

text \<open>A run: the module is loaded, one interface is added, and its network device is opened.\<close>

definition demo_unloaded :: kernel where
  "demo_unloaded = \<lparr>k_next = 0, k_devs = Map.empty, k_heap = Map.empty, k_ifaces = [], k_setup_id = 0, k_ctx = None,
     k_open_files = [], k_root = False, k_ifaces_kobj = False, k_allocs = [], k_calls = [], k_files = [], k_blks = []\<rparr>"

definition demo_loaded :: kernel where
  "demo_loaded = demo_unloaded\<lparr>k_ctx := Some (replicate 32 None), k_root := True, k_ifaces_kobj := True\<rparr>"

theorem module_safe_witness:
  "\<exists>k. k_ifaces k = [0] \<and> kinv k \<and> (\<exists>k'. eob_device_release 1 k = Inr (0, k')) \<and>
    (\<exists>r. eoblock_store demo_space (\<lambda>_. Inr 0) Mgmt ''del eob1'' 8 k = Inr r) \<and> \<not> unloaded (oeblock_exit k)"
proof -
  let ?R = "kreach demo_space (\<lambda>_. Inr 0)"
  have init: "oeblock_init demo_unloaded = (0, demo_loaded)"
    by (simp add: oeblock_init_def eoblock_sysfs_init_def demo_unloaded_def demo_loaded_def)
  have u: "unloaded demo_unloaded" by (simp add: unloaded_def demo_unloaded_def)
  have R1: "?R demo_loaded {}" using u init by (rule kreach.load)
  have W: "willing demo_loaded" by (simp add: willing_def demo_loaded_def demo_unloaded_def)
  have K: "kinv demo_loaded" using loaded_inv [OF u init] ..
  let ?cmd = "add_command ''eob1'' ''/dev/sdb''" and ?k = "added ''eob1'' ''/dev/sdb'' demo_loaded"
  have st: "eoblock_store demo_space (\<lambda>_. Inr 0) Mgmt ?cmd (length ?cmd) demo_loaded = Inr (int (length ?cmd), ?k)"
    using mgmt_store_add [OF K W demo_space_ok] by simp
  have R2: "?R ?k {}"
    by (rule kreach.store [OF R1 _ st]) (simp_all add: attr_there_def add_command_def)
  have d: "k_devs ?k 1 \<noteq> None" by (simp add: added_def demo_loaded_def demo_unloaded_def)
  obtain k' where o: "eob_net_device_open 1 ?k = Inr (0, k')" "k_ifaces k' = [0]"
    by (simp add: eob_net_device_open_def eob_open_fd_def added_def demo_loaded_def demo_unloaded_def)
  have "?R k' (if (0 :: int) = 0 then insert 1 {} else {})" using kreach.net_open [OF R2 d _ o(1)] by blast
  then have "?R k' {1}" by simp
  note safe = module_safe [OF this]
  have "attr_there k' Mgmt" by (simp add: attr_there_def)
  moreover have "\<not> bad_write demo_space Mgmt ''del eob1'' 8"
    by (simp add: bad_write_def bad_request_def add_request_def eoblock_get_next_lexem_def is_sep_def demo_space_def
        strcasecmp_eq_def to_lower_def)
  ultimately have "\<exists>r. eoblock_store demo_space (\<lambda>_. Inr 0) Mgmt ''del eob1'' 8 k' = Inr r" using safe by blast
  moreover have "k_devs k' 1 \<noteq> None"
  proof -
    obtain k'' where "eob_device_release 1 k' = Inr (0, k'')" using safe by blast
    then show ?thesis by (cases "k_devs k' 1") (simp_all add: eob_device_release_def eob_close_fd_def)
  qed
  then have "k_devs k' \<noteq> Map.empty" by auto
  ultimately show ?thesis using safe o(2) unfolding Let_def by blast
qed

end
