(* ===== verification/Eob_Dump.thy ===== *)
theory Eob_Dump
  imports Eob_Header Eob_Text
begin

text \<open>
  The header as text: \<open>eob_dump_nodes\<close> and \<open>eob_hdr_dump\<close> of \<open>src/lib/liboblock.c\<close>, behind
  \<open>iface dump\<close>. The strings are those the \<open>printf\<close> formats spell; a line has room in its 256
  bytes, and so have the lines of all the nodes in the buffer.
\<close>

definition nl :: char where "nl = CHR 0x0A"
definition tab :: char where "tab = CHR 0x09"

definition dump_node :: "nat \<Rightarrow> eob_node_data_phys \<Rightarrow> string" where
  "dump_node i iter =
     tab # ''Node '' @ dec_digits i @ '': ip='' @ inet_ntoa (nd_ip_addr iter) @ ''; flags='' @
     (if EOB_NODE_IS_PRESENT iter then ''P'' else ''nP'') @ '';'' @ [nl]"

primrec dump_nodes_loop :: "nat \<Rightarrow> eob_node_data_phys list \<Rightarrow> string \<Rightarrow> string" where
  "dump_nodes_loop i [] buf = buf"
| "dump_nodes_loop i (iter # nodes) buf = dump_nodes_loop (Suc i) nodes (buf @ dump_node i iter)"

definition eob_dump_nodes :: "eob_node_data_phys list \<Rightarrow> eob_world \<Rightarrow> fault + string \<times> eob_world" where
  "eob_dump_nodes nodes w =
     (let (ok, w) = malloc_ok w in
      bindr (verify ok) (\<lambda>_. Inr (dump_nodes_loop 0 nodes [], w)))"

text \<open>\<open>asprintf\<close> fails when it gets no memory.\<close>

definition eob_hdr_dump :: "crc_fn \<Rightarrow> int \<Rightarrow> eob_world \<Rightarrow> fault + int \<times> string option \<times> eob_world" where
  "eob_hdr_dump crc fd w =
     bindr (eob_read_header crc fd zero_header w) (\<lambda>(rv, hdr, w).
     if rv \<noteq> 0 then bindr (SET_ERR rv) (\<lambda>rv. Inr (rv, None, w))
     else
       bindr (eob_dump_nodes (h_nodes hdr) w) (\<lambda>(nodes, w).
       let (ok, w) = malloc_ok w in
       if \<not> ok then Inr (SET_IO_ERR, None, w)
       else Inr (0, Some
         (''version: '' @ dec_digits (unat (h_version hdr)) @ [nl] @
          ''magic: '' @ dec_digits (unat (h_magic hdr)) @ [nl] @
          ''nodes_count: '' @ dec_digits (unat (h_nodes_count hdr)) @ [nl] @
          ''phys_blk_size: '' @ dec_digits (unat (h_phys_blk_size hdr)) @ [nl] @
          ''virt_blk_size: '' @ dec_digits (unat (h_virt_blk_size hdr)) @ [nl] @
          ''header_size: '' @ dec_digits EOB_HDR_SIZE @ [nl] @
          nodes @ [nl]), w)))"

end
