(* ===== verification/Eob_Open.thy ===== *)
theory Eob_Open
  imports Eob_Mail
begin

text \<open>
  Opening a device: \<open>eob_device_init_hdr\<close>, \<open>eob_device_open_fd\<close> and \<open>eob_device_open_file\<close>
  of \<open>src/lib/liboblock.c\<close>. An open adopts a valid header, refuses one with other block sizes
  and replaces one that is invalid, of another version, or is to be replaced by force.
\<close>

section \<open>Reading whatever is there\<close>

definition disk_header :: "eob_world \<Rightarrow> eob_header" where
  "disk_header w = header_of_bytes (bslice 0 EOB_HDR_SIZE (w_disk w))"

definition read_code :: "crc_fn \<Rightarrow> eob_header \<Rightarrow> int" where
  "read_code crc h =
     (if good_header crc h then EOB_OK
      else if eob_header_chksum_is_ok crc h = B_TRUE \<and> h_magic h = EOB_HDR_MAGIC then EOB_VER_MISM
      else EOB_CHKSUM)"

lemma wf_disk_header: "EOB_HDR_SIZE \<le> length (w_disk w) \<Longrightarrow> wf_header (disk_header w)"
  by (simp add: disk_header_def header.wf_dec)

lemma dev_read_any:
  assumes "calm w" and "EOB_HDR_SIZE \<le> length (w_disk w)" and "0 < d_fd dev"
  obtains w' where "eob_device_read_header crc dev zero_header w =
      Inr (read_code crc (disk_header w), disk_header w, w')" and "same_io w w'"
proof -
  let ?img = "bslice 0 EOB_HDR_SIZE (w_disk w)"
  have q: "quiet w" using assms(1) by (simp add: calm_def)
  have pos: "0 < max_pass" by (simp add: max_pass_def)
  have same: "same_io w w'" if "w_disk w' = w_disk w" "quiet w'" "w_mallocs w' = w_mallocs w" for w'
    using that by (simp add: same_io_def calm_def roomy_def)
  have fd: "eob_device_read_header crc dev zero_header w = Inr (read_header_loop crc max_pass zero_header w)"
    using assms(3) by (simp add: eob_device_read_header_def)
  show thesis
  proof (cases "read_code crc (disk_header w) = EOB_CHKSUM")
    case True
    then have "torn_header crc ?img"
      using assms(2) by (auto simp: torn_header_def read_code_def disk_header_def Let_def good_header_def split: if_splits)
    from read_header_loop_bad [OF q assms(2) wf_zero_header this, of max_pass] pos obtain w' where
      "read_header_loop crc max_pass zero_header w = (EOB_CHKSUM, disk_header w, w')" "w_disk w' = w_disk w"
      "quiet w'" "w_mallocs w' = w_mallocs w"
      unfolding disk_header_def by blast
    then show thesis using True fd same by (intro that [of w']) simp_all
  next
    case False
    obtain w' where rd: "sys_pread EOB_HDR_SIZE eob_header_offset w = (Some ?img, w')" and io: "same_io w w'"
      by (rule calm_pread [OF assms(1) header_offset_simps(1), of EOB_HDR_SIZE]) (simp only: header_offset_simps(2))
    have "length ?img = EOB_HDR_SIZE" using assms(2) by simp
    from read_header_pass_full [OF rd this wf_zero_header, of crc] False
    have "read_header_pass crc zero_header w = (Some (read_code crc (disk_header w)), disk_header w, w')"
      by (auto simp: read_code_def disk_header_def Let_def split: if_splits)
    then have "read_header_loop crc (Suc n) zero_header w = (read_code crc (disk_header w), disk_header w, w')" for n
      by simp
    then have "read_header_loop crc max_pass zero_header w = (read_code crc (disk_header w), disk_header w, w')"
      using pos by (metis Suc_pred)
    with fd show thesis by (intro that [OF _ io]) simp
  qed
qed

section \<open>The three outcomes\<close>

definition shifts_ok :: "eob_hw_addr \<Rightarrow> bool" where
  "shifts_ok a \<longleftrightarrow> 9 \<le> unat (hw_phys_blk_shift a) \<and> unat (hw_phys_blk_shift a) < 31 \<and>
     unat (hw_virt_blk_shift a) < 31"

text \<open>The header sizes an address asks for.\<close>

definition addr_sizes :: "eob_hw_addr \<Rightarrow> eob_header \<Rightarrow> bool" where
  "addr_sizes a h \<longleftrightarrow> h_phys_blk_size h = 2 ^ unat (hw_phys_blk_shift a) \<and>
     h_virt_blk_size h = 2 ^ unat (hw_virt_blk_shift a)"

text \<open>The header written for an address over what the device held.\<close>

definition fresh_header :: "crc_fn \<Rightarrow> eob_hw_addr \<Rightarrow> eob_header \<Rightarrow> eob_header" where
  "fresh_header crc a h = eob_header_chksum_calc crc
     (h\<lparr>h_version := EOB_HDR_VERSION, h_magic := EOB_HDR_MAGIC, h_nodes_count := ucast (hw_nodes_count a),
        h_virt_blk_size := 2 ^ unat (hw_virt_blk_shift a), h_phys_blk_size := 2 ^ unat (hw_phys_blk_shift a)\<rparr>)"

lemma fresh_header_simps [simp]:
  "good_header crc (fresh_header crc a h)" "wf_header (fresh_header crc a h) = wf_header h"
  "h_phys_blk_size (fresh_header crc a h) = 2 ^ unat (hw_phys_blk_shift a)"
  "h_virt_blk_size (fresh_header crc a h) = 2 ^ unat (hw_virt_blk_shift a)"
  "h_nodes_count (fresh_header crc a h) = ucast (hw_nodes_count a)"
  "h_nodes (fresh_header crc a h) = h_nodes h"
  by (simp_all add: fresh_header_def good_header_def wf_header_def)

lemma init_hdr_adopts:
  assumes "calm w" and "EOB_HDR_SIZE \<le> length (w_disk w)" and "0 < d_fd dev" and "shifts_ok (d_addr dev)"
    and "good_header crc (disk_header w)" and "addr_sizes (d_addr dev) (disk_header w)"
    and "hw_phys_blk_shift (d_addr dev) \<le> hw_virt_blk_shift (d_addr dev)"
  obtains w' where "eob_device_init_hdr crc dev 0 w = Inr (EOB_OK, dev\<lparr>d_hdr := disk_header w\<rparr>, w')"
    and "same_io w w'"
proof -
  obtain w' where rd: "eob_device_read_header crc dev zero_header w =
      Inr (read_code crc (disk_header w), disk_header w, w')" and io: "same_io w w'"
    using assms(1-3) by (rule dev_read_any)
  have "unat (hw_phys_blk_shift (d_addr dev)) \<le> unat (hw_virt_blk_shift (d_addr dev))"
    using assms(7) by (simp add: word_le_nat_alt)
  then have "\<not> (2 ^ unat (hw_virt_blk_shift (d_addr dev)) :: u64) < 2 ^ unat (hw_phys_blk_shift (d_addr dev))"
    using assms(4) by (simp add: word_less_nat_alt unat_pow2 shifts_ok_def)
  then show thesis
    using assms(4-6) rd io
    by (intro that [of w']) (simp_all add: eob_device_init_hdr_def read_code_def shifts_ok_def addr_sizes_def int_shl1_def)
qed

lemma init_hdr_refuses:
  assumes "calm w" and "EOB_HDR_SIZE \<le> length (w_disk w)" and "0 < d_fd dev" and "shifts_ok (d_addr dev)"
    and "good_header crc (disk_header w)" and "\<not> addr_sizes (d_addr dev) (disk_header w)"
  obtains w' where "eob_device_init_hdr crc dev 0 w = Inr (EOB_INVAL, dev, w')" and "same_io w w'"
proof -
  obtain w' where rd: "eob_device_read_header crc dev zero_header w =
      Inr (read_code crc (disk_header w), disk_header w, w')" and io: "same_io w w'"
    using assms(1-3) by (rule dev_read_any)
  then show thesis
    using assms(4-6)
    by (intro that [of w']) (auto simp add: eob_device_init_hdr_def read_code_def shifts_ok_def addr_sizes_def int_shl1_def)
qed

lemma init_hdr_rewrites_frame:
  assumes c: "calm w" and len: "EOB_HDR_SIZE \<le> length (w_disk w)" and fd: "0 < d_fd dev" and sh: "shifts_ok (d_addr dev)"
    and buf: "iov_base (d_phys_buff dev) = Some b" "length b = iov_len (d_phys_buff dev)"
      "iov_len (d_phys_buff dev) = 2 ^ unat (hw_phys_blk_shift (d_addr dev))"
    and r: "force \<noteq> 0 \<or> \<not> good_header crc (disk_header w)"
  obtains w' dev' where "eob_device_init_hdr crc dev force w = Inr (EOB_OK, dev', w')"
    and "d_hdr dev' = fresh_header crc (d_addr dev) (disk_header w)"
    and "d_addr dev' = d_addr dev" and "d_fd dev' = d_fd dev" and "dev_ready (dev', w')"
    and "hdr_state crc (w_disk w') = Some (fresh_header crc (d_addr dev) (disk_header w))"
    and "\<exists>rest. w_disk w' = overlay 0 (header_bytes (fresh_header crc (d_addr dev) (disk_header w)) @ rest) (w_disk w) \<and>
      EOB_HDR_SIZE + length rest = iov_len (d_phys_buff dev)"
proof -
  let ?h = "fresh_header crc (d_addr dev) (disk_header w)"
  obtain w1 where rd: "eob_device_read_header crc dev zero_header w =
      Inr (read_code crc (disk_header w), disk_header w, w1)" and io: "same_io w w1"
    using c len fd by (rule dev_read_any)
  have q: "quiet w1" using same_ioD(1) [OF io c] by (simp add: calm_def)
  have "512 \<le> (2::nat) ^ unat (hw_phys_blk_shift (d_addr dev))"
    using power_increasing [of 9 "unat (hw_phys_blk_shift (d_addr dev))" "2::nat"] sh by (simp add: shifts_ok_def)
  then have fits: "dev_fits (dev, w1) ?h"
    using buf sh wf_disk_header [OF len] by (simp add: dev_fits_def unat_pow2 shifts_ok_def layout_simps)
  have rdy: "dev_ready (dev, w1)" using q fd buf by (simp add: dev_ready_def)
  obtain dev' w' rest where wr: "eob_device_write_header dev ?h w1 = Inr (0, dev', w')"
    and dev': "dev' = dev\<lparr>d_phys_buff := \<lparr>iov_base = Some (header_bytes ?h @ rest), iov_len = iov_len (d_phys_buff dev)\<rparr>\<rparr>"
    and d: "w_disk w' = overlay 0 (header_bytes ?h @ rest) (w_disk w1)" and q': "quiet w'"
    and lr: "EOB_HDR_SIZE + length rest = iov_len (d_phys_buff dev)"
    by (rule eob_device_write_header_quiet [OF rdy fits])
  have st: "hdr_state crc (w_disk w') = Some ?h"
    unfolding d using wf_disk_header [OF len] by (intro hdr_state_overlay) simp_all
  have rdy': "dev_ready (dev'\<lparr>d_hdr := ?h\<rparr>, w')"
    using fd q' lr wf_disk_header [OF len] by (simp add: dev_ready_def dev' header.length_enc)
  have "read_code crc (disk_header w) \<in> {EOB_OK, EOB_VER_MISM, EOB_CHKSUM}"
    and "good_header crc (disk_header w) \<longleftrightarrow> read_code crc (disk_header w) = EOB_OK"
    by (simp_all add: read_code_def)
  then have "eob_device_init_hdr crc dev force w = Inr (EOB_OK, dev'\<lparr>d_hdr := ?h\<rparr>, w')"
    using r rd wr sh
    by (auto simp: eob_device_init_hdr_def shifts_ok_def int_shl1_def fresh_header_def [symmetric] Let_def)
  then show thesis
    using st rdy' d lr same_ioD(2) [OF io] by (intro that [of "dev'\<lparr>d_hdr := ?h\<rparr>" w']) (auto simp: dev')
qed

lemma init_hdr_rewrites:
  assumes c: "calm w" and len: "EOB_HDR_SIZE \<le> length (w_disk w)" and fd: "0 < d_fd dev" and sh: "shifts_ok (d_addr dev)"
    and buf: "iov_base (d_phys_buff dev) = Some b" "length b = iov_len (d_phys_buff dev)"
      "iov_len (d_phys_buff dev) = 2 ^ unat (hw_phys_blk_shift (d_addr dev))"
    and r: "force \<noteq> 0 \<or> \<not> good_header crc (disk_header w)"
  obtains w' dev' where "eob_device_init_hdr crc dev force w = Inr (EOB_OK, dev', w')"
    and "d_hdr dev' = fresh_header crc (d_addr dev) (disk_header w)"
    and "d_addr dev' = d_addr dev" and "d_fd dev' = d_fd dev" and "dev_ready (dev', w')"
    and "hdr_state crc (w_disk w') = Some (fresh_header crc (d_addr dev) (disk_header w))"
  using assms by (rule init_hdr_rewrites_frame)

section \<open>Opening by descriptor and by path\<close>

lemma shifts_phys: "shifts_ok a \<Longrightarrow> unat (hw_phys_blk_shift a) < 31"
  by (simp add: shifts_ok_def)

definition fresh_self :: "eob_hw_addr \<Rightarrow> string \<Rightarrow> bytes \<Rightarrow> eob_device" where
  "fresh_self addr name buf = \<lparr>d_addr = addr, d_path = take PATH_MAX name, d_fd = 0, d_hdr = zero_header,
     d_phys_buff = \<lparr>iov_base = Some buf, iov_len = 2 ^ unat (hw_phys_blk_shift addr)\<rparr>\<rparr>"

lemma open_self_ok:
  assumes "calm w" and "unat (hw_phys_blk_shift addr) < 31"
  obtains w' buf where "open_self addr name w = Inr (Inr (fresh_self addr name buf), w')"
    and "length buf = 2 ^ unat (hw_phys_blk_shift addr)" and "same_io w w'"
proof -
  let ?p = "unat (hw_phys_blk_shift addr)"
  obtain w1 where w1: "malloc_ok w = (True, w1)" "same_io w w1"
    using assms(1) by (rule calm_malloc_ok)
  obtain w2 m where w2: "eob_iovec_alloc \<lparr>iov_base = None, iov_len = 2 ^ ?p\<rparr> w1 =
      Inr (0, \<lparr>iov_base = None, iov_len = 2 ^ ?p\<rparr>\<lparr>iov_base := Some m\<rparr>, w2)"
    "length m = iov_len \<lparr>iov_base = None, iov_len = 2 ^ ?p\<rparr>" "same_io w1 w2"
    by (rule calm_iovec_alloc [OF same_ioD(1) [OF w1(2) assms(1)]])
  have nat: "nat (2 ^ ?p :: int) = 2 ^ ?p" by (simp add: nat_power_eq)
  have "open_self addr name w = Inr (Inr (fresh_self addr name m), w2)"
    using assms(2) w1(1) w2(1)
    by (simp add: nat open_self_def int_shl1_def fresh_self_def del: malloc_ok.simps)
  from that [OF this _ same_io_trans [OF w1(2) w2(3)]] w2(2) show thesis by simp
qed

text \<open>The block sizes an address asks for are ones the transfers handle.\<close>

definition shifts_transfer :: "eob_hw_addr \<Rightarrow> bool" where
  "shifts_transfer a \<longleftrightarrow> shifts_ok a \<and> unat (hw_phys_blk_shift a) \<le> unat (hw_virt_blk_shift a) \<and>
     unat (hw_virt_blk_shift a) \<le> unat (hw_phys_blk_shift a) + 10"

lemma blocks_of_sizes:
  "shifts_transfer (d_addr dev) \<Longrightarrow> addr_sizes (d_addr dev) (d_hdr dev) \<Longrightarrow>
   blocks dev (unat (hw_phys_blk_shift (d_addr dev))) (unat (hw_virt_blk_shift (d_addr dev)))"
  by (simp add: blocks_def shifts_transfer_def shifts_ok_def addr_sizes_def)

lemma open_fd_eq:
  assumes "calm w" and "unat (hw_phys_blk_shift addr) < 31"
  obtains w' buf where "\<And>crc fd force. eob_device_open_fd crc addr fd name force w =
      finish_open crc ((fresh_self addr name buf)\<lparr>d_fd := fd\<rparr>) force w'"
    and "length buf = 2 ^ unat (hw_phys_blk_shift addr)" and "same_io w w'"
proof -
  obtain w' buf where "open_self addr name w = Inr (Inr (fresh_self addr name buf), w')"
    "length buf = 2 ^ unat (hw_phys_blk_shift addr)" "same_io w w'"
    using assms by (rule open_self_ok)
  then show thesis by (intro that [of buf w']) (simp_all add: eob_device_open_fd_def)
qed

lemma disk_header_io: "same_io w w' \<Longrightarrow> disk_header w' = disk_header w"
  by (simp add: disk_header_def same_ioD(2))

lemma demo_disk_header: "disk_header demo_cluster_world = demo_header"
proof -
  have wf: "wf_header demo_header" using demo_fits by (simp add: fd_fits_def)
  then have "bslice 0 EOB_HDR_SIZE (w_disk demo_cluster_world) = header_bytes demo_header"
    by (simp add: demo_cluster_world_def bslice_def header.length_enc)
  then show ?thesis using wf by (simp add: disk_header_def header.dec_enc)
qed

lemma demo_shifts: "shifts_transfer (demo_addr n)" "hw_phys_blk_shift (demo_addr n) = 9"
    "hw_virt_blk_shift (demo_addr n) = 9"
  by (simp_all add: demo_addr_def EOB_HW_ADDR_INIT_DEFAULT_def EOB_HW_ADDR_INIT_def shifts_transfer_def shifts_ok_def)

lemma demo_count: "hw_nodes_count (demo_addr n) = 32"
  by (simp add: demo_addr_def EOB_HW_ADDR_INIT_DEFAULT_def EOB_HW_ADDR_INIT_def)

lemma demo_addr_sizes: "addr_sizes (demo_addr n) demo_header" "h_virt_blk_size demo_header = 512"
  by (simp_all add: addr_sizes_def demo_shifts demo_header_def init_header_def dflt_def)

section \<open>The ways an open can go\<close>

text \<open>
  Opening a device that holds a valid header of the block sizes the address asks for
  succeeds without changing the device; the handle carries that header and is one sending and
  receiving work on.
\<close>

lemma open_adopts:
  assumes "calm w" and "EOB_HDR_SIZE \<le> length (w_disk w)" and "0 < fd" and "shifts_transfer addr"
    and "good_header crc (disk_header w)" and "addr_sizes addr (disk_header w)"
  shows "\<exists>dev w'. eob_device_open_fd crc addr fd name 0 w = Inr (EOB_OK, Some dev, w') \<and>
    w_disk w' = w_disk w \<and> d_hdr dev = disk_header w \<and> d_addr dev = addr \<and> d_fd dev = fd \<and>
    blocks dev (unat (hw_phys_blk_shift addr)) (unat (hw_virt_blk_shift addr))"
proof -
  have sh: "shifts_ok addr" "hw_phys_blk_shift addr \<le> hw_virt_blk_shift addr"
    using assms(4) by (simp_all add: shifts_transfer_def word_le_nat_alt)
  obtain w1 buf where o: "eob_device_open_fd crc addr fd name 0 w =
      finish_open crc ((fresh_self addr name buf)\<lparr>d_fd := fd\<rparr>) 0 w1" and io: "same_io w w1"
    using open_fd_eq [OF assms(1) shifts_phys [OF sh(1)]] by metis
  let ?self = "(fresh_self addr name buf)\<lparr>d_fd := fd\<rparr>"
  have self: "d_addr ?self = addr" "d_fd ?self = fd" by (simp_all add: fresh_self_def)
  obtain w' where i: "eob_device_init_hdr crc ?self 0 w1 = Inr (EOB_OK, ?self\<lparr>d_hdr := disk_header w1\<rparr>, w')"
    and io': "same_io w1 w'"
    by (rule init_hdr_adopts [of w1 ?self crc])
      (use assms sh self same_ioD [OF io] disk_header_io [OF io] in auto)
  have "blocks (?self\<lparr>d_hdr := disk_header w\<rparr>) (unat (hw_phys_blk_shift addr)) (unat (hw_virt_blk_shift addr))"
    using blocks_of_sizes [of "?self\<lparr>d_hdr := disk_header w\<rparr>"] assms(4,6) self by simp
  then show ?thesis
    using o i self disk_header_io [OF io] same_ioD(2) [OF io] same_ioD(2) [OF io']
    by (simp add: finish_open_def)
qed

text \<open>
  Opening a device that holds a valid header of other block sizes fails with \<open>EOB_INVAL\<close>,
  gives no handle and leaves the device as it is.
\<close>

lemma open_refuses:
  assumes "calm w" and "EOB_HDR_SIZE \<le> length (w_disk w)" and "0 < fd" and "shifts_ok addr"
    and "good_header crc (disk_header w)" and "\<not> addr_sizes addr (disk_header w)"
  shows "\<exists>w'. eob_device_open_fd crc addr fd name 0 w = Inr (EOB_INVAL, None, w') \<and> w_disk w' = w_disk w"
proof -
  obtain w1 buf where o: "eob_device_open_fd crc addr fd name 0 w =
      finish_open crc ((fresh_self addr name buf)\<lparr>d_fd := fd\<rparr>) 0 w1" and io: "same_io w w1"
    using open_fd_eq [OF assms(1) shifts_phys [OF assms(4)]] by metis
  let ?self = "(fresh_self addr name buf)\<lparr>d_fd := fd\<rparr>"
  have self: "d_addr ?self = addr" "d_fd ?self = fd" by (simp_all add: fresh_self_def)
  obtain w' where i: "eob_device_init_hdr crc ?self 0 w1 = Inr (EOB_INVAL, ?self, w')"
    and io': "same_io w1 w'"
    by (rule init_hdr_refuses [of w1 ?self crc])
      (use assms self same_ioD [OF io] disk_header_io [OF io] in auto)
  then show ?thesis
    using o same_ioD(2) [OF io] same_ioD(2) [OF io'] by (simp add: finish_open_def)
qed

text \<open>
  Opening by force, or a device whose header is invalid or of another version, writes a
  valid header with the sizes and node count of the address and succeeds. The node table of
  that header is the one the device held, whether or not its checksum was right.
\<close>

lemma open_rewrites:
  assumes "calm w" and "EOB_HDR_SIZE \<le> length (w_disk w)" and "0 < fd" and "shifts_transfer addr"
    and "force \<noteq> 0 \<or> \<not> good_header crc (disk_header w)"
  shows "\<exists>dev w' h. eob_device_open_fd crc addr fd name force w = Inr (EOB_OK, Some dev, w') \<and>
    hdr_state crc (w_disk w') = Some h \<and> d_hdr dev = h \<and> addr_sizes addr h \<and>
    h_nodes_count h = ucast (hw_nodes_count addr) \<and> h_nodes h = h_nodes (disk_header w) \<and>
    blocks dev (unat (hw_phys_blk_shift addr)) (unat (hw_virt_blk_shift addr))"
proof -
  have sh: "shifts_ok addr" using assms(4) by (simp add: shifts_transfer_def)
  obtain w1 buf where o: "eob_device_open_fd crc addr fd name force w =
      finish_open crc ((fresh_self addr name buf)\<lparr>d_fd := fd\<rparr>) force w1"
    and len: "length buf = 2 ^ unat (hw_phys_blk_shift addr)" and io: "same_io w w1"
    using open_fd_eq [OF assms(1) shifts_phys [OF sh]] by metis
  let ?self = "(fresh_self addr name buf)\<lparr>d_fd := fd\<rparr>"
  have self: "d_addr ?self = addr" "d_fd ?self = fd" "iov_base (d_phys_buff ?self) = Some buf"
    "iov_len (d_phys_buff ?self) = 2 ^ unat (hw_phys_blk_shift addr)"
    by (simp_all add: fresh_self_def)
  let ?h = "fresh_header crc addr (disk_header w)"
  obtain dev w' where i: "eob_device_init_hdr crc ?self force w1 = Inr (EOB_OK, dev, w')"
    and d: "d_hdr dev = ?h" "d_addr dev = addr" and st: "hdr_state crc (w_disk w') = Some ?h"
    by (rule init_hdr_rewrites [of w1 ?self buf force crc])
      (use assms sh self len same_ioD [OF io] disk_header_io [OF io] in auto)
  have "addr_sizes addr ?h" by (simp add: addr_sizes_def)
  moreover have "blocks dev (unat (hw_phys_blk_shift addr)) (unat (hw_virt_blk_shift addr))"
    using blocks_of_sizes [of dev] assms(4) d by (simp add: addr_sizes_def)
  ultimately show ?thesis
    using o i d st by (intro exI [of _ dev] exI [of _ w'] exI [of _ ?h]) (simp add: finish_open_def)
qed

text \<open>
  A descriptor that is not positive, standard input included, aborts the process while
  its header is read, before anything is written.
\<close>

lemma open_fd_not_positive:
  assumes "calm w" and "shifts_ok addr" and "fd \<le> 0"
  shows "eob_device_open_fd crc addr fd name force w = Inl Abort"
proof -
  obtain w1 buf where "eob_device_open_fd crc addr fd name force w =
      finish_open crc ((fresh_self addr name buf)\<lparr>d_fd := fd\<rparr>) force w1"
    using open_fd_eq [OF assms(1) shifts_phys [OF assms(2)]] by metis
  then show ?thesis
    using assms(3) by (simp add: finish_open_def eob_device_init_hdr_def eob_device_read_header_def Let_def)
qed

section \<open>Property\<close>

text \<open>
  C16. The outcomes of opening a descriptor. One that is not positive, standard input included,
  aborts. A valid header of the block sizes that the address asks for is adopted without a write;
  one of other sizes is refused with \<open>EOB_INVAL\<close>, again without a write. By force, or over an
  invalid header, a valid header with the sizes and the node count of the address is written; its
  node table is the one the device held, whether or not the checksum of that was right. A handle
  that is returned is one sending and receiving work on.
\<close>

theorem open_outcomes:
  assumes "calm w" and "EOB_HDR_SIZE \<le> length (w_disk w)" and "shifts_transfer addr"
  shows "if fd \<le> 0 then eob_device_open_fd crc addr fd name force w = Inl Abort
    else if force = 0 \<and> good_header crc (disk_header w) \<and> \<not> addr_sizes addr (disk_header w) then
      \<exists>w'. eob_device_open_fd crc addr fd name force w = Inr (EOB_INVAL, None, w') \<and> w_disk w' = w_disk w
    else \<exists>dev w'. eob_device_open_fd crc addr fd name force w = Inr (EOB_OK, Some dev, w') \<and>
      blocks dev (unat (hw_phys_blk_shift addr)) (unat (hw_virt_blk_shift addr)) \<and>
      (if force = 0 \<and> good_header crc (disk_header w) then w_disk w' = w_disk w \<and> d_hdr dev = disk_header w
       else hdr_state crc (w_disk w') = Some (d_hdr dev) \<and> addr_sizes addr (d_hdr dev) \<and>
         h_nodes_count (d_hdr dev) = ucast (hw_nodes_count addr) \<and> h_nodes (d_hdr dev) = h_nodes (disk_header w))"
proof -
  have sh: "shifts_ok addr" using assms(3) by (simp add: shifts_transfer_def)
  consider "fd \<le> 0" | "0 < fd" "force = 0" "good_header crc (disk_header w)" "\<not> addr_sizes addr (disk_header w)"
    | "0 < fd" "force = 0" "good_header crc (disk_header w)" "addr_sizes addr (disk_header w)"
    | "0 < fd" "force \<noteq> 0 \<or> \<not> good_header crc (disk_header w)" by linarith
  then show ?thesis
  proof cases
    case 1
    then show ?thesis using open_fd_not_positive [OF assms(1) sh] by simp
  next
    case 2
    then show ?thesis using open_refuses [OF assms(1,2) _ sh] by auto
  next
    case 3
    then show ?thesis using open_adopts [OF assms(1,2) 3(1) assms(3) 3(3,4), of name] by auto
  next
    case 4
    then show ?thesis using open_rewrites [OF assms(1,2) 4(1) assms(3) 4(2), of name] by auto
  qed
qed

theorem open_outcomes_witness:
  "eob_device_open_fd demo_crc (demo_addr 1) 0 ''-'' 0 demo_cluster_world = Inl Abort \<and>
   (\<exists>w'. eob_device_open_fd demo_crc ((demo_addr 1)\<lparr>hw_virt_blk_shift := 12\<rparr>) 3 ''vol'' 0 demo_cluster_world =
      Inr (EOB_INVAL, None, w') \<and> w_disk w' = w_disk demo_cluster_world) \<and>
   (\<exists>dev w'. eob_device_open_fd demo_crc (demo_addr 1) 3 ''vol'' 0 demo_cluster_world = Inr (EOB_OK, Some dev, w') \<and>
      w_disk w' = w_disk demo_cluster_world \<and> d_hdr dev = demo_header) \<and>
   (\<exists>dev w'. eob_device_open_fd demo_crc (demo_addr 1) 3 ''vol'' 1 demo_cluster_world = Inr (EOB_OK, Some dev, w') \<and>
      hdr_state demo_crc (w_disk w') = Some (d_hdr dev) \<and> h_nodes_count (d_hdr dev) = 32)"
proof -
  let ?other = "(demo_addr 1)\<lparr>hw_virt_blk_shift := 12\<rparr>"
  have len: "EOB_HDR_SIZE \<le> length (w_disk demo_cluster_world)" using demo_cluster_length by (simp add: layout_simps)
  have other: "shifts_transfer ?other" "\<not> addr_sizes ?other demo_header"
    using demo_shifts demo_addr_sizes by (simp_all add: addr_sizes_def shifts_ok_def shifts_transfer_def)
  note run = open_outcomes [where crc = demo_crc, OF demo_calm(1) len]
    and facts = demo_good demo_disk_header demo_addr_sizes demo_count other(2)
  show ?thesis
  proof (intro conjI)
    show "eob_device_open_fd demo_crc (demo_addr 1) 0 ''-'' 0 demo_cluster_world = Inl Abort"
      using run [where fd = 0 and name = "''-''" and force = 0, OF demo_shifts(1) [of 1]] by simp
  qed (use run [where fd = 3 and name = "''vol''" and force = 0, OF other(1)] facts
      run [where fd = 3 and name = "''vol''" and force = 0, OF demo_shifts(1) [of 1]]
      run [where fd = 3 and name = "''vol''" and force = 1, OF demo_shifts(1) [of 1]] in auto)
qed

end
