(* ===== verification/Eob_Disk.thy ===== *)
theory Eob_Disk
  imports Eob_Open Eob_Text
begin

text \<open>
  Finding the disk behind a path and opening it: \<open>part_name_to_disk_name\<close>, \<open>find_disk_by_path\<close>,
  \<open>udev_get_phys_blk_size\<close>, \<open>eob_device_open_disk\<close> and \<open>eob_device_open\<close> of
  \<open>src/lib/liboblock.c\<close>. What libudev lists, and what \<open>access\<close>, \<open>stat64\<close> and \<open>open\<close> answer, is given
  by the environment.
\<close>

section \<open>The environment\<close>

text \<open>
  A block device as libudev describes it: the properties \<open>DEVNAME\<close> and \<open>DEVTYPE\<close> and the attribute
  \<open>queue/physical_block_size\<close>, each of which may be missing (a null pointer).
\<close>

record udev_dev =
  ud_devname :: "string option"
  ud_devtype :: "string option"
  ud_phys :: "string option"

text \<open>What \<open>st_mode\<close> says a path is.\<close>

datatype file_type = S_BLK | S_REG | S_OTHER

text \<open>
  \<open>u_scan n\<close> is the result of the n-th enumeration, \<open>None\<close> when \<open>udev_new\<close> fails; \<open>u_stat\<close> is
  \<open>None\<close> when \<open>stat64\<close> fails; disks are opened with \<open>O_DIRECT\<close>.
\<close>

record disk_env =
  u_scan :: "nat \<Rightarrow> udev_dev list option"
  u_access :: "string \<Rightarrow> int"
  u_stat :: "string \<Rightarrow> file_type option"
  u_open :: "string \<Rightarrow> int"
  u_open_direct :: "string \<Rightarrow> int"

section \<open>The disk of a path\<close>

definition part_name_to_disk_name :: "string \<Rightarrow> eob_world \<Rightarrow> string option \<times> eob_world" where
  "part_name_to_disk_name name w =
     (if \<exists>c\<in>set name. is_digit c then
        let (ok, w) = malloc_ok w in (if ok then Some (takeWhile (\<lambda>c. \<not> is_digit c) name) else None, w)
      else (None, w))"

definition c_strdup :: "string \<Rightarrow> eob_world \<Rightarrow> string option \<times> eob_world" where
  "c_strdup s w = (let (ok, w) = malloc_ok w in (if ok then Some s else None, w))"

text \<open>\<open>STR_EQ\<close> of a property with a string: \<open>strcmp\<close> of a null pointer is undefined.\<close>

definition STR_EQ :: "string option \<Rightarrow> string \<Rightarrow> fault + bool" where
  "STR_EQ a b = bindr (c_deref a) (\<lambda>a. Inr (a = b))"

primrec find_disk_loop :: "string \<Rightarrow> udev_dev list \<Rightarrow> string option \<Rightarrow> eob_world \<Rightarrow> fault + string option \<times> eob_world" where
  "find_disk_loop disk_path [] disk w = Inr (disk, w)"
| "find_disk_loop disk_path (dev # devs) disk w =
     bindr (STR_EQ (ud_devname dev) disk_path) (\<lambda>hit.
     if hit then
       bindr (STR_EQ (ud_devtype dev) ''partition'') (\<lambda>part.
       let (disk, w) = (if part then part_name_to_disk_name disk_path w else (disk, w)) in
       bindr (STR_EQ (ud_devtype dev) ''disk'') (\<lambda>whole.
       let (disk, w) = (if whole then c_strdup disk_path w else (disk, w)) in
       find_disk_loop disk_path devs disk w))
     else find_disk_loop disk_path devs disk w)"

definition find_disk_by_path :: "udev_dev list option \<Rightarrow> string \<Rightarrow> eob_world \<Rightarrow> fault + string option \<times> eob_world" where
  "find_disk_by_path scan disk_path w =
     (case scan of None \<Rightarrow> Inr (None, w) | Some devs \<Rightarrow> find_disk_loop disk_path devs None w)"

text \<open>\<open>*pphys_blk_size\<close> is \<open>None\<close> while it is not written.\<close>

primrec phys_size_loop :: "string \<Rightarrow> udev_dev list \<Rightarrow> u64 option \<Rightarrow> fault + u64 option" where
  "phys_size_loop disk_path [] sz = Inr sz"
| "phys_size_loop disk_path (dev # devs) sz =
     bindr (STR_EQ (ud_devname dev) disk_path) (\<lambda>hit.
     if hit then
       bindr (STR_EQ (ud_devtype dev) ''disk'') (\<lambda>whole. bindr (verify whole) (\<lambda>_.
       bindr (c_deref (ud_phys dev)) (\<lambda>s. bindr (c_atoi s) (\<lambda>n.
       phys_size_loop disk_path devs (Some (word_of_int n))))))
     else phys_size_loop disk_path devs sz)"

definition udev_get_phys_blk_size :: "udev_dev list option \<Rightarrow> string \<Rightarrow> fault + int \<times> u64 option" where
  "udev_get_phys_blk_size scan disk_path =
     (case scan of
        None \<Rightarrow> bindr (SET_ERR EOB_INVAL) (\<lambda>rv. Inr (rv, None))
      | Some devs \<Rightarrow> bindr (phys_size_loop disk_path devs None) (\<lambda>size. Inr (0, size)))"

section \<open>Opening\<close>

text \<open>
  The argument of the second \<open>highbit64\<close> has type \<open>int\<close>, so its \<open>sizeof\<close> is 4. The address is a
  local variable: what is not assigned of it is arbitrary. The log message evaluates a shift.
\<close>

definition eob_device_open_disk ::
    "disk_env \<Rightarrow> crc_fn \<Rightarrow> int \<Rightarrow> int \<Rightarrow> string \<Rightarrow> int \<Rightarrow> eob_world \<Rightarrow> fault + int \<times> eob_device option \<times> eob_world" where
  "eob_device_open_disk env crc node_id nodes_count path force w =
     bindr (find_disk_by_path (u_scan env 0) path w) (\<lambda>(path_blk, w).
     if path_blk = None then bindr (SET_ERR EOB_NODEV) (\<lambda>rv. Inr (rv, None, w))
     else
       bindr (udev_get_phys_blk_size (u_scan env 1) path) (\<lambda>(rv, size).
       if rv \<noteq> 0 then bindr (SET_ERR rv) (\<lambda>rv. Inr (rv, None, w))
       else
         let fd = u_open_direct env path in
         if fd < 0 then Inr (SET_IO_ERR, None, w)
         else
           bindr (c_deref size) (\<lambda>phys_blk_size.
           let addr = \<lparr>hw_node_id = word_of_int node_id, hw_nodes_count = word_of_int nodes_count,
                 hw_virt_blk_shift = ucast (highbit64_at 4 (4 * 4096)),
                 hw_phys_blk_shift = ucast (highbit64_at 8 phys_blk_size), hw_pad = junk_bytes 12 w\<rparr> in
           bindr (int_shl1 (hw_phys_blk_shift addr)) (\<lambda>_.
           eob_device_open_fd crc addr fd path force w))))"

text \<open>
  The library's \<open>eob_device_open\<close>; the suffix tells it from the kernel module's function of that name.
\<close>

definition eob_device_open_lib ::
    "disk_env \<Rightarrow> crc_fn \<Rightarrow> int \<Rightarrow> int \<Rightarrow> string \<Rightarrow> int \<Rightarrow> eob_world \<Rightarrow> fault + int \<times> eob_device option \<times> eob_world" where
  "eob_device_open_lib env crc node_id nodes_count path force w =
     (if \<not> u_access env path \<noteq> 0 then bindr (SET_ERR EOB_NODEV) (\<lambda>rv. Inr (rv, None, w))
      else
        (case u_stat env path of
           None \<Rightarrow> Inr (SET_IO_ERR, None, w)
         | Some S_BLK \<Rightarrow> eob_device_open_disk env crc node_id nodes_count path force w
         | Some S_REG \<Rightarrow>
             eob_device_open_file (u_open env) crc (EOB_HW_ADDR_INIT_DEFAULT node_id nodes_count) path force w
         | Some S_OTHER \<Rightarrow> bindr (SET_ERR EOB_INVAL) (\<lambda>rv. Inr (rv, None, w))))"

section \<open>What is found\<close>

text \<open>A listed device with another name than the path.\<close>

definition other_dev :: "string \<Rightarrow> udev_dev \<Rightarrow> bool" where
  "other_dev path d \<longleftrightarrow> (case ud_devname d of None \<Rightarrow> False | Some n \<Rightarrow> n \<noteq> path)"

lemma STR_EQ_simps [simp]: "STR_EQ (Some a) b = Inr (a = b)" "STR_EQ None b = Inl UB"
  by (simp_all add: STR_EQ_def)

lemma other_devD: "other_dev path d \<Longrightarrow> STR_EQ (ud_devname d) path = Inr False"
  by (auto simp: other_dev_def split: option.splits)

lemma find_disk_others: "\<forall>d\<in>set A. other_dev path d \<Longrightarrow> find_disk_loop path (A @ ds) disk w = find_disk_loop path ds disk w"
  by (induction A) (simp_all add: other_devD)

lemma phys_size_others: "\<forall>d\<in>set A. other_dev path d \<Longrightarrow> phys_size_loop path (A @ ds) sz = phys_size_loop path ds sz"
  by (induction A) (simp_all add: other_devD)

text \<open>The path is listed once, as a device of the given type.\<close>

definition listed :: "string \<Rightarrow> string \<Rightarrow> udev_dev list \<Rightarrow> udev_dev \<Rightarrow> bool" where
  "listed path ty devs d \<longleftrightarrow> ud_devname d = Some path \<and> ud_devtype d = Some ty \<and>
     (\<exists>A B. devs = A @ d # B \<and> (\<forall>x\<in>set A \<union> set B. other_dev path x))"

lemma find_disk_listed:
  assumes "listed path ty devs d"
  shows "find_disk_by_path (Some devs) path w =
    Inr (if ty = ''partition'' then part_name_to_disk_name path w
         else if ty = ''disk'' then c_strdup path w else (None, w))"
proof -
  obtain A B where d: "devs = A @ d # B" "\<forall>x\<in>set A. other_dev path x" "\<forall>x\<in>set B. other_dev path x"
    and n: "ud_devname d = Some path" "ud_devtype d = Some ty"
    using assms unfolding listed_def by blast
  then show ?thesis
    using find_disk_others [OF d(3), of "[]"]
    by (auto simp: find_disk_by_path_def find_disk_others [OF d(2)] split: prod.splits)
qed

lemma phys_size_listed:
  assumes "listed path ty devs d"
  shows "udev_get_phys_blk_size (Some devs) path =
    (if ty = ''disk'' then bindr (c_deref (ud_phys d)) (\<lambda>s. bindr (c_atoi s) (\<lambda>n. Inr (0, Some (word_of_int n))))
     else Inl Abort)"
proof -
  obtain A B where d: "devs = A @ d # B" "\<forall>x\<in>set A. other_dev path x" "\<forall>x\<in>set B. other_dev path x"
    and n: "ud_devname d = Some path" "ud_devtype d = Some ty"
    using assms unfolding listed_def by blast
  then show ?thesis
    using phys_size_others [OF d(3), of "[]"]
    by (simp add: udev_get_phys_blk_size_def phys_size_others [OF d(2)] bindr_assoc)
qed

section \<open>What an open makes of it\<close>

lemma init_hdr_bad_shift:
  assumes "calm w" and "EOB_HDR_SIZE \<le> length (w_disk w)" and "0 < d_fd dev"
    and "unat (hw_phys_blk_shift (d_addr dev)) < 31" and "31 \<le> unat (hw_virt_blk_shift (d_addr dev))"
  obtains w' where "same_io w w'" and "eob_device_init_hdr crc dev force w =
      (if force = 0 \<and> good_header crc (disk_header w) \<and>
          h_phys_blk_size (disk_header w) \<noteq> 2 ^ unat (hw_phys_blk_shift (d_addr dev))
       then Inr (EOB_INVAL, dev, w') else Inl UB)"
proof -
  obtain w' where "eob_device_read_header crc dev zero_header w =
      Inr (read_code crc (disk_header w), disk_header w, w')" and "same_io w w'"
    using assms(1-3) by (rule dev_read_any)
  then show thesis
    using assms(4,5)
    by (intro that [of w']) (auto simp: eob_device_init_hdr_def read_code_def int_shl1_def Let_def)
qed

lemma open_bad_shift:
  assumes "calm w" and "EOB_HDR_SIZE \<le> length (w_disk w)" and "0 < fd"
    and "unat (hw_phys_blk_shift addr) < 31" and "31 \<le> unat (hw_virt_blk_shift addr)"
  obtains w' where "w_disk w' = w_disk w" and "eob_device_open_fd crc addr fd name force w =
      (if force = 0 \<and> good_header crc (disk_header w) \<and>
          h_phys_blk_size (disk_header w) \<noteq> 2 ^ unat (hw_phys_blk_shift addr)
       then Inr (EOB_INVAL, None, w') else Inl UB)"
proof -
  obtain w1 buf where o: "eob_device_open_fd crc addr fd name force w =
      finish_open crc ((fresh_self addr name buf)\<lparr>d_fd := fd\<rparr>) force w1" and io: "same_io w w1"
    using open_fd_eq [OF assms(1,4)] by metis
  let ?self = "(fresh_self addr name buf)\<lparr>d_fd := fd\<rparr>"
  have self: "d_addr ?self = addr" "d_fd ?self = fd" by (simp_all add: fresh_self_def)
  obtain w' where i: "same_io w1 w'" "eob_device_init_hdr crc ?self force w1 =
      (if force = 0 \<and> good_header crc (disk_header w1) \<and>
          h_phys_blk_size (disk_header w1) \<noteq> 2 ^ unat (hw_phys_blk_shift (d_addr ?self))
       then Inr (EOB_INVAL, ?self, w') else Inl UB)"
    by (rule init_hdr_bad_shift [of w1 ?self crc force])
      (use assms self same_ioD [OF io] in auto)
  show thesis
    using o i self disk_header_io [OF io] same_ioD(2) [OF io] same_ioD(2) [OF i(1)]
    by (intro that [of w']) (simp_all add: finish_open_def)
qed

lemma open_disk_run:
  assumes "calm w" and "EOB_HDR_SIZE \<le> length (w_disk w)" and fd: "0 < u_open_direct env path"
    and l: "u_scan env 0 = Some devs" "u_scan env 1 = Some devs" "listed path ty devs d"
    and p: "ud_phys d = Some (dec_digits (2 ^ k))" "k < 31"
  shows "\<exists>w'. w_disk w' = w_disk w \<and> eob_device_open_disk env crc node_id nodes_count path force w =
    (if ty = ''disk'' then
       (if force = 0 \<and> good_header crc (disk_header w) \<and> h_phys_blk_size (disk_header w) \<noteq> 2 ^ k
        then Inr (EOB_INVAL, None, w') else Inl UB)
     else if ty = ''partition'' \<and> (\<exists>c\<in>set path. is_digit c) then Inl Abort
     else Inr (EOB_NODEV, None, w'))"
proof -
  obtain w1 where m: "malloc_ok w = (True, w1)" and io: "same_io w w1" using assms(1) by (rule calm_malloc_ok)
  show ?thesis
  proof (cases "ty = ''disk''")
    case True
    have "(2 :: nat) ^ k < 2 ^ 31" using p(2) by (intro power_strict_increasing) simp_all
    then have "c_atoi (dec_digits (2 ^ k)) = Inr (2 ^ k)" using atoi_dec [of "2 ^ k"] by simp
    then have sz: "udev_get_phys_blk_size (Some devs) path = Inr (0, Some (2 ^ k))"
      using True p(1) by (simp add: phys_size_listed [OF l(3)])
    have "unat (word_of_nat k :: u8) = k" using p(2) by (simp add: unat_of_nat)
    moreover have "ucast (highbit64_at 8 (2 ^ k)) = (word_of_nat k :: u8)"
      using p(2) by (simp add: highbit64_at_8 unsigned_of_nat take_bit_nat_eq_self)
    moreover have "ucast (highbit64_at 4 (4 * 4096)) = (238 :: u8)" by (simp only: highbit64_at_4) simp
    ultimately have k: "unat (ucast (highbit64_at 8 (2 ^ k)) :: u8) = k"
      and v: "ucast (highbit64_at 4 (4 * 4096)) = (238 :: u8)" by simp_all
    let ?addr = "\<lparr>hw_node_id = word_of_int node_id, hw_nodes_count = word_of_int nodes_count,
                 hw_virt_blk_shift = ucast (highbit64_at 4 (4 * 4096)),
                 hw_phys_blk_shift = ucast (highbit64_at 8 (2 ^ k)), hw_pad = junk_bytes 12 w1\<rparr>"
    obtain w' where "w_disk w' = w_disk w1" and o: "eob_device_open_fd crc ?addr (u_open_direct env path) path force w1 =
        (if force = 0 \<and> good_header crc (disk_header w1) \<and>
            h_phys_blk_size (disk_header w1) \<noteq> 2 ^ unat (hw_phys_blk_shift ?addr)
         then Inr (EOB_INVAL, None, w') else Inl UB)"
      by (rule open_bad_shift [of w1 "u_open_direct env path" ?addr crc path force])
        (use assms(1,2) fd same_ioD [OF io] k v p(2) in auto)
    moreover have "eob_device_open_disk env crc node_id nodes_count path force w =
        eob_device_open_fd crc ?addr (u_open_direct env path) path force w1"
      using True m fd l(1,2) sz k p(2)
      by (simp add: eob_device_open_disk_def find_disk_listed [OF l(3)] c_strdup_def int_shl1_def Let_def)
    ultimately show ?thesis
      using True k disk_header_io [OF io] same_ioD(2) [OF io] by (intro exI [of _ w']) simp
  next
    case False
    then show ?thesis
      using m l(1,2) phys_size_listed [OF l(3)]
      by (intro exI [of _ w]) (simp add: eob_device_open_disk_def find_disk_listed [OF l(3)] part_name_to_disk_name_def)
  qed
qed

text \<open>
  \<open>eob_device_open\<close> opens nothing at all: a path that \<open>access\<close> finds is reported as missing, and one
  that it does not find has no \<open>stat64\<close> either.
\<close>

lemma device_open_opens_nothing:
  assumes "u_access env path \<noteq> 0 \<longrightarrow> u_stat env path = None"
  shows "eob_device_open_lib env crc node_id nodes_count path force w =
    Inr (if u_access env path = 0 then EOB_NODEV else EOB_IO, None, w)"
  using assms by (simp add: eob_device_open_lib_def)

section \<open>An example\<close>

definition demo_disk_env :: disk_env where
  "demo_disk_env = \<lparr>u_scan = (\<lambda>_. Some
       [\<lparr>ud_devname = Some ''/dev/sda'', ud_devtype = Some ''disk'', ud_phys = Some (dec_digits (2 ^ 12))\<rparr>,
        \<lparr>ud_devname = Some ''/dev/sda1'', ud_devtype = Some ''partition'', ud_phys = Some (dec_digits (2 ^ 9))\<rparr>]),
     u_access = (\<lambda>_. 0), u_stat = (\<lambda>_. Some S_BLK), u_open = (\<lambda>_. 3), u_open_direct = (\<lambda>_. 3)\<rparr>"

abbreviation demo_sda :: udev_dev where
  "demo_sda \<equiv> \<lparr>ud_devname = Some ''/dev/sda'', ud_devtype = Some ''disk'', ud_phys = Some (dec_digits (2 ^ 12))\<rparr>"

abbreviation demo_sda1 :: udev_dev where
  "demo_sda1 \<equiv> \<lparr>ud_devname = Some ''/dev/sda1'', ud_devtype = Some ''partition'', ud_phys = Some (dec_digits (2 ^ 9))\<rparr>"

lemma demo_scan: "u_scan demo_disk_env n = Some [demo_sda, demo_sda1]" "u_open_direct demo_disk_env p = 3"
    "u_access demo_disk_env p = 0"
  by (simp_all add: demo_disk_env_def)

lemma demo_listed: "listed ''/dev/sda'' ''disk'' [demo_sda, demo_sda1] demo_sda"
    "listed ''/dev/sda1'' ''partition'' [demo_sda, demo_sda1] demo_sda1"
  unfolding listed_def
  by (rule conjI, simp, rule conjI, simp, rule exI [of _ "[]"], simp add: other_dev_def)
    (rule conjI, simp, rule conjI, simp, rule exI [of _ "[demo_sda]"], simp add: other_dev_def)

section \<open>Property\<close>

text \<open>
  C17. Opening a path that libudev lists once. A disk is never opened: its address asks for virtual
  blocks of \<open>1 << 238\<close> bytes, since \<open>highbit64\<close> of an \<open>int\<close> constant is 32 too small. A header
  that names other physical blocks is refused without touching the disk, in every other case the
  shift is evaluated. A partition ends in a failed assertion when its path has a digit, and is no
  device otherwise, like a path of any other type. \<open>eob_device_open\<close> does not even get there: a
  path that \<open>access\<close> finds is reported as no device.
\<close>

theorem open_disk_outcomes:
  assumes "calm w" and "EOB_HDR_SIZE \<le> length (w_disk w)" and fd: "0 < u_open_direct env path"
    and l: "u_scan env 0 = Some devs" "u_scan env 1 = Some devs" "listed path ty devs d"
    and p: "ud_phys d = Some (dec_digits (2 ^ k))" "k < 31"
  shows "(\<exists>w'. w_disk w' = w_disk w \<and> eob_device_open_disk env crc node_id nodes_count path force w =
    (if ty = ''disk'' then
       (if force = 0 \<and> good_header crc (disk_header w) \<and> h_phys_blk_size (disk_header w) \<noteq> 2 ^ k
        then Inr (EOB_INVAL, None, w') else Inl UB)
     else if ty = ''partition'' \<and> (\<exists>c\<in>set path. is_digit c) then Inl Abort
     else Inr (EOB_NODEV, None, w'))) \<and>
    (u_access env path = 0 \<longrightarrow> eob_device_open_lib env crc node_id nodes_count path force w = Inr (EOB_NODEV, None, w))"
  using open_disk_run [OF assms] by (auto simp: eob_device_open_lib_def)

theorem open_disk_outcomes_witness:
  "eob_device_open_disk demo_disk_env demo_crc 1 32 ''/dev/sda1'' 0 demo_cluster_world = Inl Abort \<and>
   eob_device_open_disk demo_disk_env demo_crc 1 32 ''/dev/sda'' 1 demo_cluster_world = Inl UB \<and>
   (\<exists>w'. eob_device_open_disk demo_disk_env demo_crc 1 32 ''/dev/sda'' 0 demo_cluster_world = Inr (EOB_INVAL, None, w')) \<and>
   eob_device_open_lib demo_disk_env demo_crc 1 32 ''/dev/sda'' 0 demo_cluster_world = Inr (EOB_NODEV, None, demo_cluster_world)"
proof -
  have len: "EOB_HDR_SIZE \<le> length (w_disk demo_cluster_world)" using demo_cluster_length by (simp add: layout_simps)
  have size: "h_phys_blk_size demo_header \<noteq> 2 ^ 12" by (simp add: demo_header_def init_header_def dflt_def)
  have digit: "\<exists>c\<in>set ''/dev/sda1''. is_digit c" by (simp add: is_digit_def)
  note run = open_disk_outcomes [OF demo_calm(1) len _ demo_scan(1) demo_scan(1)]
  show ?thesis
    using run [OF _ demo_listed(2), of 9 demo_crc 1 32 0] run [OF _ demo_listed(1), of 12 demo_crc 1 32 0]
      run [OF _ demo_listed(1), of 12 demo_crc 1 32 1] demo_scan(2) digit demo_good demo_disk_header size
      demo_scan(3) by auto
qed

end
