(* ===== verification/Iface_Test.thy ===== *)
theory Iface_Test
  imports Eob_Disk Eob_Log Avl_Spec
begin

text \<open>
  The self tests of the command line tool, \<open>src/cmd/iface0/iface_test.c\<close>, composed of the models of
  what they call: the AVL tree, the power-of-two macros, messages and the disk search. \<open>avl_test\<close>,
  \<open>bit_hacks_test\<close> and \<open>test_chksum\<close> are commented out of \<open>main_test\<close>.
\<close>

section \<open>The AVL tree\<close>

text \<open>
  The nodes lie in an array of \<open>struct avl_test_node\<close>, 40 bytes each with the \<open>avl_node_t\<close> in front;
  \<open>value_of\<close> and the tags are the two members behind it.
\<close>

definition avl_test_node_cmp :: "(addr \<Rightarrow> int) \<Rightarrow> addr \<Rightarrow> addr \<Rightarrow> int" where
  "avl_test_node_cmp value_of a b = AVL_CMP (value_of a) (value_of b)"

primrec avl_test_loop ::
    "compar_env \<Rightarrow> addr list \<Rightarrow> heap \<Rightarrow> avl_tree \<Rightarrow> (addr \<Rightarrow> string) \<Rightarrow>
       (fault + heap \<times> avl_tree \<times> (addr \<Rightarrow> string)) option" where
  "avl_test_loop call [] h tree tags = Some (Inr (h, tree, tags))"
| "avl_test_loop call (n # ns) h tree tags =
     obind (avl_find call h tree n) (\<lambda>(idx, hint).
     if idx = 0 then obind (avl_add call h tree n) (\<lambda>(h, tree). avl_test_loop call ns h tree tags)
     else avl_test_loop call ns h tree (tags(idx := tags n)))"

definition avl_test_nodes :: "addr \<Rightarrow> addr list" where
  "avl_test_nodes nodes = [nodes, nodes + 40, nodes + 80, nodes + 120]"

definition avl_test_values :: "addr \<Rightarrow> addr \<Rightarrow> addr \<Rightarrow> int" where
  "avl_test_values nodes nsearch a =
     (if a = nodes then 1 else if a = nodes + 40 then 2 else if a = nodes + 80 then 3
      else if a = nodes + 120 \<or> a = nsearch then 1 else 0)"

definition avl_test_tags :: "addr \<Rightarrow> addr \<Rightarrow> string" where
  "avl_test_tags nodes a =
     (if a = nodes then ''1'' else if a = nodes + 40 then ''2'' else if a = nodes + 80 then ''3''
      else if a = nodes + 120 then ''4'' else [])"

text \<open>The initialiser clears the nodes. \<open>cmp\<close> is the address of the comparison function.\<close>

definition avl_test_heap :: "addr \<Rightarrow> heap" where
  "avl_test_heap nodes a =
     (if a \<in> set (avl_test_nodes nodes) then Some \<lparr>avl_child0 = 0, avl_child1 = 0, avl_pcb = 0\<rparr> else None)"

definition avl_test :: "addr \<Rightarrow> addr \<Rightarrow> addr \<Rightarrow> (fault + int) option" where
  "avl_test cmp nodes nsearch =
     (let call = (\<lambda>f. avl_test_node_cmp (avl_test_values nodes nsearch)) in
      obind (Some (avl_create cmp 40 0)) (\<lambda>tree.
      obind (avl_test_loop call (avl_test_nodes nodes) (avl_test_heap nodes) tree (avl_test_tags nodes)) (\<lambda>(h, tree, tags).
      obind (avl_find call h tree nsearch) (\<lambda>(idx, hint).
      obind (Some (verify (idx \<noteq> 0))) (\<lambda>_.
      obind (Some (verify (tags idx = ''4''))) (\<lambda>_. Some (Inr 0)))))))"

section \<open>The macros\<close>

text \<open>The lines given to \<open>EOB_MSG\<close>, and the verified values.\<close>

definition bit_hacks_lines :: "u64 \<Rightarrow> u64 \<Rightarrow> string list" where
  "bit_hacks_lines blk_sz i =
     [''VALUE='' @ dec_digits (unat i), ''P2ALIGN='' @ dec_digits (unat (P2ALIGN i blk_sz)),
      ''P2ROUNDUP='' @ dec_digits (unat (P2ROUNDUP i blk_sz)), ''P2PHASE='' @ dec_digits (unat (P2PHASE i blk_sz))]"

definition bit_hacks_test :: "fault + int \<times> string list" where
  "bit_hacks_test =
     (let blk_sz = 8; out = concat (map (\<lambda>i. bit_hacks_lines blk_sz (word_of_nat i)) [0..<50]) in
      bindr (verify (9 = highbit64_at 8 512)) (\<lambda>_.
      bindr (verify ((9 :: u8) = ucast (highbit64_at 8 512))) (\<lambda>_.
      bindr (verify (12 = highbit64_at 8 4096)) (\<lambda>_.
      bindr (verify (14 = highbit64_at 8 (4 * 4096))) (\<lambda>_. Inr (0, out))))))"

text \<open>The test of the checksums is empty.\<close>

definition test_chksum :: int where
  "test_chksum = 0"

section \<open>Messages\<close>

text \<open>
  A variable of type \<open>struct eob_device *\<close> is \<open>None\<close> when it points to nothing that is allocated,
  as it does after \<open>eob_device_close\<close> has freed the object.
\<close>

definition eob_device_close_lib :: "eob_device option \<Rightarrow> fault + eob_device option" where
  "eob_device_close_lib self = bindr (c_deref self) (\<lambda>_. Inr None)"

definition hello :: bytes where
  "hello = to_bytes ''Hello! Humans! We are here!''"

text \<open>\<open>strcmp(s, hello) == 0\<close>, which reads \<open>s\<close> up to its null byte.\<close>

definition is_hello :: "bytes option \<Rightarrow> fault + bool" where
  "is_hello s = bindr (c_deref s) (\<lambda>s. bindr (c_strlen s) (\<lambda>n. Inr (take n s = hello)))"

definition test_eob_send_recv ::
    "crc_fn \<Rightarrow> (string \<Rightarrow> int) \<Rightarrow> string \<Rightarrow> eob_world \<Rightarrow> fault + int \<times> eob_world" where
  "test_eob_send_recv crc sys_open dev_name w =
     (let addr_src = EOB_HW_ADDR_INIT_DEFAULT 0 2; addr_dst = EOB_HW_ADDR_INIT_DEFAULT 1 2 in
      bindr (eob_device_open_file sys_open crc addr_src dev_name 0 w) (\<lambda>(rv, dev_src, w).
      bindr (verify (0 = rv)) (\<lambda>_. bindr (c_deref dev_src) (\<lambda>self.
      bindr (eob_device_send_str crc self (hello @ [0]) addr_dst w) (\<lambda>(rv, w). bindr (verify (0 = rv)) (\<lambda>_.
      bindr (eob_device_close_lib dev_src) (\<lambda>dev_src.
      bindr (eob_device_open_file sys_open crc addr_dst dev_name 0 w) (\<lambda>(rv, dev_dst, w).
      bindr (verify (0 = rv)) (\<lambda>_. bindr (c_deref dev_dst) (\<lambda>self.
      bindr (eob_device_recv_str crc self w) (\<lambda>(rv, out, w). bindr (verify (0 = rv)) (\<lambda>_.
      bindr (eob_device_close_lib dev_src) (\<lambda>dev_src.
      bindr (c_deref out) (\<lambda>(dst_data, addr_from). bindr (is_hello dst_data) (\<lambda>same. bindr (verify same) (\<lambda>_.
      bindr (verify (hw_node_id addr_src = hw_node_id addr_from)) (\<lambda>_. Inr (0, w))))))))))))))))))"

text \<open>The two addresses are local variables of which the four named members are assigned.\<close>

definition test_eob_open_alloc_close ::
    "crc_fn \<Rightarrow> (string \<Rightarrow> int) \<Rightarrow> string \<Rightarrow> eob_world \<Rightarrow> fault + int \<times> eob_world" where
  "test_eob_open_alloc_close crc sys_open dev_name w =
     (let addr = \<lparr>hw_node_id = 1, hw_nodes_count = 2, hw_virt_blk_shift = 9, hw_phys_blk_shift = 9,
            hw_pad = junk_bytes 12 w\<rparr>;
          another = addr\<lparr>hw_pad := drop 12 (junk_bytes 24 w)\<rparr>; io_data = \<lparr>iov_base = Some (hello @ [0]), iov_len = length hello + 1\<rparr> in
      bindr (eob_device_open_file sys_open crc addr dev_name 0 w) (\<lambda>(rv, dev, w).
      bindr (verify (0 = rv)) (\<lambda>_. bindr (c_deref dev) (\<lambda>self.
      bindr (eob_device_send crc self io_data another w) (\<lambda>(rv, w). bindr (verify (0 = rv)) (\<lambda>_.
      bindr (eob_device_close_lib dev) (\<lambda>_.
      bindr (eob_device_open_file sys_open crc addr dev_name 0 w) (\<lambda>(rv, dev, w).
      bindr (verify (0 = rv)) (\<lambda>_. bindr (c_deref dev) (\<lambda>self.
      bindr (eob_device_recv crc self w) (\<lambda>(rv, out, w). bindr (verify (0 = rv)) (\<lambda>_.
      bindr (eob_device_close_lib dev) (\<lambda>_.
      bindr (c_deref out) (\<lambda>(io_data, another). bindr (is_hello (iov_base io_data)) (\<lambda>same. bindr (verify same) (\<lambda>_.
      bindr (verify (hw_node_id another = 1)) (\<lambda>_. Inr (0, w))))))))))))))))))"

definition test_find_dev_by_path :: "udev_dev list option \<Rightarrow> string \<Rightarrow> eob_world \<Rightarrow> fault + int \<times> eob_world" where
  "test_find_dev_by_path scan dev_name w =
     bindr (find_disk_by_path scan dev_name w) (\<lambda>(path, w). bindr (verify (path \<noteq> None)) (\<lambda>_. Inr (0, w)))"

text \<open>
  \<open>argv[argc]\<close> is null, and \<open>argc\<close> is not looked at. The log is opened and closed; what it holds
  is not followed.
\<close>

definition main_test ::
    "crc_fn \<Rightarrow> (string \<Rightarrow> int) \<Rightarrow> udev_dev list option \<Rightarrow> string list \<Rightarrow> eob_world \<Rightarrow> fault + int \<times> eob_world" where
  "main_test crc sys_open scan argv w =
     bindr (guard UB (length argv \<ge> 2)) (\<lambda>_. bindr (verify (length argv > 2)) (\<lambda>_.
     let dev_name = argv ! 2 in
     bindr (test_find_dev_by_path scan dev_name w) (\<lambda>(rv, w). bindr (verify (rv = 0)) (\<lambda>_.
     let (rv, log) = liboblock_init log_start in
     bindr (verify (rv = 0)) (\<lambda>_.
     bindr (test_eob_open_alloc_close crc sys_open dev_name w) (\<lambda>(rv, w). bindr (verify (rv = 0)) (\<lambda>_.
     bindr (test_eob_send_recv crc sys_open dev_name w) (\<lambda>(rv, w). bindr (verify (rv = 0)) (\<lambda>_.
     let log = liboblock_exit log in Inr (rv, w))))))))))"

end
