(* ===== verification/Cli.thy ===== *)
theory Cli
  imports Eob_Dump Iface_Test
begin

text \<open>
  The command line tool \<open>src/cmd/iface0/iface.c\<close>: \<open>getopt\<close>, the handlers of the commands, the
  command table of \<open>src/include/sys/cvec.h\<close> macros, and \<open>main\<close>. What the tool prints on standard
  output and on standard error is part of the state; the lines of the log, which go to standard error
  when the library is built for it, and the diagnostics that \<open>getopt\<close> itself prints are not. \<open>open\<close>,
  \<open>read\<close> and \<open>write\<close> on files other than the device, \<open>inet_aton\<close> and what libudev lists are given by
  the environment.
\<close>

record cli_env =
  e_crc :: crc_fn
  e_open :: "string \<Rightarrow> int"
  e_read :: "int \<Rightarrow> nat \<Rightarrow> bytes option"
  e_write :: "int \<Rightarrow> bytes \<Rightarrow> int"
  e_aton :: "string \<Rightarrow> u32 option"
  e_scan :: "udev_dev list option"

record cli =
  cl_world :: eob_world
  cl_out :: bytes
  cl_err :: bytes
  cl_verbose :: boolean_t

definition print :: "bytes \<Rightarrow> cli \<Rightarrow> cli" where
  "print bs c = c\<lparr>cl_out := cl_out c @ bs\<rparr>"

definition print_err :: "string \<Rightarrow> cli \<Rightarrow> cli" where
  "print_err s c = c\<lparr>cl_err := cl_err c @ to_bytes s\<rparr>"

lemma print_err_fields [simp]:
  "cl_out (print_err s c) = cl_out c" "cl_world (print_err s c) = cl_world c" "cl_verbose (print_err s c) = cl_verbose c"
  by (simp_all add: print_err_def)

section \<open>getopt\<close>

text \<open>
  What the loops around \<open>getopt\<close> see: an option letter with its argument, or \<open>?\<close> with the letter in
  \<open>optopt\<close> (\<open>Bad\<close>), for a letter that is not in the option string and for one without its argument.
  Arguments that are no options are passed over and come last (the GNU behaviour, which the
  handlers rely on: the first of them is the command, the second the device).
\<close>

datatype opt = Opt char "string option" | Bad char

text \<open>Whether a letter is in the option string, and whether a colon follows it.\<close>

fun opt_spec :: "string \<Rightarrow> char \<Rightarrow> bool option" where
  "opt_spec [] ch = None"
| "opt_spec (o' # os) ch =
     (if o' = ch \<and> ch \<noteq> CHR '':'' then Some (os \<noteq> [] \<and> hd os = CHR '':'') else opt_spec os ch)"

text \<open>\<open>next\<close> is the rest of the argument whose letters are being read.\<close>

function (sequential) getopt_loop :: "string \<Rightarrow> string \<Rightarrow> string list \<Rightarrow> opt list \<times> string list" where
  "getopt_loop os [] [] = ([], [])"
| "getopt_loop os [] (a # as) =
     (if a = ''--'' then ([], as)
      else if length a > 1 \<and> hd a = CHR ''-'' then getopt_loop os (tl a) as
      else let (es, rest) = getopt_loop os [] as in (es, a # rest))"
| "getopt_loop os (ch # next) as =
     (case opt_spec os ch of
        None \<Rightarrow> let (es, rest) = getopt_loop os next as in (Bad ch # es, rest)
      | Some False \<Rightarrow> let (es, rest) = getopt_loop os next as in (Opt ch None # es, rest)
      | Some True \<Rightarrow>
          if next \<noteq> [] then let (es, rest) = getopt_loop os [] as in (Opt ch (Some next) # es, rest)
          else
            (case as of
               [] \<Rightarrow> ([Bad ch], [])
             | a # as \<Rightarrow> let (es, rest) = getopt_loop os [] as in (Opt ch (Some a) # es, rest)))"
  by pat_completeness auto
termination
  by (relation "measure (\<lambda>(os, next, as). length next + sum_list (map (\<lambda>a. length a + 1) as))") auto

text \<open>\<open>argv[0]\<close> is not an argument.\<close>

definition getopt_all :: "string \<Rightarrow> string list \<Rightarrow> opt list \<times> string list" where
  "getopt_all os argv = getopt_loop os [] (tl argv)"

section \<open>Options\<close>

text \<open>The local variables the options of the commands are read into.\<close>

record opts =
  o_verbose :: bool
  o_force :: boolean_t
  o_src :: "string option"
  o_dst :: "string option"
  o_file :: "string option"
  o_nodes :: "string option"
  o_ip :: "string option"
  o_node_id :: "string option"
  o_virt :: "string option"
  o_phys :: "string option"
  o_json :: boolean_t

definition no_opts :: opts where
  "no_opts = \<lparr>o_verbose = False, o_force = B_FALSE, o_src = None, o_dst = None, o_file = None, o_nodes = None,
     o_ip = None, o_node_id = None, o_virt = None, o_phys = None, o_json = B_FALSE\<rparr>"

text \<open>The loop stops at the first option that is not understood, and gives its letter.\<close>

fun opt_loop :: "(char \<Rightarrow> string option \<Rightarrow> opts \<Rightarrow> opts) \<Rightarrow> opt list \<Rightarrow> opts \<Rightarrow> opts \<times> char option" where
  "opt_loop f [] o' = (o', None)"
| "opt_loop f (Bad ch # es) o' = (o', Some ch)"
| "opt_loop f (Opt ch arg # es) o' = opt_loop f es (f ch arg o')"

definition set_verbose :: "opts \<Rightarrow> cli \<Rightarrow> cli" where
  "set_verbose o' c = (if o_verbose o' then c\<lparr>cl_verbose := B_TRUE\<rparr> else c)"

text \<open>\<open>fprintf(stderr, ...)\<close> and \<open>goto badusage\<close>.\<close>

definition bad_usage :: "string \<Rightarrow> cli \<Rightarrow> fault + int \<times> cli" where
  "bad_usage msg c = bindr (SET_ERR EOB_BADUSAGE) (\<lambda>rv. Inr (rv, print_err (msg @ [nl]) c))"

definition quote :: char where "quote = CHR 0x27"

text \<open>\<open>iface_do_x\<close> up to the end of its loop: the variables and the arguments left.\<close>

definition with_opts ::
    "string \<Rightarrow> (char \<Rightarrow> string option \<Rightarrow> opts \<Rightarrow> opts) \<Rightarrow> string list \<Rightarrow> cli \<Rightarrow>
       (opts \<Rightarrow> string list \<Rightarrow> cli \<Rightarrow> fault + int \<times> cli) \<Rightarrow> fault + int \<times> cli" where
  "with_opts os f argv c k =
     (let (es, args) = getopt_all os argv; (o', bad) = opt_loop f es no_opts; c = set_verbose o' c in
      case bad of None \<Rightarrow> k o' args c | Some ch \<Rightarrow> bad_usage (''invalid option '' @ [quote, ch, quote]) c)"

text \<open>A return code of the library passed on: traced when it is not 0.\<close>

definition trace_rv :: "fault + int \<times> eob_world \<Rightarrow> cli \<Rightarrow> fault + int \<times> cli" where
  "trace_rv r c = bindr r (\<lambda>(rv, w).
     let c = c\<lparr>cl_world := w\<rparr> in
     if rv \<noteq> 0 then bindr (SET_ERR rv) (\<lambda>rv. Inr (rv, c)) else Inr (0, c))"

definition trace_again :: "fault + int \<times> cli \<Rightarrow> fault + int \<times> cli" where
  "trace_again r = bindr r (\<lambda>(rv, c). if rv \<noteq> 0 then bindr (SET_ERR rv) (\<lambda>rv. Inr (rv, c)) else Inr (0, c))"

section \<open>Header commands\<close>

definition iface_hdr_dump :: "cli_env \<Rightarrow> string \<Rightarrow> cli \<Rightarrow> fault + int \<times> cli" where
  "iface_hdr_dump env device c =
     (let fd = e_open env device in
      if fd < 0 then Inr (SET_IO_ERR, c)
      else
        bindr (eob_hdr_dump (e_crc env) fd (cl_world c)) (\<lambda>(rv, str, w).
        let c = c\<lparr>cl_world := w\<rparr> in
        if rv \<noteq> 0 then bindr (SET_ERR rv) (\<lambda>rv. Inr (rv, c))
        else bindr (c_deref str) (\<lambda>str. Inr (0, print (to_bytes (''Dump:'' @ [nl] @ str @ [nl])) c))))"

definition dump_opt :: "char \<Rightarrow> string option \<Rightarrow> opts \<Rightarrow> opts" where
  "dump_opt ch arg o' =
     (if ch = CHR ''v'' then o'\<lparr>o_verbose := True\<rparr>
      else if ch = CHR ''j'' then o'\<lparr>o_json := B_TRUE\<rparr> else o')"

definition iface_do_dump :: "cli_env \<Rightarrow> string list \<Rightarrow> cli \<Rightarrow> fault + int \<times> cli" where
  "iface_do_dump env argv c = with_opts ''vj'' dump_opt argv c (\<lambda>o' args c.
     if length args < 2 then bad_usage ''missing device name argument'' c
     else
       bindr (verify (o_json o' \<noteq> B_TRUE)) (\<lambda>_. trace_again (iface_hdr_dump env (args ! 1) c)))"

definition iface_hdr_add :: "cli_env \<Rightarrow> string \<Rightarrow> int \<Rightarrow> string \<Rightarrow> boolean_t \<Rightarrow> cli \<Rightarrow> fault + int \<times> cli" where
  "iface_hdr_add env device node_id ip force c =
     (let fd = e_open env device in
      if fd < 0 then Inr (SET_IO_ERR, c)
      else
        bindr (c_deref (e_aton env ip)) (\<lambda>s_addr.
        trace_rv (eob_hdr_add_device (e_crc env) fd (word_of_int node_id) \<lparr>nd_flags = 1, nd_ip_addr = s_addr\<rparr>
          (of_bool (force = B_TRUE)) (cl_world c)) c))"

definition add_opt :: "char \<Rightarrow> string option \<Rightarrow> opts \<Rightarrow> opts" where
  "add_opt ch arg o' =
     (if ch = CHR ''v'' then o'\<lparr>o_verbose := True\<rparr>
      else if ch = CHR ''F'' then o'\<lparr>o_force := B_TRUE\<rparr>
      else if ch = CHR ''n'' then o'\<lparr>o_node_id := arg\<rparr>
      else if ch = CHR ''i'' then o'\<lparr>o_ip := arg\<rparr> else o')"

definition iface_do_add :: "cli_env \<Rightarrow> string list \<Rightarrow> cli \<Rightarrow> fault + int \<times> cli" where
  "iface_do_add env argv c = with_opts ''vFi:n:'' add_opt argv c (\<lambda>o' args c.
     case o_ip o' of
       None \<Rightarrow> bad_usage ''missing ip addr argument'' c
     | Some ip \<Rightarrow>
         (case o_node_id o' of
            None \<Rightarrow> bad_usage ''missing <node-id> argument'' c
          | Some node_id_str \<Rightarrow>
              if length args < 2 then bad_usage ''missing device name argument'' c
              else bindr (c_atoi node_id_str) (\<lambda>node_id.
                trace_again (iface_hdr_add env (args ! 1) node_id ip (o_force o') c))))"

definition iface_hdr_rem :: "cli_env \<Rightarrow> string \<Rightarrow> int \<Rightarrow> cli \<Rightarrow> fault + int \<times> cli" where
  "iface_hdr_rem env device node_id c =
     (let fd = e_open env device in
      if fd < 0 then Inr (SET_IO_ERR, c)
      else trace_rv (eob_hdr_rem_device (e_crc env) fd (word_of_int node_id) (cl_world c)) c)"

definition remove_opt :: "char \<Rightarrow> string option \<Rightarrow> opts \<Rightarrow> opts" where
  "remove_opt ch arg o' =
     (if ch = CHR ''v'' then o'\<lparr>o_verbose := True\<rparr>
      else if ch = CHR ''n'' then o'\<lparr>o_node_id := arg\<rparr> else o')"

definition iface_do_remove :: "cli_env \<Rightarrow> string list \<Rightarrow> cli \<Rightarrow> fault + int \<times> cli" where
  "iface_do_remove env argv c = with_opts ''vn:'' remove_opt argv c (\<lambda>o' args c.
     case o_node_id o' of
       None \<Rightarrow> bad_usage ''missing <node-id> argument'' c
     | Some node_id_str \<Rightarrow>
         if length args < 2 then bad_usage ''missing device name argument'' c
         else bindr (c_atoi node_id_str) (\<lambda>node_id. trace_again (iface_hdr_rem env (args ! 1) node_id c)))"

definition iface_hdr_deinit :: "cli_env \<Rightarrow> string \<Rightarrow> cli \<Rightarrow> fault + int \<times> cli" where
  "iface_hdr_deinit env device c =
     (let fd = e_open env device in
      if fd < 0 then Inr (SET_IO_ERR, c) else trace_rv (eob_hdr_deinit fd (cl_world c)) c)"

definition iface_hdr_init :: "cli_env \<Rightarrow> string \<Rightarrow> int \<Rightarrow> int \<Rightarrow> int \<Rightarrow> boolean_t \<Rightarrow> cli \<Rightarrow> fault + int \<times> cli" where
  "iface_hdr_init env device nodes_count virt_blk_size phys_blk_size force c =
     (let fd = e_open env device in
      if fd < 0 then Inr (SET_IO_ERR, c)
      else trace_rv (eob_hdr_init (e_crc env) fd (word_of_int nodes_count) (word_of_int virt_blk_size)
        (word_of_int phys_blk_size) (of_bool (force = B_TRUE)) (cl_world c)) c)"

text \<open>In the option string of \<open>init\<close> a colon follows the \<open>F\<close>.\<close>

definition init_opt :: "char \<Rightarrow> string option \<Rightarrow> opts \<Rightarrow> opts" where
  "init_opt ch arg o' =
     (if ch = CHR ''v'' then o'\<lparr>o_verbose := True\<rparr>
      else if ch = CHR ''F'' then o'\<lparr>o_force := B_TRUE\<rparr>
      else if ch = CHR ''V'' then o'\<lparr>o_virt := arg\<rparr>
      else if ch = CHR ''P'' then o'\<lparr>o_phys := arg\<rparr>
      else if ch = CHR ''c'' then o'\<lparr>o_nodes := arg\<rparr> else o')"

definition atoi_or :: "int \<Rightarrow> string option \<Rightarrow> fault + int" where
  "atoi_or d s = (case s of None \<Rightarrow> Inr d | Some s \<Rightarrow> c_atoi s)"

definition iface_do_init :: "cli_env \<Rightarrow> string list \<Rightarrow> cli \<Rightarrow> fault + int \<times> cli" where
  "iface_do_init env argv c = with_opts ''vF:V:P:c:'' init_opt argv c (\<lambda>o' args c.
     bindr (atoi_or 0 (o_virt o')) (\<lambda>virt_blk_size.
     bindr (atoi_or 0 (o_phys o')) (\<lambda>phys_blk_size.
     bindr (atoi_or 0 (o_nodes o')) (\<lambda>nodes_count.
     if length args < 2 then bad_usage ''missing device name argument'' c
     else trace_again (iface_hdr_init env (args ! 1) nodes_count virt_blk_size phys_blk_size (o_force o') c)))))"

definition deinit_opt :: "char \<Rightarrow> string option \<Rightarrow> opts \<Rightarrow> opts" where
  "deinit_opt ch arg o' = (if ch = CHR ''v'' then o'\<lparr>o_verbose := True\<rparr> else o')"

definition iface_do_deinit :: "cli_env \<Rightarrow> string list \<Rightarrow> cli \<Rightarrow> fault + int \<times> cli" where
  "iface_do_deinit env argv c = with_opts ''v'' deinit_opt argv c (\<lambda>o' args c.
     if length args < 2 then bad_usage ''missing device name argument'' c else trace_again (iface_hdr_deinit env (args ! 1) c))"

section \<open>Sending and receiving\<close>

text \<open>
  The device of a message: a descriptor already open for \<open>-\<close>, a path otherwise. The result is
  the device or the code to return.
\<close>

definition open_dev :: "cli_env \<Rightarrow> int \<Rightarrow> string \<Rightarrow> eob_hw_addr \<Rightarrow> string \<Rightarrow> boolean_t \<Rightarrow> eob_world \<Rightarrow>
    fault + (int + eob_device) \<times> eob_world" where
  "open_dev env std_fd std_name addr devicename force w =
     bindr (if devicename = ''-'' then eob_device_open_fd (e_crc env) addr std_fd std_name (of_bool (force = B_TRUE)) w
            else eob_device_open_file (e_open env) (e_crc env) addr devicename (of_bool (force = B_TRUE)) w) (\<lambda>(rv, dev, w).
     if rv \<noteq> 0 then bindr (SET_ERR rv) (\<lambda>rv. Inr (Inl rv, w))
     else (case dev of None \<Rightarrow> Inl Abort | Some dev \<Rightarrow> Inr (Inr dev, w)))"

text \<open>A file by its name, or the standard stream for \<open>-\<close>; \<open>strcpy\<close> keeps its name.\<close>

definition open_stream :: "cli_env \<Rightarrow> int \<Rightarrow> string option \<Rightarrow> fault + int" where
  "open_stream env std_fd filename =
     bindr (c_deref filename) (\<lambda>filename.
     if filename = ''-'' then Inr std_fd
     else bindr (guard UB (length filename < PATH_MAX)) (\<lambda>_. Inr (e_open env filename)))"

text \<open>\<open>str[rv] = 0\<close> after a \<open>read\<close> of as many bytes as the buffer has is a write behind its end.\<close>

definition iface_send :: "cli_env \<Rightarrow> string option \<Rightarrow> string \<Rightarrow> boolean_t \<Rightarrow> int \<Rightarrow> int \<Rightarrow> int \<Rightarrow> cli \<Rightarrow> fault + int \<times> cli" where
  "iface_send env filename devicename force src_node_id dst_node_id nodes_count c =
     (let addr_src = EOB_HW_ADDR_INIT_DEFAULT src_node_id nodes_count;
          addr_dst = EOB_HW_ADDR_INIT_DEFAULT dst_node_id nodes_count in
      bindr (open_stream env 0 filename) (\<lambda>input_fd.
      if input_fd < 0 then Inr (SET_IO_ERR, c)
      else
        bindr (open_dev env 1 ''stdout'' addr_src devicename force (cl_world c)) (\<lambda>(r, w).
        case r of
          Inl rv \<Rightarrow> Inr (rv, c\<lparr>cl_world := w\<rparr>)
        | Inr dev \<Rightarrow>
            bindr (EOB_HW_VIRT_BLK_SIZE addr_src) (\<lambda>size.
            let (ok, w) = malloc_ok w in
            bindr (guard UB ok) (\<lambda>_.
            case e_read env input_fd (nat size) of
              None \<Rightarrow> Inr (SET_IO_ERR, c\<lparr>cl_world := w\<rparr>)
            | Some bs \<Rightarrow>
                bindr (guard UB (length bs < nat size)) (\<lambda>_.
                let str = (overlay 0 bs (replicate (nat size) 0))[length bs := 0] in
                bindr (eob_device_send_str (e_crc env) dev str addr_dst w) (\<lambda>(rv, w).
                Inr (rv, c\<lparr>cl_world := w\<rparr>))))))))"

text \<open>
  The test \<open>rv < 0\<close> lets every error of the library through (they are positive): \<open>str\<close> is used
  though it was never set. A message written to a file returns what \<open>write\<close> returned.
\<close>

definition iface_recv :: "cli_env \<Rightarrow> string option \<Rightarrow> string \<Rightarrow> boolean_t \<Rightarrow> int \<Rightarrow> int \<Rightarrow> cli \<Rightarrow> fault + int \<times> cli" where
  "iface_recv env filename devicename force src_node_id nodes_count c =
     (let addr_src = EOB_HW_ADDR_INIT_DEFAULT src_node_id nodes_count in
      bindr (open_stream env 1 filename) (\<lambda>output_fd.
      if output_fd < 0 then Inr (SET_IO_ERR, c)
      else
        bindr (open_dev env 0 ''stdin'' addr_src devicename force (cl_world c)) (\<lambda>(r, w).
        case r of
          Inl rv \<Rightarrow> Inr (rv, c\<lparr>cl_world := w\<rparr>)
        | Inr dev \<Rightarrow>
            bindr (eob_device_recv_str (e_crc env) dev w) (\<lambda>(rv, out, w).
            let c = c\<lparr>cl_world := w\<rparr> in
            if rv < 0 then bindr (SET_ERR rv) (\<lambda>rv. Inr (rv, c))
            else
              bindr (c_deref out) (\<lambda>(str, addr_dst). bindr (c_deref str) (\<lambda>str. bindr (c_strlen str) (\<lambda>n.
              if output_fd = 1 then
                Inr (rv, print ((if cl_verbose c = B_TRUE then to_bytes (dec_digits (unat (hw_node_id addr_dst)) @ '': '') else [])
                  @ take n str @ to_bytes [nl]) c)
              else
                let rv = e_write env output_fd (take n str @ [0]) in
                bindr (verify (rv > 0)) (\<lambda>_. Inr (rv, c)))))))))"

definition send_opt :: "char \<Rightarrow> string option \<Rightarrow> opts \<Rightarrow> opts" where
  "send_opt ch arg o' =
     (if ch = CHR ''v'' then o'\<lparr>o_verbose := True\<rparr>
      else if ch = CHR ''F'' then o'\<lparr>o_force := B_TRUE\<rparr>
      else if ch = CHR ''s'' then o'\<lparr>o_src := arg\<rparr>
      else if ch = CHR ''d'' then o'\<lparr>o_dst := arg\<rparr>
      else if ch = CHR ''f'' then o'\<lparr>o_file := arg\<rparr>
      else if ch = CHR ''c'' then o'\<lparr>o_nodes := arg\<rparr> else o')"

definition iface_do_send :: "cli_env \<Rightarrow> string list \<Rightarrow> cli \<Rightarrow> fault + int \<times> cli" where
  "iface_do_send env argv c = with_opts ''vFf:s:d:c:'' send_opt argv c (\<lambda>o' args c.
     if length args < 2 then bad_usage ''missing device name argument'' c
     else
       (case o_src o' of
          None \<Rightarrow> bad_usage ''missing source node id'' c
        | Some src \<Rightarrow>
            (case o_dst o' of
               None \<Rightarrow> bad_usage ''missing destination node id'' c
             | Some dst \<Rightarrow>
                 bindr (c_atoi src) (\<lambda>src. bindr (c_atoi dst) (\<lambda>dst. bindr (atoi_or 0 (o_nodes o')) (\<lambda>nodes_count.
                 iface_send env (o_file o') (args ! 1) (o_force o') src dst nodes_count c))))))"

definition recv_opt :: "char \<Rightarrow> string option \<Rightarrow> opts \<Rightarrow> opts" where
  "recv_opt ch arg o' =
     (if ch = CHR ''v'' then o'\<lparr>o_verbose := True\<rparr>
      else if ch = CHR ''F'' then o'\<lparr>o_force := B_TRUE\<rparr>
      else if ch = CHR ''s'' then o'\<lparr>o_src := arg\<rparr>
      else if ch = CHR ''f'' then o'\<lparr>o_file := arg\<rparr>
      else if ch = CHR ''c'' then o'\<lparr>o_nodes := arg\<rparr> else o')"

definition iface_do_recv :: "cli_env \<Rightarrow> string list \<Rightarrow> cli \<Rightarrow> fault + int \<times> cli" where
  "iface_do_recv env argv c = with_opts ''vFf:s:c:'' recv_opt argv c (\<lambda>o' args c.
     if length args < 2 then bad_usage ''missing device name argument'' c
     else
       (case o_src o' of
          None \<Rightarrow> bad_usage ''missing source node id'' c
        | Some src \<Rightarrow>
            bindr (c_atoi src) (\<lambda>src. bindr (atoi_or 0 (o_nodes o')) (\<lambda>nodes_count.
            iface_recv env (o_file o') (args ! 1) (o_force o') src nodes_count c))))"

definition iface_do_test :: "cli_env \<Rightarrow> string list \<Rightarrow> cli \<Rightarrow> fault + int \<times> cli" where
  "iface_do_test env argv c =
     bindr (main_test (e_crc env) (e_open env) (e_scan env) argv (cl_world c)) (\<lambda>(rv, w). Inr (rv, c\<lparr>cl_world := w\<rparr>))"

section \<open>Commands\<close>

datatype iface_help_t =
  HELP_TEST | HELP_SEND | HELP_RECV | HELP_ALL | HELP_INIT | HELP_DEINIT | HELP_ADD | HELP_REMOVE | HELP_DUMP

record iface_command =
  cmd_name :: string
  cmd_fn :: "cli_env \<Rightarrow> string list \<Rightarrow> cli \<Rightarrow> fault + int \<times> cli"
  cmd_usage :: iface_help_t

definition iface_command_table :: "iface_command list" where
  "iface_command_table =
     [\<lparr>cmd_name = ''test'', cmd_fn = iface_do_test, cmd_usage = HELP_TEST\<rparr>,
      \<lparr>cmd_name = ''init'', cmd_fn = iface_do_init, cmd_usage = HELP_INIT\<rparr>,
      \<lparr>cmd_name = ''deinit'', cmd_fn = iface_do_deinit, cmd_usage = HELP_DEINIT\<rparr>,
      \<lparr>cmd_name = ''add'', cmd_fn = iface_do_add, cmd_usage = HELP_ADD\<rparr>,
      \<lparr>cmd_name = ''remove'', cmd_fn = iface_do_remove, cmd_usage = HELP_REMOVE\<rparr>,
      \<lparr>cmd_name = ''send'', cmd_fn = iface_do_send, cmd_usage = HELP_SEND\<rparr>,
      \<lparr>cmd_name = ''recv'', cmd_fn = iface_do_recv, cmd_usage = HELP_RECV\<rparr>,
      \<lparr>cmd_name = ''dump'', cmd_fn = iface_do_dump, cmd_usage = HELP_DUMP\<rparr>]"

fun get_usage :: "iface_help_t \<Rightarrow> fault + string" where
  "get_usage HELP_TEST = Inr (tab # ''test <device>'' @ [nl])"
| "get_usage HELP_SEND = Inr (tab # ''send [-v] [-F] [-c <nodes-count>] -s <node-id> -d <node-id> -f <file> <device>'' @ [nl])"
| "get_usage HELP_RECV = Inr (tab # ''recv [-v] [-F] [-c <nodes-count>] -s <node-id>  -f <file> <device>'' @ [nl])"
| "get_usage HELP_INIT = Inr (tab # ''init [-v] [-F] [-c <nodes-count>] [-V <size> ] [-P <size>] <device>'' @ [nl])"
| "get_usage HELP_DEINIT = Inr (tab # ''deinit [-v] <device>'' @ [nl])"
| "get_usage HELP_ADD = Inr (tab # ''add [-v] [-F] -n <node-id> -i <ip>  <device>'' @ [nl])"
| "get_usage HELP_REMOVE = Inr (tab # ''remove [-v] -n <node-id> <device>'' @ [nl])"
| "get_usage HELP_DUMP = Inr (tab # ''dump [-v] [-j] <device>'' @ [nl])"
| "get_usage HELP_ALL = Inl Abort"

primrec usage_lines :: "iface_command list \<Rightarrow> fault + string" where
  "usage_lines [] = Inr []"
| "usage_lines (iter # cmds) =
     bindr (get_usage (cmd_usage iter)) (\<lambda>s. bindr (usage_lines cmds) (\<lambda>t. Inr (s @ t)))"

text \<open>
  \<open>usage\<close> ends the program: the result is the exit status. Its \<open>boolean_t\<close> is used as a C
  condition, under which \<open>B_FALSE\<close> is true.
\<close>

definition usage :: "boolean_t \<Rightarrow> iface_command option \<Rightarrow> cli \<Rightarrow> fault + int \<times> cli" where
  "usage requested cmd c =
     bindr (case cmd of
         None \<Rightarrow> bindr (usage_lines iface_command_table) (\<lambda>t. Inr (''Avaiable commands: '' @ [nl] @ t @ [nl]))
       | Some cmd \<Rightarrow> bindr (get_usage (cmd_usage cmd)) (\<lambda>t. Inr (''Usage: '' @ [nl] @ t))) (\<lambda>text.
     Inr (if c_truth requested then 0 else 2, if c_truth requested then print (to_bytes text) c else print_err text c))"

section \<open>main\<close>

definition EXIT_FAILURE :: int where [simp]: "EXIT_FAILURE = 1"

text \<open>\<open>c_vec_find_by_str_field\<close>: the first command of that name.\<close>

definition find_command :: "string \<Rightarrow> iface_command option" where
  "find_command name = List.find (\<lambda>cmd. cmd_name cmd = name) iface_command_table"

text \<open>The initialisation of the library opens the log and cannot fail. The result is the exit status.\<close>

definition main :: "cli_env \<Rightarrow> string list \<Rightarrow> cli \<Rightarrow> fault + int \<times> cli" where
  "main env argv c =
     (if length argv = 1 then usage B_FALSE None c
      else bindr (guard UB (argv \<noteq> [])) (\<lambda>_.
        let name = argv ! 1 in
        if name = ''-?'' \<or> name = ''--help'' \<or> name = ''-h'' then usage B_TRUE None c
        else
          (case find_command name of
             None \<Rightarrow> usage B_FALSE None (print_err (''Command '' @ name @ '' not found'' @ [nl]) c)
           | Some cmd \<Rightarrow>
               if cmd_name cmd = ''test'' then cmd_fn cmd env argv c
               else
                 bindr (cmd_fn cmd env argv c) (\<lambda>(rv, c).
                 if rv = EOB_BADUSAGE then usage B_FALSE (Some cmd) c
                 else if rv \<noteq> 0 then bindr (eob_strerror rv) (\<lambda>s. Inr (EXIT_FAILURE, print_err (''Error: '' @ s @ [nl]) c))
                 else Inr (rv, c)))))"

end
