(* ===== verification/Cli_Props.thy ===== *)
theory Cli_Props
  imports Cli Eob_Header_Ops
begin

text \<open>
  Runs of the command line tool from \<open>main\<close> to the bytes on the device, and what it does with
  a command line it does not understand.
\<close>

section \<open>Command lines\<close>

lemmas getopt_run = getopt_all_def getopt_loop.simps(1,2) with_opts_def set_verbose_def no_opts_def

text \<open>An argument that \<open>getopt\<close> passes over.\<close>

definition operand :: "string \<Rightarrow> bool" where
  "operand a \<longleftrightarrow> a \<noteq> ''--'' \<and> \<not> (length a > 1 \<and> hd a = CHR ''-'')"

lemma getopt_operand: "operand a \<Longrightarrow> getopt_loop os [] (a # as) = (let (es, rest) = getopt_loop os [] as in (es, a # rest))"
  unfolding operand_def by (subst getopt_loop.simps(2)) (simp only: if_False HOL.simp_thms)

lemma getopt_add:
  assumes "operand dev"
  shows "getopt_all ''vFi:n:'' [''iface'', ''add'', ''-n'', n, ''-i'', ip, dev] =
    ([Opt CHR ''n'' (Some n), Opt CHR ''i'' (Some ip)], [''add'', dev])"
proof -
  have "getopt_loop ''vFi:n:'' [] [dev] = ([], [dev])" by (simp add: getopt_operand [OF assms] del: getopt_loop.simps(2))
  then show ?thesis by (simp add: getopt_all_def)
qed

lemma find_add: "find_command ''add'' = Some \<lparr>cmd_name = ''add'', cmd_fn = iface_do_add, cmd_usage = HELP_ADD\<rparr>"
  and find_init: "find_command ''init'' = Some \<lparr>cmd_name = ''init'', cmd_fn = iface_do_init, cmd_usage = HELP_INIT\<rparr>"
  by (simp_all add: find_command_def iface_command_table_def)

text \<open>
  C35. \<open>iface add -n N -i IP DEVICE\<close>, from \<open>main\<close> to the device: with a good header in which
  entry N is below the node count and free, the tool exits with status 0, and the header of the
  device has the entry N present with the address, every other entry and the sizes as they were,
  and nothing behind the block of the header has changed.
\<close>

theorem iface_add_marks_node:
  assumes q: "quiet (cl_world c)" and o: "0 < e_open env dev" "operand dev"
    and v: "hdr_state (e_crc env) (w_disk (cl_world c)) = Some h" and f: "fd_fits h" and n: "n < MAX_CLUSTER_SIZE"
    and al: "add_allowed (word_of_nat n) 0 h" and ip: "e_aton env ip = Some a"
  shows "\<exists>c' h'. main env [''iface'', ''add'', ''-n'', dec_digits n, ''-i'', ip, dev] c = Inr (0, c') \<and>
    hdr_state (e_crc env) (w_disk (cl_world c')) = Some h' \<and>
    h_nodes h' = (h_nodes h)[n := \<lparr>nd_flags = 1, nd_ip_addr = a\<rparr>] \<and> h_nodes_count h' = h_nodes_count h \<and>
    h_virt_blk_size h' = h_virt_blk_size h \<and> h_phys_blk_size h' = h_phys_blk_size h \<and>
    (\<forall>off k. unat (h_phys_blk_size h) \<le> off \<longrightarrow> bslice off k (w_disk (cl_world c')) = bslice off k (w_disk (cl_world c)))"
proof -
  have n32: "n < 32" using n by (simp add: layout_simps)
  then have at: "c_atoi (dec_digits n) = Inr (int n)" by (intro atoi_dec) simp
  have s: "sint (word_of_nat n :: u32) = int n" using n32 by (simp add: signed_of_nat signed_take_bit_int_eq_self)
  then have i: "node_index (word_of_nat n) = n" by (simp add: node_index_def unat_scast_nonneg)
  let ?d = "\<lparr>nd_flags = 1, nd_ip_addr = a\<rparr>"
  have i32: "node_index (word_of_nat n) < MAX_CLUSTER_SIZE" using i n by simp
  from hdr_add_written [OF q o(1) v f i32 al, of ?d] obtain w' where
    w': "eob_hdr_add_device (e_crc env) (e_open env dev) (word_of_nat n) ?d 0 (cl_world c) = Inr (EOB_OK, w')"
    "fd_store.written (e_open env dev) (with_node (e_crc env) n ?d h) (cl_world c) w'" unfolding i by blast
  have run: "main env [''iface'', ''add'', ''-n'', dec_digits n, ''-i'', ip, dev] c = Inr (0, c\<lparr>cl_world := w'\<rparr>)"
    using w'(1) o(1) ip at getopt_add [OF o(2), of "dec_digits n" ip]
    by (simp add: main_def find_add iface_do_add_def with_opts_def add_opt_def set_verbose_def no_opts_def iface_hdr_add_def
        trace_rv_def trace_again_def)
  note fits = with_node_fits [OF f]
  have "hdr_state (e_crc env) (w_disk w') = Some (with_node (e_crc env) n ?d h)"
    by (rule fd_store.written_state [OF w'(2) fits with_node_good [OF hdr_state_good [OF v]]])
  moreover have "bslice off k (w_disk w') = bslice off k (w_disk (cl_world c))" if "unat (h_phys_blk_size h) \<le> off" for off k
    by (rule fd_store.written_frame [OF w'(2) fits]) (use that in simp)
  ultimately show ?thesis using run
    by (intro exI [of _ "c\<lparr>cl_world := w'\<rparr>"] exI [of _ "with_node (e_crc env) n ?d h"] conjI) simp_all
qed

text \<open>An environment with a device, and the address 10.0.0.1.\<close>

definition demo_env :: cli_env where
  "demo_env = \<lparr>e_crc = demo_crc, e_open = (\<lambda>_. 3), e_read = (\<lambda>_ _. None), e_write = (\<lambda>_ _. - 1),
     e_aton = (\<lambda>_. Some 0x0100000A), e_scan = None\<rparr>"

definition demo_cli :: cli where
  "demo_cli = \<lparr>cl_world = demo_world demo_header, cl_out = [], cl_err = [], cl_verbose = B_FALSE\<rparr>"

theorem iface_add_marks_node_witness:
  "\<exists>c' h'. main demo_env [''iface'', ''add'', ''-n'', dec_digits 1, ''-i'', ''10.0.0.1'', ''/dev/sdb''] demo_cli = Inr (0, c') \<and>
    hdr_state demo_crc (w_disk (cl_world c')) = Some h' \<and>
    h_nodes h' = (replicate 32 empty_node)[1 := \<lparr>nd_flags = 1, nd_ip_addr = 0x0100000A\<rparr>]"
proof -
  have "add_allowed (word_of_nat 1) 0 demo_header" "(1 :: nat) < MAX_CLUSTER_SIZE"
    by (simp_all add: add_allowed_def node_index_def demo_counts demo_nodes layout_simps)
  then show ?thesis
    using iface_add_marks_node [of demo_cli demo_env "''/dev/sdb''" demo_header 1 "''10.0.0.1''" "0x0100000A"]
      demo_quiet demo_view demo_fits demo_nodes
    by (auto simp: demo_env_def demo_cli_def operand_def)
qed

section \<open>Command lines that are not understood\<close>









text \<open>What a handler does with such a command line: a message on standard error and the code for it.\<close>

definition complains :: "cli \<Rightarrow> fault + int \<times> cli \<Rightarrow> bool" where
  "complains c r \<longleftrightarrow> (\<exists>msg v. r = Inr (EOB_BADUSAGE, print_err (msg @ [nl]) (c\<lparr>cl_verbose := v\<rparr>)))"

lemma complains_bad [simp]: "complains c (bad_usage msg (set_verbose o' c))"
  unfolding complains_def bad_usage_def set_verbose_def
  by (rule exI [of _ msg], rule exI [of _ "if o_verbose o' then B_TRUE else cl_verbose c"])
    (simp add: SET_ERR_def eob_strerror_def)
















end
