(* ===== verification/Eob_Text_Mail.thy ===== *)
theory Eob_Text_Mail
  imports Eob_Mail_Errors Eob_Open
begin

text \<open>
  Text messages on a device of 512-byte blocks: opening it by path, sending a text to a node and
  receiving it there, as the command line tool and its self tests do.
\<close>

section \<open>Opening the device for a message\<close>

text \<open>A device whose header has the block sizes of the default address, 512 bytes.\<close>

definition plain_disk :: "crc_fn \<Rightarrow> eob_world \<Rightarrow> bool" where
  "plain_disk crc w \<longleftrightarrow> calm w \<and> EOB_HDR_SIZE + 256 * 2 ^ 9 \<le> length (w_disk w) \<and>
     good_header crc (disk_header w) \<and> h_phys_blk_size (disk_header w) = 2 ^ 9 \<and> h_virt_blk_size (disk_header w) = 2 ^ 9"

text \<open>The addresses that ask for these sizes.\<close>

definition plain_addr :: "eob_hw_addr \<Rightarrow> bool" where
  "plain_addr a \<longleftrightarrow> unat (hw_phys_blk_shift a) = 9 \<and> unat (hw_virt_blk_shift a) = 9 \<and> wf_hw_addr a"

lemma plain_addr_default [simp]: "plain_addr (EOB_HW_ADDR_INIT_DEFAULT n c)"
  by (simp add: plain_addr_def EOB_HW_ADDR_INIT_DEFAULT_def EOB_HW_ADDR_INIT_def wf_hw_addr_def)

lemma plain_disk_io: "plain_disk crc w \<Longrightarrow> same_io w w' \<Longrightarrow> plain_disk crc w'"
  using same_ioD [of w w'] disk_header_io [of w w'] by (simp add: plain_disk_def)

lemma plain_disk_calm: "plain_disk crc w \<Longrightarrow> calm w"
  by (simp add: plain_disk_def)

lemma open_file_plain:
  assumes P: "plain_disk crc w" and a: "plain_addr a" and fd: "0 < sys_open path"
  obtains self w' where "eob_device_open_file sys_open crc a path 0 w = Inr (EOB_OK, Some self, w')"
    and "same_io w w'" and "d_addr self = a" and "blocks self 9 9"
proof -
  have sh: "shifts_ok a" using a by (simp add: shifts_ok_def plain_addr_def)
  obtain w1 buf where o: "open_self a path w = Inr (Inr (fresh_self a path buf), w1)" and io: "same_io w w1"
    by (rule open_self_ok [OF plain_disk_calm [OF P] shifts_phys [OF sh]])
  let ?self = "(fresh_self a path buf)\<lparr>d_fd := sys_open path\<rparr>"
  have P1: "plain_disk crc w1" by (rule plain_disk_io [OF P io])
  have s: "d_addr ?self = a" "d_fd ?self = sys_open path" by (simp_all add: fresh_self_def)
  obtain w2 where i: "eob_device_init_hdr crc ?self 0 w1 = Inr (EOB_OK, ?self\<lparr>d_hdr := disk_header w1\<rparr>, w2)"
    and io2: "same_io w1 w2"
    by (rule init_hdr_adopts [of w1 ?self crc])
      (use P1 s sh fd a in \<open>auto simp: plain_disk_def plain_addr_def addr_sizes_def word_le_nat_alt layout_simps\<close>)
  have "eob_device_open_file sys_open crc a path 0 w = Inr (EOB_OK, Some (?self\<lparr>d_hdr := disk_header w1\<rparr>), w2)"
    using o i fd by (simp add: eob_device_open_file_def finish_open_def)
  moreover have "blocks (?self\<lparr>d_hdr := disk_header w1\<rparr>) 9 9" using P1 by (simp add: blocks_def plain_disk_def)
  ultimately show thesis using same_io_trans [OF io io2] s(1) by (intro that) simp_all
qed

section \<open>One message\<close>

text \<open>The block that holds the text \<open>t\<close> from the address \<open>a\<close>.\<close>

definition text_block :: "crc_fn \<Rightarrow> eob_hw_addr \<Rightarrow> bytes \<Rightarrow> bytes" where
  "text_block crc a t = packet_bytes (mk_packet crc (2 ^ 9) a (t @ [0]))"

lemma shift9: "packet_shift 9"
  by (simp add: packet_shift_def)

lemma length_text_block: "wf_hw_addr a \<Longrightarrow> Suc (length t) \<le> pkt_data_size (2 ^ 9) \<Longrightarrow> length (text_block crc a t) = 2 ^ 9"
  unfolding text_block_def by (rule length_mk_packet) simp_all

lemma plain_disk_sent:
  assumes P: "plain_disk crc w" and c: "calm w'" and d: "w_disk w' = overlay (node_off 9 n) blk (w_disk w)" and l: "length blk = 2 ^ 9"
  shows "plain_disk crc w'"
proof -
  have room: "node_off 9 n + 2 ^ 9 \<le> length (w_disk w)" by (rule cluster_room) (use P in \<open>simp add: plain_disk_def\<close>)
  have len: "length (w_disk w') = length (w_disk w)" using l room d by (simp add: length_overlay)
  have "bslice 0 EOB_HDR_SIZE (w_disk w') = bslice 0 EOB_HDR_SIZE (w_disk w)"
    unfolding d by (rule bslice_overlay_before) (use room in \<open>simp_all add: node_off_def\<close>)
  then have "disk_header w' = disk_header w" by (simp add: disk_header_def)
  then show ?thesis using P c len by (simp add: plain_disk_def)
qed

lemma send_text_ok:
  assumes b: "blocks self 9 9" and a: "plain_addr (d_addr self)" and c: "calm w"
    and t: "Suc (length t) \<le> pkt_data_size (2 ^ 9)"
  obtains w' where "eob_device_send crc self \<lparr>iov_base = Some (t @ 0 # rest), iov_len = length t + 1\<rparr> to w = Inr (EOB_OK, w')"
    and "calm w'" and "w_disk w' = overlay (node_off 9 (hw_node_id to)) (text_block crc (d_addr self) t) (w_disk w)"
proof -
  have "wf_hw_addr (d_addr self)" using a by (simp add: plain_addr_def)
  from send_ok [OF b shift9 c this, of "\<lparr>iov_base = Some (t @ 0 # rest), iov_len = length t + 1\<rparr>" "t @ 0 # rest" crc to] t
  obtain w' where "eob_device_send crc self \<lparr>iov_base = Some (t @ 0 # rest), iov_len = length t + 1\<rparr> to w = Inr (EOB_OK, w')"
    "calm w'" "w_disk w' = overlay (node_off 9 (hw_node_id to)) (text_block crc (d_addr self) t) (w_disk w)"
    by (auto simp: text_block_def)
  then show thesis by (rule that)
qed

lemma send_str_ok:
  assumes b: "blocks self 9 9" and a: "plain_addr (d_addr self)" and c: "calm w"
    and t: "0 \<notin> set t" "Suc (length t) \<le> pkt_data_size (2 ^ 9)"
  obtains w' where "eob_device_send_str crc self (t @ 0 # rest) to w = Inr (EOB_OK, w')" and "calm w'"
    and "w_disk w' = overlay (node_off 9 (hw_node_id to)) (text_block crc (d_addr self) t) (w_disk w)"
proof -
  obtain w' where "eob_device_send crc self \<lparr>iov_base = Some (t @ 0 # rest), iov_len = length t + 1\<rparr> to w = Inr (EOB_OK, w')"
    "calm w'" "w_disk w' = overlay (node_off 9 (hw_node_id to)) (text_block crc (d_addr self) t) (w_disk w)"
    by (rule send_text_ok [OF b a c t(2)])
  then show thesis using t(1) by (intro that [of w']) (simp_all add: eob_device_send_str_def c_strlen_ok)
qed

text \<open>After it the device is as usable as before, and the block of the node holds the text.\<close>

lemma text_sent:
  assumes P: "plain_disk crc w" and c: "calm w'" and a: "plain_addr a" and t: "Suc (length t) \<le> pkt_data_size (2 ^ 9)"
    and d: "w_disk w' = overlay (node_off 9 n) (text_block crc a t) (w_disk w)"
  shows "plain_disk crc w'" and "node_block 9 n (w_disk w') = text_block crc a t"
proof -
  have l: "length (text_block crc a t) = 2 ^ 9" using a t by (simp add: plain_addr_def length_text_block)
  show "plain_disk crc w'" by (rule plain_disk_sent [OF P c d l])
  show "node_block 9 n (w_disk w') = text_block crc a t" unfolding d by (rule node_block_overlay_same [OF l])
qed

lemma recv_text_ok:
  assumes b: "blocks self 9 9" and P: "plain_disk crc w" and a: "plain_addr a"
    and blk: "node_block 9 (hw_node_id (d_addr self)) (w_disk w) = text_block crc a t"
    and t: "Suc (length t) \<le> pkt_data_size (2 ^ 9)"
  obtains w' where "eob_device_recv crc self w =
      Inr (EOB_OK, Some (\<lparr>iov_base = Some (t @ [0]), iov_len = length (t @ [0])\<rparr>, a), w')"
    and "calm w'" and "w_disk w' = w_disk w"
proof -
  have "packet_mail crc (2 ^ 9) (text_block crc a t) = Some (Inr (t @ [0], a))"
    unfolding text_block_def by (rule packet_mail_mk) (use a t in \<open>simp_all add: plain_addr_def\<close>)
  then have m: "packet_mail crc (2 ^ 9) (node_block 9 (hw_node_id (d_addr self)) (w_disk w)) = Some (Inr (t @ [0], a))"
    using blk by simp
  have c: "calm w" and room: "node_off 9 (hw_node_id (d_addr self)) + 2 ^ 9 \<le> length (w_disk w)"
    using P cluster_room [of 9 "w_disk w" "hw_node_id (d_addr self)"] by (simp_all add: plain_disk_def)
  from recv_ok [OF b shift9 c room m] obtain w' where "eob_device_recv crc self w =
      Inr (EOB_OK, Some (\<lparr>iov_base = Some (t @ [0]), iov_len = length (t @ [0])\<rparr>, a), w')" "same_io w w'"
    by auto
  then show thesis using same_ioD [of w w'] c by (intro that [of w']) simp_all
qed

lemma recv_str_same:
  assumes b: "blocks self 9 9" and P: "plain_disk crc w" and a: "plain_addr a"
    and blk: "node_block 9 (hw_node_id (d_addr self)) (w_disk w) = text_block crc a t"
    and t: "0 \<notin> set t" "Suc (length t) \<le> pkt_data_size (2 ^ 9)"
  obtains w' where "eob_device_recv_str crc self w = Inr (EOB_OK, Some (Some (t @ [0]), a), w')" and "same_io w w'"
proof -
  obtain w' where "eob_device_recv crc self w =
      Inr (EOB_OK, Some (\<lparr>iov_base = Some (t @ [0]), iov_len = length (t @ [0])\<rparr>, a), w')" "calm w'" "w_disk w' = w_disk w"
    by (rule recv_text_ok [OF b P a blk t(2)])
  then show thesis using t(1) c_strlen_ok [of t "[]"]
    by (intro that [of w']) (simp_all add: eob_device_recv_str_def same_io_def)
qed

lemma recv_str_ok:
  assumes "blocks self 9 9" and "plain_disk crc w" and "plain_addr a"
    and "node_block 9 (hw_node_id (d_addr self)) (w_disk w) = text_block crc a t"
    and "0 \<notin> set t" "Suc (length t) \<le> pkt_data_size (2 ^ 9)"
  obtains w' where "eob_device_recv_str crc self w = Inr (EOB_OK, Some (Some (t @ [0]), a), w')"
  using assms by (rule recv_str_same)

end
