(* ===== verification/Cli_Mail.thy ===== *)
theory Cli_Mail
  imports Cli_Props Eob_Text_Mail
begin

text \<open>
  The command line tool between two nodes: what \<open>iface send\<close> reads from a file and puts on the
  device is what \<open>iface recv\<close> prints.
\<close>

section \<open>The two commands\<close>

abbreviation node_addr :: "u8 \<Rightarrow> eob_hw_addr" where
  "node_addr n \<equiv> EOB_HW_ADDR_INIT_DEFAULT (uint n) 0"

lemma node_addr_simps [simp]: "hw_node_id (node_addr n) = n" "unat (hw_virt_blk_shift (node_addr n)) = 9"
  by (simp_all add: EOB_HW_ADDR_INIT_DEFAULT_def EOB_HW_ADDR_INIT_def)

lemma open_dev_ok:
  assumes P: "plain_disk (e_crc env) w" and fd: "0 < e_open env dev" and n: "dev \<noteq> ''-''"
  obtains self w' where "open_dev env std name (node_addr n) dev B_FALSE w = Inr (Inr self, w')"
    and "same_io w w'" and "d_addr self = node_addr n" and "blocks self 9 9"
proof -
  obtain self w' where "eob_device_open_file (e_open env) (e_crc env) (node_addr n) dev 0 w = Inr (EOB_OK, Some self, w')"
    "same_io w w'" "d_addr self = node_addr n" "blocks self 9 9"
    by (rule open_file_plain [where sys_open = "e_open env", OF P plain_addr_default fd])
  then show thesis using n by (intro that [of self w']) (simp_all add: open_dev_def)
qed

text \<open>What the two commands do once the device is open.\<close>

lemma iface_send_opened:
  assumes o: "open_dev env 1 ''stdout'' (node_addr s) dev B_FALSE (cl_world c) = Inr (Inr self, w1)" "d_addr self = node_addr s" "blocks self 9 9"
    and P: "plain_disk (e_crc env) w1" and r: "e_read env 0 512 = Some t" and t: "0 \<notin> set t" "Suc (length t) \<le> pkt_data_size (2 ^ 9)"
  obtains w' where "iface_send env (Some ''-'') dev B_FALSE (uint s) (uint d) 0 c = Inr (0, c\<lparr>cl_world := w'\<rparr>)"
    and "plain_disk (e_crc env) w'" and "node_block 9 d (w_disk w') = text_block (e_crc env) (node_addr s) t"
    and "w_disk w' = overlay (node_off 9 d) (text_block (e_crc env) (node_addr s) t) (w_disk w1)"
proof -
  have c1: "calm w1" by (rule plain_disk_calm [OF P])
  obtain w2 where m: "malloc_ok w1 = (True, w2)" "same_io w1 w2" by (rule calm_malloc_ok [OF c1])
  have l: "length t < 512" using t(2) by (simp add: pkt_data_size_def)
  have str: "(overlay 0 t (replicate 512 0))[length t := 0] = t @ 0 # replicate (511 - length t) 0"
  proof -
    have "overlay 0 t (replicate 512 0) = t @ replicate (512 - length t) 0" by (cases "t = []") (simp_all add: overlay_0)
    also have "512 - length t = Suc (511 - length t)" using l by simp
    finally have "overlay 0 t (replicate 512 0) = t @ 0 # replicate (511 - length t) 0" by (simp only: replicate_Suc)
    then show ?thesis by (simp add: list_update_append)
  qed
  have a: "plain_addr (d_addr self)" by (simp add: o(2))
  obtain w3 where s: "eob_device_send_str (e_crc env) self (t @ 0 # replicate (511 - length t) 0) (node_addr d) w2 = Inr (EOB_OK, w3)"
    "calm w3" "w_disk w3 = overlay (node_off 9 (hw_node_id (node_addr d))) (text_block (e_crc env) (d_addr self) t) (w_disk w2)"
    by (rule send_str_ok [OF o(3) a same_ioD(1) [OF m(2) c1] t])
  have size: "EOB_HW_VIRT_BLK_SIZE (node_addr s) = Inr 512" by (simp add: EOB_HW_VIRT_BLK_SIZE_def int_shl1_def)
  have "iface_send env (Some ''-'') dev B_FALSE (uint s) (uint d) 0 c = Inr (0, c\<lparr>cl_world := w3\<rparr>)"
    using o(1) size m(1) r l str s(1) by (simp add: iface_send_def open_stream_def Let_def)
  moreover have d: "w_disk w3 = overlay (node_off 9 d) (text_block (e_crc env) (node_addr s) t) (w_disk w1)"
    using s(3) same_ioD(2) [OF m(2)] by (simp add: o(2))
  ultimately show thesis using text_sent [OF P s(2) plain_addr_default t(2) d] by (intro that) auto
qed

lemma iface_send_ok:
  assumes P: "plain_disk (e_crc env) (cl_world c)" and fd: "0 < e_open env dev" "dev \<noteq> ''-''"
    and r: "e_read env 0 512 = Some t" and t: "0 \<notin> set t" "Suc (length t) \<le> pkt_data_size (2 ^ 9)"
  obtains w' where "iface_send env (Some ''-'') dev B_FALSE (uint s) (uint d) 0 c = Inr (0, c\<lparr>cl_world := w'\<rparr>)"
    and "plain_disk (e_crc env) w'" and "node_block 9 d (w_disk w') = text_block (e_crc env) (node_addr s) t"
proof -
  obtain self w1 where o: "open_dev env 1 ''stdout'' (node_addr s) dev B_FALSE (cl_world c) = Inr (Inr self, w1)"
    "same_io (cl_world c) w1" "d_addr self = node_addr s" "blocks self 9 9"
    by (rule open_dev_ok [OF P fd])
  show thesis by (rule iface_send_opened [OF o(1,3,4) plain_disk_io [OF P o(2)] r t that])
qed

lemma iface_recv_opened:
  assumes o: "open_dev env 0 ''stdin'' (node_addr d) dev B_FALSE (cl_world c) = Inr (Inr self, w1)" "d_addr self = node_addr d" "blocks self 9 9"
    and P: "plain_disk (e_crc env) w1" and v: "cl_verbose c = B_FALSE"
    and b: "node_block 9 d (w_disk w1) = text_block (e_crc env) (node_addr s) t"
    and t: "0 \<notin> set t" "Suc (length t) \<le> pkt_data_size (2 ^ 9)"
  obtains w' where "iface_recv env (Some ''-'') dev B_FALSE (uint d) 0 c = Inr (0, print (t @ [10]) (c\<lparr>cl_world := w'\<rparr>))"
    and "same_io w1 w'"
proof -
  obtain w2 where r: "eob_device_recv_str (e_crc env) self w1 = Inr (EOB_OK, Some (Some (t @ [0]), node_addr s), w2)" and io: "same_io w1 w2"
    by (rule recv_str_same [OF o(3) P plain_addr_default _ t]) (simp add: o(2) b)
  have "iface_recv env (Some ''-'') dev B_FALSE (uint d) 0 c = Inr (0, print (t @ [10]) (c\<lparr>cl_world := w2\<rparr>))"
    using o(1) r v t(1) c_strlen_ok [of t "[]"] by (simp add: iface_recv_def open_stream_def to_bytes_def nl_def Let_def)
  then show thesis using io by (rule that)
qed

lemma iface_recv_ok:
  assumes P: "plain_disk (e_crc env) (cl_world c)" and fd: "0 < e_open env dev" "dev \<noteq> ''-''" and v: "cl_verbose c = B_FALSE"
    and b: "node_block 9 d (w_disk (cl_world c)) = text_block (e_crc env) (node_addr s) t"
    and t: "0 \<notin> set t" "Suc (length t) \<le> pkt_data_size (2 ^ 9)"
  obtains w' where "iface_recv env (Some ''-'') dev B_FALSE (uint d) 0 c = Inr (0, print (t @ [10]) (c\<lparr>cl_world := w'\<rparr>))"
proof -
  obtain self w1 where o: "open_dev env 0 ''stdin'' (node_addr d) dev B_FALSE (cl_world c) = Inr (Inr self, w1)"
    "same_io (cl_world c) w1" "d_addr self = node_addr d" "blocks self 9 9"
    by (rule open_dev_ok [OF P fd])
  have "node_block 9 d (w_disk w1) = text_block (e_crc env) (node_addr s) t" using b same_ioD(2) [OF o(2)] by simp
  then show thesis by (rule iface_recv_opened [OF o(1,3,4) plain_disk_io [OF P o(2)] v _ t that])
qed

section \<open>From one command line to another\<close>

lemma getopt_dev: "operand dev \<Longrightarrow> getopt_loop os [] [dev] = ([], [dev])"
  by (simp add: getopt_operand del: getopt_loop.simps(2))

lemma getopt_send:
  "operand dev \<Longrightarrow> getopt_all ''vFf:s:d:c:'' [''iface'', ''send'', ''-s'', s, ''-d'', d, ''-f'', ''-'', dev] =
    ([Opt CHR ''s'' (Some s), Opt CHR ''d'' (Some d), Opt CHR ''f'' (Some ''-'')], [''send'', dev])"
  using getopt_dev [of dev "''vFf:s:d:c:''"] by (simp add: getopt_all_def)

lemma getopt_recv:
  "operand dev \<Longrightarrow> getopt_all ''vFf:s:c:'' [''iface'', ''recv'', ''-s'', d, ''-f'', ''-'', dev] =
    ([Opt CHR ''s'' (Some d), Opt CHR ''f'' (Some ''-'')], [''recv'', dev])"
  using getopt_dev [of dev "''vFf:s:c:''"] by (simp add: getopt_all_def)

lemma find_send: "find_command ''send'' = Some \<lparr>cmd_name = ''send'', cmd_fn = iface_do_send, cmd_usage = HELP_SEND\<rparr>"
  and find_recv: "find_command ''recv'' = Some \<lparr>cmd_name = ''recv'', cmd_fn = iface_do_recv, cmd_usage = HELP_RECV\<rparr>"
  by (simp_all add: find_command_def iface_command_table_def)

text \<open>
  A message from one command line to another: on a device with a good header of 512-byte
  blocks, "iface send -s S -d D -f - DEVICE" with a text on its standard input exits with 0, and
  "iface recv -s D -f - DEVICE" after it exits with 0 and prints that text and a newline.
\<close>

theorem iface_message_delivered:
  assumes P: "plain_disk (e_crc env) (cl_world c)" and fd: "0 < e_open env dev" "dev \<noteq> ''-''" "operand dev"
    and v: "cl_verbose c = B_FALSE" and r: "e_read env 0 512 = Some t"
    and t: "0 \<notin> set t" "Suc (length t) \<le> pkt_data_size (2 ^ 9)" and n: "s < 256" "d < 256"
  shows "\<exists>c1 c2. main env [''iface'', ''send'', ''-s'', dec_digits s, ''-d'', dec_digits d, ''-f'', ''-'', dev] c = Inr (0, c1) \<and>
    main env [''iface'', ''recv'', ''-s'', dec_digits d, ''-f'', ''-'', dev] c1 = Inr (0, c2) \<and>
    cl_out c2 = cl_out c @ t @ [10]"
proof -
  have u: "uint (word_of_nat s :: u8) = int s" "uint (word_of_nat d :: u8) = int d"
    using n by (simp_all add: unsigned_of_nat take_bit_nat_eq_self)
  have at: "c_atoi (dec_digits s) = Inr (int s)" "c_atoi (dec_digits d) = Inr (int d)" using n by (simp_all add: atoi_dec)
  obtain w1 where s1: "iface_send env (Some ''-'') dev B_FALSE (int s) (int d) 0 c = Inr (0, c\<lparr>cl_world := w1\<rparr>)"
    "plain_disk (e_crc env) w1" "node_block 9 (word_of_nat d) (w_disk w1) = text_block (e_crc env) (node_addr (word_of_nat s)) t"
    using iface_send_ok [OF P fd(1,2) r t, of "word_of_nat s" "word_of_nat d"] unfolding u by blast
  let ?c1 = "c\<lparr>cl_world := w1\<rparr>"
  have P1: "plain_disk (e_crc env) (cl_world ?c1)" "cl_verbose ?c1 = B_FALSE"
    "node_block 9 (word_of_nat d) (w_disk (cl_world ?c1)) = text_block (e_crc env) (node_addr (word_of_nat s)) t" using s1 v by simp_all
  obtain w2 where r1: "iface_recv env (Some ''-'') dev B_FALSE (int d) 0 ?c1 = Inr (0, print (t @ [10]) (?c1\<lparr>cl_world := w2\<rparr>))"
    using iface_recv_ok [OF P1(1) fd(1,2) P1(2,3) t] unfolding u by blast
  have "main env [''iface'', ''send'', ''-s'', dec_digits s, ''-d'', dec_digits d, ''-f'', ''-'', dev] c = Inr (0, ?c1)"
    using s1(1) at getopt_send [OF fd(3), of "dec_digits s" "dec_digits d"]
    by (simp add: main_def find_send iface_do_send_def with_opts_def send_opt_def set_verbose_def no_opts_def atoi_or_def)
  moreover have "main env [''iface'', ''recv'', ''-s'', dec_digits d, ''-f'', ''-'', dev] ?c1 = Inr (0, print (t @ [10]) (?c1\<lparr>cl_world := w2\<rparr>))"
    using r1 at getopt_recv [OF fd(3), of "dec_digits d"]
    by (simp add: main_def find_recv iface_do_recv_def with_opts_def recv_opt_def set_verbose_def no_opts_def atoi_or_def)
  ultimately show ?thesis by (simp add: print_def)
qed

definition demo_mail_env :: cli_env where
  "demo_mail_env = demo_env\<lparr>e_read := (\<lambda>_ _. Some [72, 105])\<rparr>"

definition demo_mail_cli :: cli where
  "demo_mail_cli = demo_cli\<lparr>cl_world := demo_cluster_world\<rparr>"

lemma demo_plain_disk: "plain_disk demo_crc demo_cluster_world"
  using demo_calm demo_cluster_length demo_disk_header demo_good
  by (simp add: plain_disk_def demo_header_def init_header_def dflt_def layout_simps)

theorem iface_message_delivered_witness:
  "\<exists>c1 c2. main demo_mail_env [''iface'', ''send'', ''-s'', dec_digits 1, ''-d'', dec_digits 7, ''-f'', ''-'', ''/dev/sdb''] demo_mail_cli = Inr (0, c1) \<and>
    main demo_mail_env [''iface'', ''recv'', ''-s'', dec_digits 7, ''-f'', ''-'', ''/dev/sdb''] c1 = Inr (0, c2) \<and>
    cl_out c2 = [72, 105, 10]"
proof -
  have "plain_disk (e_crc demo_mail_env) (cl_world demo_mail_cli)" "cl_verbose demo_mail_cli = B_FALSE" "cl_out demo_mail_cli = []"
    "0 < e_open demo_mail_env ''/dev/sdb''" "e_read demo_mail_env 0 512 = Some [72, 105]" "operand ''/dev/sdb''"
    using demo_plain_disk by (simp_all add: demo_mail_env_def demo_env_def demo_mail_cli_def demo_cli_def operand_def)
  then show ?thesis
    using iface_message_delivered [of demo_mail_env demo_mail_cli "''/dev/sdb''" "[72, 105]" 1 7]
    by (auto simp: pkt_data_size_def layout_simps)
qed

end
