(* ===== verification/Eob_Header_Plain.thy ===== *)
theory Eob_Header_Plain
  imports Eob_Header_Ops Eob_Text_Mail Eob_Dump
begin

text \<open>
  The header operations on a device of 512-byte blocks that is used for messages as well: they
  keep it usable (no allocation fails later that would not have failed before), leave the blocks
  of the nodes alone, and \<open>eob_hdr_dump\<close> prints the header as it is.
\<close>

section \<open>Allocation\<close>

lemma pread_mallocs: "sys_pread n off w = (r, w') \<Longrightarrow> w_mallocs w' = w_mallocs w"
  by (auto simp: sys_pread_def Let_def split: io_event.splits list.splits if_splits)

lemma pwrite_mallocs: "sys_pwrite bs off w = (r, w') \<Longrightarrow> w_mallocs w' = w_mallocs w"
  by (auto simp: sys_pwrite_def Let_def split: io_event.splits list.splits if_splits)

lemma read_loop_mallocs: "read_header_loop crc n hdr w = (rv, h, w') \<Longrightarrow> w_mallocs w' = w_mallocs w"
proof (induction n arbitrary: hdr w)
  case (Suc n)
  obtain r h1 w1 where p: "read_header_pass crc hdr w = (r, h1, w1)" by (cases "read_header_pass crc hdr w")
  have "w_mallocs w1 = w_mallocs w"
    using p by (auto simp: read_header_pass_def Let_def dest!: pread_mallocs split: prod.splits option.splits if_splits)
  then show ?case using Suc p by (cases r) auto
qed simp

lemma read_header_mallocs: "eob_read_header crc fd hdr w = Inr (rv, h, w') \<Longrightarrow> w_mallocs w' = w_mallocs w"
  using read_loop_mallocs by (auto simp: eob_read_header_def bindr_Inr_iff)

lemma roomy_until_ok: "roomy w \<Longrightarrow> roomy (malloc_until_ok w)"
  using set_malloc_retry [of "w_mallocs w"] by (auto simp: roomy_def malloc_until_ok_def)

lemma write_header_roomy:
  assumes "eob_write_header fd h w = Inr (rv, w')" and "roomy w"
  shows "roomy w'"
proof -
  have "\<exists>dst. (case sys_pwrite dst eob_header_offset (malloc_until_ok w) of (rv, w) \<Rightarrow>
      if rv = None then Inr (SET_IO_ERR, w) else Inr (0, w)) = (Inr (rv, w') :: fault + int \<times> eob_world)"
    using assms(1) by (clarsimp simp: eob_write_header_def eob_iovec_calloc_wait_def alloc_wait_def bindr_Inr_iff) (rule exI)
  then obtain dst where "(case sys_pwrite dst eob_header_offset (malloc_until_ok w) of (rv, w) \<Rightarrow>
      if rv = None then Inr (SET_IO_ERR, w) else Inr (0, w)) = (Inr (rv, w') :: fault + int \<times> eob_world)" ..
  then obtain r where "sys_pwrite dst eob_header_offset (malloc_until_ok w) = (r, w')"
    by (cases "sys_pwrite dst eob_header_offset (malloc_until_ok w)") (auto split: if_splits)
  from pwrite_mallocs [OF this] show ?thesis using roomy_until_ok [OF assms(2)] by (simp add: roomy_def)
qed

lemma write_back_roomy:
  assumes "bindr (eob_write_header fd h w) (\<lambda>(rv, w). if rv \<noteq> 0 then bindr (SET_ERR rv) (\<lambda>rv. Inr (rv, w)) else Inr (0, w)) = Inr (rv, w')"
    and "roomy w"
  shows "roomy w'"
  using assms write_header_roomy by (auto simp: bindr_Inr_iff split: if_splits)

lemma hdr_init_roomy: "eob_hdr_init crc fd n v p force w = Inr (rv, w') \<Longrightarrow> roomy w \<Longrightarrow> roomy w'"
  unfolding eob_hdr_init_def Let_def by (auto simp only: bindr_Inr_iff [of "verify _"] bindr_Inr_iff [of "guard _ _"] dest: write_back_roomy)

lemma hdr_add_roomy:
  assumes "eob_hdr_add_device crc fd i d force w = Inr (rv, w')" and "roomy w"
  shows "roomy w'"
proof -
  obtain r h w1 where rd: "eob_read_header crc fd zero_header w = Inr (r, h, w1)"
    using assms(1) by (auto simp: eob_hdr_add_device_def bindr_Inr_iff)
  then have w1: "roomy w1" using read_header_mallocs [OF rd] assms(2) by (simp add: roomy_def)
  show ?thesis using assms(1) w1 unfolding eob_hdr_add_device_def rd
    by (cases "node_get h (scast i)"; cases "node_set h (scast i) d") (auto simp: Let_def bindr_Inr_iff [of "SET_ERR _"] dest!: write_back_roomy split: if_splits)
qed

lemma hdr_rem_roomy:
  assumes "eob_hdr_rem_device crc fd i w = Inr (rv, w')" and "roomy w"
  shows "roomy w'"
proof -
  obtain r h w1 where rd: "eob_read_header crc fd zero_header w = Inr (r, h, w1)"
    using assms(1) by (auto simp: eob_hdr_rem_device_def bindr_Inr_iff)
  then have w1: "roomy w1" using read_header_mallocs [OF rd] assms(2) by (simp add: roomy_def)
  show ?thesis using assms(1) w1 unfolding eob_hdr_rem_device_def rd
    by (cases "node_get h (scast i)"; cases "node_set h (scast i) empty_node") (auto simp: Let_def bindr_Inr_iff [of "SET_ERR _"] dest!: write_back_roomy split: if_splits)
qed

section \<open>A plain device after a header operation\<close>

lemma plain_state:
  assumes "plain_disk crc w"
  shows "hdr_state crc (w_disk w) = Some (disk_header w)" and "fd_fits (disk_header w)" and "quiet w" and "roomy w"
  using assms header.wf_dec by (auto simp: plain_disk_def hdr_state_def disk_header_def Let_def fd_fits_def calm_def layout_simps)

lemma header_written_plain:
  assumes W: "fd_store.written fd h w w'" and len: "EOB_HDR_SIZE + 256 * 2 ^ 9 \<le> length (w_disk w)" and r: "roomy w'"
    and h: "good_header crc h" "fd_fits h" "h_phys_blk_size h = 2 ^ 9" "h_virt_blk_size h = 2 ^ 9"
  shows "plain_disk crc w'" and "disk_header w' = h" and "node_block 9 n (w_disk w') = node_block 9 n (w_disk w)"
proof -
  have st: "hdr_state crc (w_disk w') = Some h" by (rule fd_store.written_state [OF W h(2,1)])
  then show hd: "disk_header w' = h" by (simp add: hdr_state_Some_iff disk_header_def)
  have "length (w_disk w') \<ge> length (w_disk w)" and "quiet w'"
    using W by (auto simp: fd_store.written_def length_overlay)
  then show "plain_disk crc w'" using len r h hd by (simp add: plain_disk_def calm_def)
  show "node_block 9 n (w_disk w') = node_block 9 n (w_disk w)"
    unfolding node_block_def by (rule fd_store.written_frame [OF W h(2)]) (simp add: h(3) node_off_def layout_simps)
qed

lemma node_written_plain:
  assumes P: "plain_disk crc w" and W: "fd_store.written fd (with_node crc i a (disk_header w)) w w'" and r: "roomy w'"
  shows "plain_disk crc w'" and "disk_header w' = with_node crc i a (disk_header w)" and "node_block 9 n (w_disk w') = node_block 9 n (w_disk w)"
proof -
  have "EOB_HDR_SIZE + 256 * 2 ^ 9 \<le> length (w_disk w)" and "good_header crc (disk_header w)"
    and "h_phys_blk_size (disk_header w) = 2 ^ 9" and "h_virt_blk_size (disk_header w) = 2 ^ 9" using P by (simp_all add: plain_disk_def)
  then show "plain_disk crc w'" and "disk_header w' = with_node crc i a (disk_header w)" and "node_block 9 n (w_disk w') = node_block 9 n (w_disk w)"
    using header_written_plain [OF W _ r with_node_good with_node_fits [OF plain_state(2) [OF P]]] by simp_all
qed

text \<open>\<open>add\<close> and \<open>remove\<close> that leave the header as it is.\<close>

lemma plain_read:
  assumes P: "plain_disk crc w" and fd: "0 < fd"
  obtains w' where "eob_read_header crc fd zero_header w = Inr (EOB_OK, disk_header w, w')" and "same_io w w'"
proof -
  obtain w1 where rd: "eob_read_header crc fd zero_header w = Inr (EOB_OK, disk_header w, w1)" "w_disk w1 = w_disk w" "quiet w1"
    using fd_store.rd_store [OF conjI [OF plain_state(3) [OF P] fd] plain_state(1) [OF P]] by blast
  have "roomy w1" using read_header_mallocs [OF rd(1)] plain_state(4) [OF P] by (simp add: roomy_def)
  then have "same_io w w1" using rd(2,3) by (simp add: same_io_def calm_def)
  with rd(1) show thesis by (rule that)
qed

lemma plain_add_refused:
  assumes P: "plain_disk crc w" and fd: "0 < fd" and al: "\<not> add_allowed i force (disk_header w)"
    and i: "unat (h_nodes_count (disk_header w)) \<le> node_index i \<or> node_index i < MAX_CLUSTER_SIZE"
  obtains w' where "eob_hdr_add_device crc fd i a force w = Inr (EOB_INVAL, w')" and "same_io w w'"
proof -
  obtain w1 where rd: "eob_read_header crc fd zero_header w = Inr (EOB_OK, disk_header w, w1)" "same_io w w1"
    by (rule plain_read [OF P fd])
  have "(scast i :: u64) \<ge> h_nodes_count (disk_header w) \<longleftrightarrow> unat (h_nodes_count (disk_header w)) \<le> node_index i"
    by (simp add: node_index_def word_le_nat_alt)
  then have "eob_hdr_add_device crc fd i a force w = Inr (EOB_INVAL, w1)"
    using rd(1) al i by (auto simp: eob_hdr_add_device_def add_allowed_def node_get_in)
  then show thesis using rd(2) by (rule that)
qed

lemma plain_rem_absent:
  assumes P: "plain_disk crc w" and fd: "0 < fd" and i: "node_index i < MAX_CLUSTER_SIZE"
    and p: "\<not> EOB_NODE_IS_PRESENT (h_nodes (disk_header w) ! node_index i)"
  obtains w' where "eob_hdr_rem_device crc fd i w = Inr (EOB_OK, w')" and "same_io w w'"
proof -
  obtain w1 where rd: "eob_read_header crc fd zero_header w = Inr (EOB_OK, disk_header w, w1)" "same_io w w1"
    by (rule plain_read [OF P fd])
  then have "eob_hdr_rem_device crc fd i w = Inr (EOB_OK, w1)" using i p by (auto simp: eob_hdr_rem_device_def node_get_in)
  then show thesis using rd(2) by (rule that)
qed

text \<open>The text of the header, as a function of what it holds.\<close>

definition header_text :: "eob_header \<Rightarrow> string" where
  "header_text h =
     ''version: '' @ dec_digits (unat (h_version h)) @ [nl] @
     ''magic: '' @ dec_digits (unat (h_magic h)) @ [nl] @
     ''nodes_count: '' @ dec_digits (unat (h_nodes_count h)) @ [nl] @
     ''phys_blk_size: '' @ dec_digits (unat (h_phys_blk_size h)) @ [nl] @
     ''virt_blk_size: '' @ dec_digits (unat (h_virt_blk_size h)) @ [nl] @
     ''header_size: '' @ dec_digits EOB_HDR_SIZE @ [nl] @
     concat (map (\<lambda>(i, n). dump_node i n) (enumerate 0 (h_nodes h))) @ [nl]"

lemma dump_nodes_loop_eq:
  "dump_nodes_loop i nodes buf = buf @ concat (map (\<lambda>(i, n). dump_node i n) (enumerate i nodes))"
  by (induction nodes arbitrary: i buf) simp_all

lemma hdr_dump_plain:
  assumes P: "plain_disk crc w" and fd: "0 < fd"
  obtains w' where "eob_hdr_dump crc fd w = Inr (0, Some (header_text (disk_header w)), w')" and "same_io w w'"
proof -
  obtain w1 where rd: "eob_read_header crc fd zero_header w = Inr (EOB_OK, disk_header w, w1)" and io1: "same_io w w1"
    by (rule plain_read [OF P fd])
  note c1 = same_ioD(1) [OF io1 plain_disk_calm [OF P]]
  obtain w2 where m2: "malloc_ok w1 = (True, w2)" "same_io w1 w2" by (rule calm_malloc_ok [OF c1])
  obtain w3 where m3: "malloc_ok w2 = (True, w3)" "same_io w2 w3" by (rule calm_malloc_ok [OF same_ioD(1) [OF m2(2) c1]])
  have "eob_hdr_dump crc fd w = Inr (0, Some (header_text (disk_header w)), w3)"
    using rd m2(1) m3(1) by (simp add: eob_hdr_dump_def eob_dump_nodes_def dump_nodes_loop_eq header_text_def Let_def del: malloc_ok.simps)
  then show thesis using same_io_trans [OF same_io_trans [OF io1 m2(2)] m3(2)] by (rule that)
qed

end
