(* ===== verification/Eob_Header_Bare.thy ===== *)
theory Eob_Header_Bare
  imports Eob_Header_Plain
begin

text \<open>
  A device without a header, one that was wiped for instance: the header operations and the dump
  fail with \<open>EOB_CHKSUM\<close> and leave it as it is, and the first open that asks for 512-byte blocks
  writes a header around the node table found there.
\<close>

definition bare_disk :: "crc_fn \<Rightarrow> eob_world \<Rightarrow> bool" where
  "bare_disk crc w \<longleftrightarrow> calm w \<and> EOB_HDR_SIZE + 256 * 2 ^ 9 \<le> length (w_disk w) \<and>
     read_code crc (disk_header w) = EOB_CHKSUM"

lemma bare_disk_io: "bare_disk crc w \<Longrightarrow> same_io w w' \<Longrightarrow> bare_disk crc w'"
  using same_ioD [of w w'] disk_header_io [of w w'] by (simp add: bare_disk_def)

lemma bare_not_good: "bare_disk crc w \<Longrightarrow> \<not> good_header crc (disk_header w)"
  by (auto simp: bare_disk_def read_code_def)

section \<open>Header operations\<close>

lemma bare_read:
  assumes B: "bare_disk crc w" and fd: "0 < fd"
  obtains h w' where "eob_read_header crc fd zero_header w = Inr (EOB_CHKSUM, h, w')" and "same_io w w'"
proof -
  let ?dev = "(undefined :: eob_device)\<lparr>d_fd := fd\<rparr>"
  have "calm w" "EOB_HDR_SIZE \<le> length (w_disk w)" "0 < d_fd ?dev" using B fd by (simp_all add: bare_disk_def)
  then obtain w' where "eob_device_read_header crc ?dev zero_header w = Inr (read_code crc (disk_header w), disk_header w, w')"
    "same_io w w'" by (rule dev_read_any)
  moreover have "eob_device_read_header crc ?dev zero_header w = eob_read_header crc fd zero_header w"
    by (simp add: eob_device_read_header_def eob_read_header_def)
  ultimately show thesis using B by (intro that [of "disk_header w" w']) (simp_all add: bare_disk_def)
qed

lemma bare_add:
  assumes "bare_disk crc w" and "0 < fd"
  obtains w' where "eob_hdr_add_device crc fd i a force w = Inr (EOB_CHKSUM, w')" and "same_io w w'"
  using assms by (rule bare_read) (auto intro: that simp: eob_hdr_add_device_def)

lemma bare_rem:
  assumes "bare_disk crc w" and "0 < fd"
  obtains w' where "eob_hdr_rem_device crc fd i w = Inr (EOB_CHKSUM, w')" and "same_io w w'"
  using assms by (rule bare_read) (auto intro: that simp: eob_hdr_rem_device_def)

lemma bare_dump:
  assumes "bare_disk crc w" and "0 < fd"
  obtains w' where "eob_hdr_dump crc fd w = Inr (EOB_CHKSUM, None, w')" and "same_io w w'"
  using assms by (rule bare_read) (auto intro: that simp: eob_hdr_dump_def)

section \<open>Wiping the header\<close>

lemma deinit_bare:
  assumes c: "calm w" and len: "EOB_HDR_SIZE + 256 * 2 ^ 9 \<le> length (w_disk w)"
  obtains w' where "eob_hdr_deinit fd w = Inr (EOB_OK, w')" and "bare_disk crc w'" and "disk_header w' = zero_header"
    and "\<forall>n. node_block 9 n (w_disk w') = node_block 9 n (w_disk w)"
proof -
  have l: "length (header_bytes zero_header) = EOB_HDR_SIZE" by (simp add: header.length_enc)
  obtain w' where p: "sys_pwrite (header_bytes zero_header) eob_header_offset w = (Some (length (header_bytes zero_header)), w')"
    and d: "w_disk w' = overlay 0 (header_bytes zero_header) (w_disk w)" and c': "calm w'"
    by (rule calm_pwrite [OF c header_offset_simps(1), of "header_bytes zero_header"]) (simp only: header_offset_simps(2))
  have hd: "disk_header w' = zero_header"
    using bslice_overlay_same [OF l [symmetric], of 0 "w_disk w"] by (simp add: disk_header_def d l header.dec_enc)
  have "h_magic zero_header \<noteq> EOB_HDR_MAGIC" by (simp add: zero_header_def layout_simps)
  then have "bare_disk crc w'"
    using c' len by (simp add: bare_disk_def hd read_code_def good_header_def d length_overlay l)
  moreover have "node_block 9 n (w_disk w') = node_block 9 n (w_disk w)" for n
    unfolding node_block_def d by (rule bslice_overlay_after) (simp add: l node_off_def)
  ultimately show thesis using p hd by (intro that [of w']) (simp_all add: eob_hdr_deinit_def)
qed

section \<open>The first open\<close>

lemma dev_read_mallocs: "eob_device_read_header crc dev hdr w = Inr (rv, h, w') \<Longrightarrow> w_mallocs w' = w_mallocs w"
  using read_loop_mallocs by (auto simp: eob_device_read_header_def bindr_Inr_iff)

lemma bindr_InrE: "bindr m f = Inr r \<Longrightarrow> (\<And>x. m = Inr x \<Longrightarrow> f x = Inr r \<Longrightarrow> P) \<Longrightarrow> P"
  by (auto simp: bindr_Inr_iff)

lemma pwrite_tail_mallocs:
  "(case sys_pwrite buf off w of (r, w) \<Rightarrow> if r = None then Inr (e, dev, w) else Inr (0, dev, w)) = Inr (rv, dev', w') \<Longrightarrow>
   w_mallocs w' = w_mallocs w"
  by (cases "sys_pwrite buf off w") (auto dest: pwrite_mallocs split: if_split_asm)

lemma dev_write_mallocs: "eob_device_write_header dev h w = Inr (rv, dev', w') \<Longrightarrow> w_mallocs w' = w_mallocs w"
  unfolding eob_device_write_header_def Let_def by (elim bindr_InrE) (erule pwrite_tail_mallocs)

lemma init_hdr_mallocs:
  assumes "eob_device_init_hdr crc dev force w = Inr (rv, dev', w')"
  shows "w_mallocs w' = w_mallocs w"
proof -
  obtain r h w1 where rd: "eob_device_read_header crc dev zero_header w = Inr (r, h, w1)"
    using assms by (cases "eob_device_read_header crc dev zero_header w") (auto simp: eob_device_init_hdr_def)
  have "w_mallocs w' = w_mallocs w1"
    using assms unfolding eob_device_init_hdr_def rd Let_def bindr_simps prod.case
    by (simp only: split: if_split_asm) (auto elim!: bindr_InrE dest!: dev_write_mallocs split: if_split_asm)
  then show ?thesis using dev_read_mallocs [OF rd] by simp
qed

lemma open_file_bare:
  assumes B: "bare_disk crc w" and a: "plain_addr a" and fd: "0 < sys_open path"
  obtains self w' where "eob_device_open_file sys_open crc a path 0 w = Inr (EOB_OK, Some self, w')"
    and "d_addr self = a" and "blocks self 9 9" and "plain_disk crc w'" and "disk_header w' = fresh_header crc a (disk_header w)"
    and "\<forall>n. node_block 9 n (w_disk w') = node_block 9 n (w_disk w)"
proof -
  have c: "calm w" and len: "EOB_HDR_SIZE + 256 * 2 ^ 9 \<le> length (w_disk w)" using B by (simp_all add: bare_disk_def)
  have sh: "shifts_ok a" and p: "unat (hw_phys_blk_shift a) = 9" "unat (hw_virt_blk_shift a) = 9"
    using a by (simp_all add: shifts_ok_def plain_addr_def)
  obtain w1 buf where o: "open_self a path w = Inr (Inr (fresh_self a path buf), w1)" and lb: "length buf = 2 ^ unat (hw_phys_blk_shift a)"
    and io: "same_io w w1" by (rule open_self_ok [OF c shifts_phys [OF sh]])
  let ?self = "(fresh_self a path buf)\<lparr>d_fd := sys_open path\<rparr>"
  have s: "d_addr ?self = a" "d_fd ?self = sys_open path" "iov_base (d_phys_buff ?self) = Some buf"
    "iov_len (d_phys_buff ?self) = 2 ^ unat (hw_phys_blk_shift a)" by (simp_all add: fresh_self_def)
  have c1: "calm w1" by (rule same_ioD(1) [OF io c])
  let ?h = "fresh_header crc a (disk_header w)"
  obtain w' self' rest where i: "eob_device_init_hdr crc ?self 0 w1 = Inr (EOB_OK, self', w')"
    and h: "d_hdr self' = ?h" "d_addr self' = a" and rdy: "dev_ready (self', w')" and st: "hdr_state crc (w_disk w') = Some ?h"
    and d: "w_disk w' = overlay 0 (header_bytes ?h @ rest) (w_disk w)" and lr: "EOB_HDR_SIZE + length rest = 2 ^ 9"
    by (rule init_hdr_rewrites_frame [of w1 ?self buf 0 crc])
      (use s c1 lb sh fd len p same_ioD [OF io] disk_header_io [OF io] bare_not_good [OF B] in auto)
  have wf: "wf_header ?h" using wf_disk_header [of w] len by simp
  have "roomy w'" using init_hdr_mallocs [OF i] c1 by (simp add: calm_def roomy_def)
  then have c': "calm w'" using rdy by (simp add: dev_ready_def calm_def)
  have hd: "disk_header w' = ?h" using st by (simp add: hdr_state_Some_iff disk_header_def)
  have l: "length (header_bytes ?h @ rest) = 2 ^ 9" using lr by (simp add: header.length_enc [OF wf])
  have "plain_disk crc w'"
    using c' hd p len by (simp add: plain_disk_def d length_overlay l del: length_append)
  moreover have "node_block 9 n (w_disk w') = node_block 9 n (w_disk w)" for n
    unfolding node_block_def d by (rule bslice_overlay_after) (use l in \<open>simp add: node_off_def layout_simps\<close>)
  moreover have "blocks self' 9 9" using h p by (simp add: blocks_def)
  moreover have "eob_device_open_file sys_open crc a path 0 w = Inr (EOB_OK, Some self', w')"
    using o i fd by (simp add: eob_device_open_file_def finish_open_def)
  ultimately show thesis using h hd by (intro that [of self' w']) simp_all
qed

end
