(* ===== verification/Cli_Cluster.thy ===== *)
theory Cli_Cluster
  imports Cli_Mail Eob_Header_Bare
begin

text \<open>
  The command line tool as its users see it: a volume that holds a table of nodes and a mailbox
  for every node, and is or is not initialised. Each command is one run of \<open>main\<close> on the device that the runs before it left;
  the exit statuses and the printed bytes of any sequence of commands are those of the volume.
\<close>

section \<open>The abstract volume\<close>

record volume =
  vol_ready :: bool
  vol_count :: nat
  vol_table :: "nat \<Rightarrow> u32 option"
  vol_mail :: "nat \<Rightarrow> bytes option"

datatype command = C_init nat | C_deinit | C_add nat string | C_remove nat | C_send nat nat bytes | C_recv nat | C_dump

text \<open>A node in the table, and the whole table as \<open>iface dump\<close> prints it.\<close>

definition entry :: "u32 option \<Rightarrow> eob_node_data_phys" where
  "entry a = (case a of None \<Rightarrow> empty_node | Some ip \<Rightarrow> \<lparr>nd_flags = 1, nd_ip_addr = ip\<rparr>)"

definition volume_text :: "volume \<Rightarrow> string" where
  "volume_text V =
     ''Dump:'' @ [nl] @ ''version: 2'' @ [nl] @ ''magic: 965043040259'' @ [nl] @
     ''nodes_count: '' @ dec_digits (vol_count V) @ [nl] @ ''phys_blk_size: 512'' @ [nl] @
     ''virt_blk_size: 512'' @ [nl] @ ''header_size: 512'' @ [nl] @
     concat (map (\<lambda>i. dump_node i (entry (vol_table V i))) [0..<32]) @ [nl, nl]"

fun volume_step :: "(string \<Rightarrow> u32 option) \<Rightarrow> command \<Rightarrow> volume \<Rightarrow> (int \<times> bytes) \<times> volume" where
  "volume_step aton (C_init n) V = ((0, []), V\<lparr>vol_ready := True, vol_count := if n = 0 then 32 else n, vol_table := Map.empty\<rparr>)"
| "volume_step aton C_deinit V = ((0, []), V\<lparr>vol_ready := False, vol_count := 0, vol_table := Map.empty\<rparr>)"
| "volume_step aton (C_add n ip) V =
     (if vol_ready V \<and> n < vol_count V \<and> vol_table V n = None
      then ((0, []), V\<lparr>vol_table := (vol_table V)(n := aton ip)\<rparr>) else ((1, []), V))"
| "volume_step aton (C_remove n) V =
     (if vol_ready V then ((0, []), V\<lparr>vol_table := (vol_table V)(n := None)\<rparr>) else ((1, []), V))"
| "volume_step aton (C_send s d t) V = ((0, []), V\<lparr>vol_ready := True, vol_mail := (vol_mail V)(d \<mapsto> t)\<rparr>)"
| "volume_step aton (C_recv d) V = ((0, the (vol_mail V d) @ [10]), V\<lparr>vol_ready := True\<rparr>)"
| "volume_step aton C_dump V = (if vol_ready V then ((0, to_bytes (volume_text V)), V) else ((1, []), V))"

text \<open>
  What the user sees to: numbers in range, addresses that \<open>inet_aton\<close> understands, texts without
  a null byte that fit a packet, and receiving only what has been sent (the blocks of a new
  volume hold anything).
\<close>

definition text_ok :: "bytes \<Rightarrow> bool" where
  "text_ok t \<longleftrightarrow> 0 \<notin> set t \<and> Suc (length t) \<le> pkt_data_size (2 ^ 9)"

fun command_ok :: "(string \<Rightarrow> u32 option) \<Rightarrow> command \<Rightarrow> volume \<Rightarrow> bool" where
  "command_ok aton (C_init n) V = (n \<le> 32)"
| "command_ok aton C_deinit V = True"
| "command_ok aton (C_add n ip) V = (n < 2 ^ 31 \<and> aton ip \<noteq> None)"
| "command_ok aton (C_remove n) V = (n < 32)"
| "command_ok aton (C_send s d t) V = (s < 256 \<and> d < 256 \<and> text_ok t)"
| "command_ok aton (C_recv d) V = (vol_mail V d \<noteq> None)"
| "command_ok aton C_dump V = True"

primrec volume_run :: "(string \<Rightarrow> u32 option) \<Rightarrow> command list \<Rightarrow> volume \<Rightarrow> (int \<times> bytes) list \<times> volume" where
  "volume_run aton [] V = ([], V)"
| "volume_run aton (x # xs) V =
     (let (r, V) = volume_step aton x V; (rs, V) = volume_run aton xs V in (r # rs, V))"

primrec commands_ok :: "(string \<Rightarrow> u32 option) \<Rightarrow> command list \<Rightarrow> volume \<Rightarrow> bool" where
  "commands_ok aton [] V = True"
| "commands_ok aton (x # xs) V = (command_ok aton x V \<and> commands_ok aton xs (snd (volume_step aton x V)))"

section \<open>Runs of the tool\<close>

fun command_line :: "string \<Rightarrow> command \<Rightarrow> string list" where
  "command_line dev (C_init n) = [''iface'', ''init'', ''-c'', dec_digits n, ''-V'', ''512'', ''-P'', ''512'', dev]"
| "command_line dev C_deinit = [''iface'', ''deinit'', dev]"
| "command_line dev (C_add n ip) = [''iface'', ''add'', ''-n'', dec_digits n, ''-i'', ip, dev]"
| "command_line dev (C_remove n) = [''iface'', ''remove'', ''-n'', dec_digits n, dev]"
| "command_line dev (C_send s d t) = [''iface'', ''send'', ''-s'', dec_digits s, ''-d'', dec_digits d, ''-f'', ''-'', dev]"
| "command_line dev (C_recv d) = [''iface'', ''recv'', ''-s'', dec_digits d, ''-f'', ''-'', dev]"
| "command_line dev C_dump = [''iface'', ''dump'', dev]"

text \<open>The text of a message is on standard input.\<close>

fun command_env :: "command \<Rightarrow> cli_env \<Rightarrow> cli_env" where
  "command_env (C_send s d t) env = env\<lparr>e_read := (\<lambda>_ _. Some t)\<rparr>"
| "command_env _ env = env"

text \<open>A process starts with empty output and without the verbose flag; the device stays.\<close>

definition process :: "eob_world \<Rightarrow> cli" where
  "process w = \<lparr>cl_world = w, cl_out = [], cl_err = [], cl_verbose = B_FALSE\<rparr>"

definition run_command :: "cli_env \<Rightarrow> string \<Rightarrow> command \<Rightarrow> eob_world \<Rightarrow> fault + (int \<times> bytes) \<times> eob_world" where
  "run_command env dev x w =
     bindr (main (command_env x env) (command_line dev x) (process w)) (\<lambda>(status, c). Inr ((status, cl_out c), cl_world c))"

primrec run_commands :: "cli_env \<Rightarrow> string \<Rightarrow> command list \<Rightarrow> eob_world \<Rightarrow> fault + (int \<times> bytes) list \<times> eob_world" where
  "run_commands env dev [] w = Inr ([], w)"
| "run_commands env dev (x # xs) w =
     bindr (run_command env dev x w) (\<lambda>(r, w). bindr (run_commands env dev xs w) (\<lambda>(rs, w). Inr (r # rs, w)))"

section \<open>The device of a volume\<close>

text \<open>The message for every node that has been sent one; the sender does not matter.\<close>

definition holds_mail :: "crc_fn \<Rightarrow> (nat \<Rightarrow> bytes option) \<Rightarrow> eob_world \<Rightarrow> bool" where
  "holds_mail crc M w \<longleftrightarrow> (\<forall>d t. M d = Some t \<longrightarrow> d < 256 \<and> text_ok t \<and>
     (\<exists>s. node_block 9 (word_of_nat d) (w_disk w) = text_block crc (node_addr s) t))"

definition holds_volume :: "crc_fn \<Rightarrow> volume \<Rightarrow> eob_world \<Rightarrow> bool" where
  "holds_volume crc V w \<longleftrightarrow> vol_count V \<le> 32 \<and>
     (if vol_ready V then plain_disk crc w \<and> unat (h_nodes_count (disk_header w)) = vol_count V
      else bare_disk crc w \<and> vol_count V = 0) \<and>
     h_nodes (disk_header w) = map (\<lambda>i. entry (vol_table V i)) [0..<32] \<and> holds_mail crc (vol_mail V) w"

lemma holds_volume_io: "holds_volume crc V w \<Longrightarrow> same_io w w' \<Longrightarrow> holds_volume crc V w'"
  using plain_disk_io [of crc w w'] bare_disk_io [of crc w w'] same_ioD(2) [of w w'] disk_header_io [of w w'] by (simp add: holds_volume_def holds_mail_def)

lemma holds_mail_blocks:
  "holds_mail crc M w \<Longrightarrow> (\<And>n. node_block 9 n (w_disk w') = node_block 9 n (w_disk w)) \<Longrightarrow> holds_mail crc M w'"
  by (simp add: holds_mail_def)

lemma holds_mail_sent:
  assumes M: "holds_mail crc M w" and len: "EOB_HDR_SIZE + 256 * 2 ^ 9 \<le> length (w_disk w)" and d: "d < 256" and t: "text_ok t"
    and w': "w_disk w' = overlay (node_off 9 (word_of_nat d)) (text_block crc (node_addr s) t) (w_disk w)"
  shows "holds_mail crc (M(d \<mapsto> t)) w'"
proof -
  have l: "length (text_block crc (node_addr s) t) = 2 ^ 9"
    using t plain_addr_default by (intro length_text_block) (auto simp: text_ok_def plain_addr_def)
  have same: "node_block 9 (word_of_nat d) (w_disk w') = text_block crc (node_addr s) t"
    unfolding w' by (rule node_block_overlay_same [OF l])
  have other: "node_block 9 (word_of_nat e) (w_disk w') = node_block 9 (word_of_nat e) (w_disk w)" if "e < 256" "e \<noteq> d" for e
  proof -
    have "(word_of_nat e :: u8) \<noteq> word_of_nat d"
      using that d by (auto simp: word_of_nat_eq_iff take_bit_nat_eq_self)
    then show ?thesis unfolding w' by (rule node_block_overlay_other) (use l cluster_room [OF len] in simp_all)
  qed
  show ?thesis using M d t same other unfolding holds_mail_def by (simp add: fun_upd_def) metis
qed

lemma entry_present [simp]: "EOB_NODE_IS_PRESENT (entry a) \<longleftrightarrow> a \<noteq> None"
  by (cases a) (simp_all add: entry_def empty_node_def EOB_NODE_IS_PRESENT_def EOB_NODE_PRESENT_def)

lemma entry_simps [simp]: "entry None = empty_node" "entry (Some ip) = \<lparr>nd_flags = 1, nd_ip_addr = ip\<rparr>"
  by (simp_all add: entry_def)

lemma table_update: "n < 32 \<Longrightarrow> (map (\<lambda>i. entry (T i)) [0..<32])[n := entry a] = map (\<lambda>i. entry ((T(n := a)) i)) [0..<32]"
  by (intro nth_equalityI) (simp_all add: nth_list_update)

section \<open>One run\<close>

lemma getopt_init:
  "operand dev \<Longrightarrow> getopt_all ''vF:V:P:c:'' [''iface'', ''init'', ''-c'', n, ''-V'', v, ''-P'', p, dev] =
    ([Opt CHR ''c'' (Some n), Opt CHR ''V'' (Some v), Opt CHR ''P'' (Some p)], [''init'', dev])"
  using getopt_dev [of dev "''vF:V:P:c:''"] by (simp add: getopt_all_def)

lemma getopt_deinit: "operand dev \<Longrightarrow> getopt_all ''v'' [''iface'', ''deinit'', dev] = ([], [''deinit'', dev])"
  using getopt_dev [of dev "''v''"] by (simp add: getopt_all_def)

lemma getopt_remove:
  "operand dev \<Longrightarrow> getopt_all ''vn:'' [''iface'', ''remove'', ''-n'', n, dev] = ([Opt CHR ''n'' (Some n)], [''remove'', dev])"
  using getopt_dev [of dev "''vn:''"] by (simp add: getopt_all_def)

lemma getopt_dump: "operand dev \<Longrightarrow> getopt_all ''vj'' [''iface'', ''dump'', dev] = ([], [''dump'', dev])"
  using getopt_dev [of dev "''vj''"] by (simp add: getopt_all_def)

lemma find_remove: "find_command ''remove'' = Some \<lparr>cmd_name = ''remove'', cmd_fn = iface_do_remove, cmd_usage = HELP_REMOVE\<rparr>"
  and find_deinit: "find_command ''deinit'' = Some \<lparr>cmd_name = ''deinit'', cmd_fn = iface_do_deinit, cmd_usage = HELP_DEINIT\<rparr>"
  and find_dump: "find_command ''dump'' = Some \<lparr>cmd_name = ''dump'', cmd_fn = iface_do_dump, cmd_usage = HELP_DUMP\<rparr>"
  by (simp_all add: find_command_def iface_command_table_def)

text \<open>From the call of the library to the exit status, for each command.\<close>

lemmas handler_defs = main_def with_opts_def set_verbose_def no_opts_def trace_rv_def trace_again_def atoi_or_def
  find_add find_init find_send find_recv find_remove find_deinit find_dump run_command_def process_def print_def

lemma atoi_512: "c_atoi ''512'' = Inr 512"
  by code_simp

lemma run_init:
  assumes "0 < e_open env dev" "operand dev" "n < 2 ^ 31"
    and "eob_hdr_init (e_crc env) (e_open env dev) (word_of_nat n) 512 512 0 w = Inr (0, w')"
  shows "run_command env dev (C_init n) w = Inr ((0, []), w')"
  using assms atoi_dec [OF assms(3)] getopt_init [OF assms(2), of "dec_digits n" "''512''" "''512''"] atoi_512
  by (simp add: handler_defs iface_do_init_def init_opt_def iface_hdr_init_def)

lemma run_deinit:
  assumes "0 < e_open env dev" "operand dev" and "eob_hdr_deinit (e_open env dev) w = Inr (0, w')"
  shows "run_command env dev C_deinit w = Inr ((0, []), w')"
  using assms getopt_deinit [OF assms(2)] by (simp add: handler_defs iface_do_deinit_def iface_hdr_deinit_def)

lemma run_add:
  assumes "0 < e_open env dev" "operand dev" "n < 2 ^ 31" "e_aton env ip = Some a" "rv \<in> {0, EOB_INVAL, EOB_CHKSUM}"
    and "eob_hdr_add_device (e_crc env) (e_open env dev) (word_of_nat n) \<lparr>nd_flags = 1, nd_ip_addr = a\<rparr> 0 w = Inr (rv, w')"
  shows "run_command env dev (C_add n ip) w = Inr ((of_bool (rv \<noteq> 0), []), w')"
  using assms atoi_dec [OF assms(3)] getopt_add [OF assms(2), of "dec_digits n" ip]
  by (auto simp: handler_defs iface_do_add_def add_opt_def iface_hdr_add_def eob_strerror_def)

lemma run_remove:
  assumes "0 < e_open env dev" "operand dev" "n < 2 ^ 31" "rv \<in> {0, EOB_CHKSUM}"
    and "eob_hdr_rem_device (e_crc env) (e_open env dev) (word_of_nat n) w = Inr (rv, w')"
  shows "run_command env dev (C_remove n) w = Inr ((of_bool (rv \<noteq> 0), []), w')"
  using assms atoi_dec [OF assms(3)] getopt_remove [OF assms(2), of "dec_digits n"]
  by (auto simp: handler_defs iface_do_remove_def remove_opt_def iface_hdr_rem_def eob_strerror_def)

lemma run_dump:
  assumes "0 < e_open env dev" "operand dev"
  shows "eob_hdr_dump (e_crc env) (e_open env dev) w = Inr (0, Some text, w') \<Longrightarrow>
      run_command env dev C_dump w = Inr ((0, to_bytes (''Dump:'' @ [nl] @ text @ [nl])), w')"
    and "eob_hdr_dump (e_crc env) (e_open env dev) w = Inr (EOB_CHKSUM, None, w') \<Longrightarrow> run_command env dev C_dump w = Inr ((1, []), w')"
  using assms getopt_dump [OF assms(2)]
  by (simp_all add: handler_defs iface_do_dump_def iface_hdr_dump_def eob_strerror_def)

section \<open>One step\<close>

lemma node_index_small: "n < 2 ^ 31 \<Longrightarrow> node_index (word_of_nat n) = n"
  by (simp add: node_index_def unat_scast_nonneg signed_of_nat signed_take_bit_int_eq_self unsigned_of_nat take_bit_nat_eq_self)

lemma header_text_volume:
  assumes "holds_volume crc V w" and "vol_ready V"
  shows "''Dump:'' @ [nl] @ header_text (disk_header w) @ [nl] = volume_text V"
proof -
  let ?h = "disk_header w"
  have "h_version ?h = EOB_HDR_VERSION" "h_magic ?h = EOB_HDR_MAGIC" "h_phys_blk_size ?h = 512" "h_virt_blk_size ?h = 512"
    using assms by (simp_all add: holds_volume_def plain_disk_def good_header_def)
  moreover have "map (\<lambda>(i, n). dump_node i n) (enumerate 0 (map (\<lambda>i. entry (vol_table V i)) [0..<32])) =
      map (\<lambda>i. dump_node i (entry (vol_table V i))) [0..<32]"
    by (intro nth_equalityI) (simp_all add: nth_enumerate_eq)
  moreover have "unat (h_nodes_count ?h) = vol_count V" "h_nodes ?h = map (\<lambda>i. entry (vol_table V i)) [0..<32]"
    using assms by (simp_all add: holds_volume_def)
  ultimately show ?thesis by (simp add: header_text_def volume_text_def layout_simps dec_digits.simps char_of_def bit_0)
qed

lemma init_holds:
  assumes c: "calm w" and len: "EOB_HDR_SIZE + 256 * 2 ^ 9 \<le> length (w_disk w)" and M: "holds_mail (e_crc env) (vol_mail V) w"
    and fd: "0 < e_open env dev" "operand dev" and n: "n \<le> 32"
  shows "\<exists>w'. run_command env dev (C_init n) w = Inr (fst (volume_step (e_aton env) (C_init n) V), w') \<and>
    holds_volume (e_crc env) (snd (volume_step (e_aton env) (C_init n) V)) w'"
proof -
  let ?h = "init_header (e_crc env) (word_of_nat n) 512 512"
  note sz = demo_sizes
  have q: "quiet w" "roomy w" using c by (simp_all add: calm_def)
  from hdr_init_written [OF q(1) fd(1) sz, of "e_crc env" "word_of_nat n" 0] obtain w' where
    w': "eob_hdr_init (e_crc env) (e_open env dev) (word_of_nat n) 512 512 0 w = Inr (EOB_OK, w')" "fd_store.written (e_open env dev) ?h w w'" by blast
  have h: "h_phys_blk_size ?h = 2 ^ 9" "h_virt_blk_size ?h = 2 ^ 9" "h_nodes ?h = map (\<lambda>i. entry None) [0..<32]"
    by (simp_all add: init_header_def dflt_def zero_header_def layout_simps map_replicate_const)
  have "(word_of_nat n :: u32) = 0 \<longleftrightarrow> n = 0" using n by (auto simp: word_of_nat_eq_0_iff dest: dvd_imp_le)
  then have cnt: "unat (h_nodes_count ?h) = (if n = 0 then 32 else n)"
    using n by (simp add: init_header_def dflt_def layout_simps unat_scast_nonneg signed_of_nat signed_take_bit_int_eq_self)
  note plain = header_written_plain [OF w'(2) len hdr_init_roomy [OF w'(1) q(2)] init_header_good init_header_fits [OF sz] h(1,2)]
  have "holds_volume (e_crc env) (snd (volume_step (e_aton env) (C_init n) V)) w'"
    using plain(1,2) h(3) cnt n holds_mail_blocks [OF M plain(3)] by (simp add: holds_volume_def)
  then show ?thesis using run_init [OF fd _ ] w'(1) n by auto
qed

lemma holds_calm:
  assumes "holds_volume crc V w"
  shows "calm w" and "EOB_HDR_SIZE + 256 * 2 ^ 9 \<le> length (w_disk w)" and "holds_mail crc (vol_mail V) w"
  using assms by (auto simp: holds_volume_def plain_disk_def bare_disk_def split: if_splits)

lemma deinit_holds:
  assumes H: "holds_volume (e_crc env) V w" and fd: "0 < e_open env dev" "operand dev"
  shows "\<exists>w'. run_command env dev C_deinit w = Inr (fst (volume_step aton C_deinit V), w') \<and>
    holds_volume (e_crc env) (snd (volume_step aton C_deinit V)) w'"
proof -
  obtain w' where w': "eob_hdr_deinit (e_open env dev) w = Inr (EOB_OK, w')" "bare_disk (e_crc env) w'" "disk_header w' = zero_header"
    and fr: "\<forall>n. node_block 9 n (w_disk w') = node_block 9 n (w_disk w)"
    by (rule deinit_bare [OF holds_calm(1,2) [OF H], where fd = "e_open env dev" and crc = "e_crc env"])
  have "h_nodes zero_header = map (\<lambda>i. entry None) [0..<32]" by (simp add: zero_header_def layout_simps map_replicate_const)
  then have "holds_volume (e_crc env) (snd (volume_step aton C_deinit V)) w'"
    using w'(2,3) holds_mail_blocks [OF holds_calm(3) [OF H] spec [OF fr]] by (simp add: holds_volume_def)
  then show ?thesis using run_deinit [OF fd] w'(1) by auto
qed

text \<open>What an initialised volume means for the header.\<close>

lemma holds_ready:
  assumes "holds_volume crc V w" and "vol_ready V"
  shows "plain_disk crc w" and "unat (h_nodes_count (disk_header w)) = vol_count V" and "vol_count V \<le> 32"
    and "h_nodes (disk_header w) = map (\<lambda>i. entry (vol_table V i)) [0..<32]"
  using assms by (simp_all add: holds_volume_def)

lemma holds_bare: "holds_volume crc V w \<Longrightarrow> \<not> vol_ready V \<Longrightarrow> bare_disk crc w"
  by (simp add: holds_volume_def)

lemma node_written_holds:
  assumes H: "holds_volume crc V w" "vol_ready V" and W: "fd_store.written fd (with_node crc n (entry a) (disk_header w)) w w'"
    and r: "roomy w'" and n: "n < 32"
  shows "holds_volume crc (V\<lparr>vol_table := (vol_table V)(n := a)\<rparr>) w'"
proof -
  note R = holds_ready [OF H]
  note plain = node_written_plain [OF R(1) W r]
  show ?thesis
    using plain(1,2) R H(2) table_update [OF n, of "vol_table V" a] holds_mail_blocks [OF holds_calm(3) [OF H(1)] plain(3)]
    by (simp add: holds_volume_def)
qed

lemma add_holds:
  assumes H: "holds_volume (e_crc env) V w" and fd: "0 < e_open env dev" "operand dev" and n: "n < 2 ^ 31" and ip: "e_aton env ip = Some a"
  shows "\<exists>w'. run_command env dev (C_add n ip) w = Inr (fst (volume_step (e_aton env) (C_add n ip) V), w') \<and>
    holds_volume (e_crc env) (snd (volume_step (e_aton env) (C_add n ip) V)) w'"
proof (cases "vol_ready V")
  case ready: True
  note R = holds_ready [OF H ready]
  let ?d = "\<lparr>nd_flags = 1, nd_ip_addr = a\<rparr>"
  have al: "add_allowed (word_of_nat n) 0 (disk_header w) \<longleftrightarrow> n < vol_count V \<and> vol_table V n = None"
    using R by (auto simp: add_allowed_def node_index_small [OF n])
  note run = run_add [OF fd n ip]
  show ?thesis
  proof (cases "add_allowed (word_of_nat n) 0 (disk_header w)")
    case True
    have n32: "n < 32" using True al R(3) by simp
    from hdr_add_written [OF plain_state(3) [OF R(1)] fd(1) plain_state(1,2) [OF R(1)] _ True, of ?d] n32 obtain w' where
      w': "eob_hdr_add_device (e_crc env) (e_open env dev) (word_of_nat n) ?d 0 w = Inr (EOB_OK, w')"
      "fd_store.written (e_open env dev) (with_node (e_crc env) n ?d (disk_header w)) w w'"
      by (auto simp: node_index_small [OF n] layout_simps)
    then have "holds_volume (e_crc env) (V\<lparr>vol_table := (vol_table V)(n := Some a)\<rparr>) w'"
      by (intro node_written_holds [OF H ready _ hdr_add_roomy [OF w'(1) plain_state(4) [OF R(1)]] n32]) simp
    then show ?thesis using run [of EOB_OK w w'] w'(1) True al ready ip by auto
  next
    case False
    obtain w' where w': "eob_hdr_add_device (e_crc env) (e_open env dev) (word_of_nat n) ?d 0 w = Inr (EOB_INVAL, w')" "same_io w w'"
      by (rule plain_add_refused [OF R(1) fd(1) False]) (use R in \<open>auto simp: node_index_small [OF n] layout_simps\<close>)
    then show ?thesis using run [of EOB_INVAL w w'] holds_volume_io [OF H w'(2)] False al by auto
  qed
next
  case False
  obtain w' where w': "eob_hdr_add_device (e_crc env) (e_open env dev) (word_of_nat n) \<lparr>nd_flags = 1, nd_ip_addr = a\<rparr> 0 w = Inr (EOB_CHKSUM, w')"
    "same_io w w'" by (rule bare_add [OF holds_bare [OF H False] fd(1)])
  then show ?thesis using run_add [OF fd n ip, of EOB_CHKSUM w w'] holds_volume_io [OF H w'(2)] False by auto
qed

lemma remove_holds:
  assumes H: "holds_volume (e_crc env) V w" and fd: "0 < e_open env dev" "operand dev" and n: "n < 32"
  shows "\<exists>w'. run_command env dev (C_remove n) w = Inr (fst (volume_step aton (C_remove n) V), w') \<and>
    holds_volume (e_crc env) (snd (volume_step aton (C_remove n) V)) w'"
proof (cases "vol_ready V")
  case ready: True
  note R = holds_ready [OF H ready]
  have n31: "n < 2 ^ 31" using n by simp
  have i: "node_index (word_of_nat n) < MAX_CLUSTER_SIZE" using n by (simp add: node_index_small [OF n31] layout_simps)
  have p: "EOB_NODE_IS_PRESENT (h_nodes (disk_header w) ! node_index (word_of_nat n)) \<longleftrightarrow> vol_table V n \<noteq> None"
    using n by (simp add: R(4) node_index_small [OF n31])
  note run = run_remove [OF fd n31, of EOB_OK w]
  show ?thesis
  proof (cases "vol_table V n")
    case None
    obtain w' where w': "eob_hdr_rem_device (e_crc env) (e_open env dev) (word_of_nat n) w = Inr (EOB_OK, w')" "same_io w w'"
      by (rule plain_rem_absent [OF R(1) fd(1) i]) (use p None in auto)
    have "(vol_table V)(n := None) = vol_table V" using None by auto
    then show ?thesis using run w'(1) holds_volume_io [OF H w'(2)] ready by auto
  next
    case (Some ip)
    from hdr_rem_written [OF plain_state(3) [OF R(1)] fd(1) plain_state(1,2) [OF R(1)] i] p Some obtain w' where
      w': "eob_hdr_rem_device (e_crc env) (e_open env dev) (word_of_nat n) w = Inr (EOB_OK, w')"
      "fd_store.written (e_open env dev) (with_node (e_crc env) n empty_node (disk_header w)) w w'"
      by (auto simp: node_index_small [OF n31])
    then have "holds_volume (e_crc env) (V\<lparr>vol_table := (vol_table V)(n := None)\<rparr>) w'"
      by (intro node_written_holds [OF H ready _ hdr_rem_roomy [OF w'(1) plain_state(4) [OF R(1)]] n]) simp
    then show ?thesis using run w'(1) ready by auto
  qed
next
  case False
  have n31: "n < 2 ^ 31" using n by simp
  obtain w' where w': "eob_hdr_rem_device (e_crc env) (e_open env dev) (word_of_nat n) w = Inr (EOB_CHKSUM, w')"
    "same_io w w'" by (rule bare_rem [OF holds_bare [OF H False] fd(1)])
  then show ?thesis using run_remove [OF fd n31, of EOB_CHKSUM w w'] holds_volume_io [OF H w'(2)] False by auto
qed

lemma dump_holds:
  assumes H: "holds_volume (e_crc env) V w" and fd: "0 < e_open env dev" "operand dev"
  shows "\<exists>w'. run_command env dev C_dump w = Inr (fst (volume_step aton C_dump V), w') \<and>
    holds_volume (e_crc env) (snd (volume_step aton C_dump V)) w'"
proof (cases "vol_ready V")
  case True
  obtain w' where w': "eob_hdr_dump (e_crc env) (e_open env dev) w = Inr (0, Some (header_text (disk_header w)), w')" "same_io w w'"
    by (rule hdr_dump_plain [OF holds_ready(1) [OF H True] fd(1)])
  show ?thesis using run_dump(1) [OF fd w'(1)] holds_volume_io [OF H w'(2)] True unfolding header_text_volume [OF H True] by auto
next
  case False
  obtain w' where w': "eob_hdr_dump (e_crc env) (e_open env dev) w = Inr (EOB_CHKSUM, None, w')" "same_io w w'"
    by (rule bare_dump [OF holds_bare [OF H False] fd(1)])
  show ?thesis using run_dump(2) [OF fd w'(1)] holds_volume_io [OF H w'(2)] False by auto
qed

text \<open>Opening for a message writes a header where there is none.\<close>

lemma open_dev_holds:
  assumes H: "holds_volume (e_crc env) V w" and fd: "0 < e_open env dev" "dev \<noteq> ''-''"
  obtains self w1 where "open_dev env std name (node_addr s) dev B_FALSE w = Inr (Inr self, w1)"
    and "d_addr self = node_addr s" and "blocks self 9 9" and "holds_volume (e_crc env) (V\<lparr>vol_ready := True\<rparr>) w1"
proof (cases "vol_ready V")
  case True
  obtain self w1 where o: "open_dev env std name (node_addr s) dev B_FALSE w = Inr (Inr self, w1)" "same_io w w1"
    "d_addr self = node_addr s" "blocks self 9 9" by (rule open_dev_ok [OF holds_ready(1) [OF H True] fd])
  have "V\<lparr>vol_ready := True\<rparr> = V" using True by simp
  then show thesis using o holds_volume_io [OF H o(2)] by (intro that [of self w1]) simp_all
next
  case False
  obtain self w1 where o: "eob_device_open_file (e_open env) (e_crc env) (node_addr s) dev 0 w = Inr (EOB_OK, Some self, w1)"
    "d_addr self = node_addr s" "blocks self 9 9" "plain_disk (e_crc env) w1"
    "disk_header w1 = fresh_header (e_crc env) (node_addr s) (disk_header w)"
    and fr: "\<forall>n. node_block 9 n (w_disk w1) = node_block 9 n (w_disk w)"
    by (rule open_file_bare [where sys_open = "e_open env", OF holds_bare [OF H False] plain_addr_default fd(1)])
  have "hw_nodes_count (node_addr s) = 0" by (simp add: EOB_HW_ADDR_INIT_DEFAULT_def EOB_HW_ADDR_INIT_def)
  then have "holds_volume (e_crc env) (V\<lparr>vol_ready := True\<rparr>) w1"
    using H False o(4,5) holds_mail_blocks [OF holds_calm(3) [OF H] spec [OF fr]] by (simp add: holds_volume_def)
  then show thesis using o fd(2) by (intro that [of self w1]) (simp_all add: open_dev_def)
qed

lemma word_of_byte: "n < 256 \<Longrightarrow> uint (word_of_nat n :: u8) = int n"
  by (simp add: unsigned_of_nat take_bit_nat_eq_self)

lemma send_holds:
  assumes H: "holds_volume (e_crc env) V w" and fd: "0 < e_open env dev" "dev \<noteq> ''-''" "operand dev"
    and n: "s < 256" "d < 256" and t: "text_ok t"
  shows "\<exists>w'. run_command env dev (C_send s d t) w = Inr (fst (volume_step aton (C_send s d t) V), w') \<and>
    holds_volume (e_crc env) (snd (volume_step aton (C_send s d t) V)) w'"
proof -
  let ?env = "command_env (C_send s d t) env" and ?c = "process w"
  have env: "e_crc ?env = e_crc env" "e_open ?env = e_open env" "e_read ?env 0 512 = Some t" by simp_all
  have t': "0 \<notin> set t" "Suc (length t) \<le> pkt_data_size (2 ^ 9)" using t by (simp_all add: text_ok_def)
  have at: "c_atoi (dec_digits s) = Inr (int s)" "c_atoi (dec_digits d) = Inr (int d)" using n by (simp_all add: atoi_dec)
  have H': "holds_volume (e_crc ?env) V (cl_world ?c)" and fd': "0 < e_open ?env dev" using H fd(1) by (simp_all add: process_def)
  obtain self w1 where o: "open_dev ?env 1 ''stdout'' (node_addr (word_of_nat s)) dev B_FALSE (cl_world ?c) = Inr (Inr self, w1)"
    "d_addr self = node_addr (word_of_nat s)" "blocks self 9 9" and H1: "holds_volume (e_crc ?env) (V\<lparr>vol_ready := True\<rparr>) w1"
    by (rule open_dev_holds [OF H' fd' fd(2)])
  have P1: "plain_disk (e_crc ?env) w1" by (rule holds_ready(1) [OF H1]) simp
  obtain w' where w': "iface_send ?env (Some ''-'') dev B_FALSE (uint (word_of_nat s :: u8)) (uint (word_of_nat d :: u8)) 0 ?c = Inr (0, ?c\<lparr>cl_world := w'\<rparr>)"
    "plain_disk (e_crc ?env) w'"
    and d: "w_disk w' = overlay (node_off 9 (word_of_nat d)) (text_block (e_crc ?env) (node_addr (word_of_nat s)) t) (w_disk w1)"
    by (rule iface_send_opened [OF o P1 env(3) t', of "word_of_nat d"])
  have run: "run_command env dev (C_send s d t) w = Inr ((0, []), w')"
    using w'(1) at getopt_send [OF fd(3), of "dec_digits s" "dec_digits d"]
    unfolding word_of_byte [OF n(1)] word_of_byte [OF n(2)] by (simp add: handler_defs iface_do_send_def send_opt_def)
  have "disk_header w' = disk_header w1"
    unfolding disk_header_def d by (subst bslice_overlay_before) (use P1 in \<open>simp_all add: node_off_def plain_disk_def\<close>)
  moreover have "holds_mail (e_crc ?env) ((vol_mail V)(d \<mapsto> t)) w'"
    using holds_mail_sent [OF holds_calm(3,2) [OF H1] n(2) t d] by simp
  ultimately show ?thesis using run w'(2) H1 by (simp add: holds_volume_def)
qed

lemma recv_holds:
  assumes H: "holds_volume (e_crc env) V w" and fd: "0 < e_open env dev" "dev \<noteq> ''-''" "operand dev" and t: "vol_mail V d = Some t"
  shows "\<exists>w'. run_command env dev (C_recv d) w = Inr (fst (volume_step aton (C_recv d) V), w') \<and>
    holds_volume (e_crc env) (snd (volume_step aton (C_recv d) V)) w'"
proof -
  let ?c = "process w"
  have H': "holds_volume (e_crc env) V (cl_world ?c)" and v: "cl_verbose ?c = B_FALSE" using H by (simp_all add: process_def)
  obtain self w1 where o: "open_dev env 0 ''stdin'' (node_addr (word_of_nat d)) dev B_FALSE (cl_world ?c) = Inr (Inr self, w1)"
    "d_addr self = node_addr (word_of_nat d)" "blocks self 9 9" and H1: "holds_volume (e_crc env) (V\<lparr>vol_ready := True\<rparr>) w1"
    by (rule open_dev_holds [OF H' fd(1,2)])
  have P1: "plain_disk (e_crc env) w1" by (rule holds_ready(1) [OF H1]) simp
  obtain s where n: "d < 256" and t': "0 \<notin> set t" "Suc (length t) \<le> pkt_data_size (2 ^ 9)"
    and b: "node_block 9 (word_of_nat d) (w_disk w1) = text_block (e_crc env) (node_addr s) t"
    using holds_calm(3) [OF H1] t by (auto simp: holds_mail_def text_ok_def)
  obtain w' where w': "iface_recv env (Some ''-'') dev B_FALSE (uint (word_of_nat d :: u8)) 0 ?c = Inr (0, print (t @ [10]) (?c\<lparr>cl_world := w'\<rparr>))"
    "same_io w1 w'" by (rule iface_recv_opened [OF o P1 v b t'])
  have "c_atoi (dec_digits d) = Inr (int d)" using n by (simp add: atoi_dec)
  then have "run_command env dev (C_recv d) w = Inr ((0, t @ [10]), w')"
    using w'(1) getopt_recv [OF fd(3), of "dec_digits d"] unfolding word_of_byte [OF n]
    by (simp add: handler_defs iface_do_recv_def recv_opt_def)
  then show ?thesis using holds_volume_io [OF H1 w'(2)] t by simp
qed

lemma step_holds:
  assumes H: "holds_volume (e_crc env) V w" and fd: "0 < e_open env dev" "dev \<noteq> ''-''" "operand dev" and ok: "command_ok (e_aton env) x V"
  shows "\<exists>w'. run_command env dev x w = Inr (fst (volume_step (e_aton env) x V), w') \<and>
    holds_volume (e_crc env) (snd (volume_step (e_aton env) x V)) w'"
proof (cases x)
  case (C_init n)
  then show ?thesis using init_holds [OF holds_calm [OF H] fd(1,3), of n] ok by simp
next
  case C_deinit
  then show ?thesis using deinit_holds [OF H fd(1,3)] by simp
next
  case (C_add n ip)
  then show ?thesis using add_holds [OF H fd(1,3), of n ip] ok by auto
next
  case (C_remove n)
  then show ?thesis using remove_holds [OF H fd(1,3), of n] ok by simp
next
  case (C_send s d t)
  then show ?thesis using send_holds [OF H fd, of s d t] ok by simp
next
  case (C_recv d)
  then show ?thesis using recv_holds [OF H fd, of d] ok by auto
next
  case C_dump
  then show ?thesis using dump_holds [OF H fd(1,3)] by blast
qed

section \<open>Every sequence of runs\<close>

lemma commands_hold:
  assumes "0 < e_open env dev" "dev \<noteq> ''-''" "operand dev"
  shows "holds_volume (e_crc env) V w \<Longrightarrow> commands_ok (e_aton env) xs V \<Longrightarrow>
    \<exists>w'. run_commands env dev xs w = Inr (fst (volume_run (e_aton env) xs V), w')"
proof (induction xs arbitrary: V w)
  case (Cons x xs)
  let ?V = "snd (volume_step (e_aton env) x V)"
  obtain w1 where w1: "run_command env dev x w = Inr (fst (volume_step (e_aton env) x V), w1)" "holds_volume (e_crc env) ?V w1"
    using step_holds [OF Cons.prems(1) assms] Cons.prems(2) by auto
  obtain w2 where "run_commands env dev xs w1 = Inr (fst (volume_run (e_aton env) xs ?V), w2)"
    using Cons.IH [OF w1(2)] Cons.prems(2) by auto
  then show ?case using w1(1) by (auto simp: split_beta)
qed simp

definition empty_volume :: volume where
  "empty_volume = \<lparr>vol_ready = False, vol_count = 0, vol_table = Map.empty, vol_mail = Map.empty\<rparr>"

text \<open>Every device holds the empty volume once it is initialised, a zeroed one before that.\<close>

lemma zeroed_holds:
  assumes "calm w" "EOB_HDR_SIZE + 256 * 2 ^ 9 \<le> length (w_disk w)" "disk_header w = zero_header"
  shows "holds_volume crc empty_volume w"
proof -
  have "h_magic zero_header \<noteq> EOB_HDR_MAGIC" "h_nodes zero_header = map (\<lambda>i. entry None) [0..<32]"
    by (simp_all add: zero_header_def layout_simps map_replicate_const)
  then show ?thesis
    using assms by (simp add: holds_volume_def holds_mail_def empty_volume_def bare_disk_def read_code_def good_header_def)
qed

lemma zeroed_header:
  assumes "bslice 0 EOB_HDR_SIZE (w_disk w) = replicate EOB_HDR_SIZE 0"
  shows "disk_header w = zero_header"
proof -
  have "replicate EOB_HDR_SIZE 0 = header_bytes zero_header" by code_simp
  then show ?thesis using assms by (simp add: disk_header_def header.dec_enc)
qed

text \<open>
  C3. The tool implements a volume. On a device with room for the header and 256 blocks, which
  is either zeroed or initialised by the first command, every sequence of \<open>init\<close> (with 512-byte
  blocks), \<open>deinit\<close>, \<open>add\<close>, \<open>remove\<close>, \<open>send\<close>, \<open>recv\<close> and \<open>dump\<close> commands prints
  the bytes and ends with the statuses of the abstract volume: a table of nodes and a mailbox for
  every node. A free entry is added, an occupied one or one out of the node count is refused with
  status 1, \<open>recv\<close> prints the last text sent to the node, \<open>dump\<close> shows the table, and neither
  the mail nor the table disturbs the other. Without a header the table commands end with status
  1, and the first message makes a header that admits no node.
\<close>

theorem iface_runs_refine_volume:
  assumes w: "calm w" "EOB_HDR_SIZE + 256 * 2 ^ 9 \<le> length (w_disk w)"
    and start: "(\<exists>n ys. xs = C_init n # ys) \<or> bslice 0 EOB_HDR_SIZE (w_disk w) = replicate EOB_HDR_SIZE 0"
    and fd: "0 < e_open env dev" "dev \<noteq> ''-''" "operand dev"
    and ok: "commands_ok (e_aton env) xs empty_volume"
  shows "\<exists>w'. run_commands env dev xs w = Inr (fst (volume_run (e_aton env) xs empty_volume), w')"
  using start
proof
  assume "\<exists>n ys. xs = C_init n # ys"
  then obtain n ys where xs: "xs = C_init n # ys" by blast
  let ?V = "snd (volume_step (e_aton env) (C_init n) empty_volume)"
  have M: "holds_mail (e_crc env) (vol_mail empty_volume) w" by (simp add: holds_mail_def empty_volume_def)
  obtain w1 where w1: "run_command env dev (C_init n) w = Inr (fst (volume_step (e_aton env) (C_init n) empty_volume), w1)"
    "holds_volume (e_crc env) ?V w1"
    using init_holds [OF w M fd(1,3), of n] ok xs by auto
  obtain w2 where "run_commands env dev ys w1 = Inr (fst (volume_run (e_aton env) ys ?V), w2)"
    using commands_hold [OF fd w1(2)] ok xs by auto
  then show ?thesis using w1(1) xs by (auto simp: split_beta)
next
  assume "bslice 0 EOB_HDR_SIZE (w_disk w) = replicate EOB_HDR_SIZE 0"
  then show ?thesis using commands_hold [OF fd zeroed_holds [OF w zeroed_header] ok] by blast
qed

text \<open>The session of the examples in the manual page, \<open>src/doc/man/ru/man8/iface.8\<close>, and one dump after it.\<close>

definition man_world :: eob_world where
  "man_world = \<lparr>w_disk = replicate (10 * 2 ^ 20) 0, w_sched = [], w_mallocs = [], w_junk = (\<lambda>_. 0)\<rparr>"

definition man_env :: cli_env where
  "man_env = demo_env\<lparr>e_aton := (\<lambda>s. if s = ''192.168.1.1'' then Some 0x0101A8C0
     else if s = ''192.168.1.2'' then Some 0x0201A8C0 else None)\<rparr>"

definition man_session :: "command list" where
  "man_session = [C_init 32, C_add 0 ''192.168.1.1'', C_add 1 ''192.168.1.2'',
     C_send 0 1 [72, 101, 108, 108, 111, 33, 10], C_recv 1, C_deinit, C_dump]"

lemma man_world_simps: "calm man_world" "length (w_disk man_world) = 10 * 2 ^ 20"
  "bslice 0 EOB_HDR_SIZE (w_disk man_world) = replicate EOB_HDR_SIZE 0"
  by (simp_all add: man_world_def calm_def quiet_def roomy_def bslice_def layout_simps)

theorem iface_runs_refine_volume_witness:
  "\<exists>w'. run_commands man_env ''/tmp/eoblock'' man_session man_world =
    Inr ([(0, []), (0, []), (0, []), (0, []), (0, [72, 101, 108, 108, 111, 33, 10, 10]), (0, []), (1, [])], w')"
proof -
  have "commands_ok (e_aton man_env) man_session empty_volume" "0 < e_open man_env ''/tmp/eoblock''" "operand ''/tmp/eoblock''"
    by (simp_all add: man_session_def empty_volume_def man_env_def demo_env_def text_ok_def operand_def pkt_data_size_def layout_simps)
  moreover have "EOB_HDR_SIZE + 256 * 2 ^ 9 \<le> length (w_disk man_world)" by (simp add: man_world_simps layout_simps)
  ultimately have "\<exists>w'. run_commands man_env ''/tmp/eoblock'' man_session man_world =
      Inr (fst (volume_run (e_aton man_env) man_session empty_volume), w')"
    using man_world_simps by (intro iface_runs_refine_volume) simp_all
  moreover have "fst (volume_run (e_aton man_env) man_session empty_volume) =
      [(0, []), (0, []), (0, []), (0, []), (0, [72, 101, 108, 108, 111, 33, 10, 10]), (0, []), (1, [])]"
    by (simp add: man_session_def empty_volume_def man_env_def)
  ultimately show ?thesis by simp
qed

end
