(* ===== verification/Cli_Defaults.thy ===== *)
theory Cli_Defaults
  imports Cli_Cluster
begin

text \<open>
  The block sizes \<open>iface init\<close> takes when it is given none are not those that \<open>iface send\<close> and
  \<open>iface recv\<close> ask for.
\<close>

lemma open_dev_refused:
  assumes c: "calm w" and len: "EOB_HDR_SIZE \<le> length (w_disk w)" and fd: "0 < e_open env dev" "dev \<noteq> ''-''"
    and h: "good_header (e_crc env) (disk_header w)" "h_phys_blk_size (disk_header w) \<noteq> 2 ^ 9"
  obtains w' where "open_dev env std name (node_addr n) dev B_FALSE w = Inr (Inl EOB_INVAL, w')" and "same_io w w'"
proof -
  let ?a = "node_addr n"
  have a: "unat (hw_phys_blk_shift ?a) = 9" "shifts_ok ?a"
    using plain_addr_default [of "uint n" 0] by (simp_all add: shifts_ok_def plain_addr_def)
  obtain w1 buf where o: "open_self ?a dev w = Inr (Inr (fresh_self ?a dev buf), w1)" and io: "same_io w w1"
    by (rule open_self_ok [OF c shifts_phys [OF a(2)]])
  let ?self = "(fresh_self ?a dev buf)\<lparr>d_fd := e_open env dev\<rparr>"
  have s: "d_addr ?self = ?a" "d_fd ?self = e_open env dev" by (simp_all add: fresh_self_def)
  obtain w' where i: "eob_device_init_hdr (e_crc env) ?self 0 w1 = Inr (EOB_INVAL, ?self, w')" and io': "same_io w1 w'"
    by (rule init_hdr_refuses [of w1 ?self "e_crc env"])
      (use c len fd h a s same_ioD [OF io] disk_header_io [OF io] in \<open>simp_all add: addr_sizes_def\<close>)
  have "open_dev env std name ?a dev B_FALSE w = Inr (Inl EOB_INVAL, w')"
    using o i fd by (simp add: open_dev_def eob_device_open_file_def finish_open_def)
  then show thesis using same_io_trans [OF io io'] by (rule that)
qed

lemma getopt_init_plain: "operand dev \<Longrightarrow> getopt_all ''vF:V:P:c:'' [''iface'', ''init'', dev] = ([], [''init'', dev])"
  using getopt_dev [of dev "''vF:V:P:c:''"] by (simp add: getopt_all_def)

text \<open>
  C36. \<open>iface init DEVICE\<close> succeeds and makes a device that cannot carry a message: its default
  of 4096-byte blocks is what the fixed 512-byte blocks of \<open>send\<close> and \<open>recv\<close> do not match. Both
  end with status 1 and leave the device as it is, whichever nodes they name.
\<close>

theorem default_init_refuses_mail:
  assumes c: "calm w" and fd: "0 < e_open env dev" "dev \<noteq> ''-''" "operand dev" and n: "s < 256" "d < 256"
  shows "\<exists>w1. main env [''iface'', ''init'', dev] (process w) = Inr (0, process w1) \<and>
    (\<exists>w2. run_command env dev (C_send s d t) w1 = Inr ((1, []), w2) \<and> w_disk w2 = w_disk w1) \<and>
    (\<exists>w2. run_command env dev (C_recv d) w1 = Inr ((1, []), w2) \<and> w_disk w2 = w_disk w1)"
proof -
  let ?h = "init_header (e_crc env) 0 0 0"
  have sz: "init_sizes_ok 0 0" by (simp add: init_sizes_ok_def dflt_def P2PHASE_def layout_simps)
  have q: "quiet w" "roomy w" using c by (simp_all add: calm_def)
  from hdr_init_written [OF q(1) fd(1) sz, of "e_crc env" 0 0] obtain w1 where
    w1: "eob_hdr_init (e_crc env) (e_open env dev) 0 0 0 0 w = Inr (EOB_OK, w1)" "fd_store.written (e_open env dev) ?h w w1" by blast
  have st: "hdr_state (e_crc env) (w_disk w1) = Some ?h" by (rule fd_store.written_state [OF w1(2) init_header_fits [OF sz] init_header_good])
  have c1: "calm w1" using hdr_init_roomy [OF w1(1) q(2)] w1(2) by (simp add: calm_def fd_store.written_def)
  have hd: "disk_header w1 = ?h" "EOB_HDR_SIZE \<le> length (w_disk w1)" using st by (simp_all add: hdr_state_Some_iff disk_header_def)
  have h: "good_header (e_crc env) (disk_header w1)" "h_phys_blk_size (disk_header w1) \<noteq> 2 ^ 9"
    unfolding hd by (simp_all add: init_header_good) (simp add: init_header_def dflt_def layout_simps)
  have at: "c_atoi (dec_digits s) = Inr (int s)" "c_atoi (dec_digits d) = Inr (int d)" using n by (simp_all add: atoi_dec)
  let ?env = "command_env (C_send s d t) env"
  obtain w2 where s: "open_dev ?env 1 ''stdout'' (node_addr (word_of_nat s)) dev B_FALSE w1 = Inr (Inl EOB_INVAL, w2)" "same_io w1 w2"
    by (rule open_dev_refused [of w1 ?env dev]) (use c1 hd(2) fd h in simp_all)
  obtain w3 where r: "open_dev env 0 ''stdin'' (node_addr (word_of_nat d)) dev B_FALSE w1 = Inr (Inl EOB_INVAL, w3)" "same_io w1 w3"
    by (rule open_dev_refused [OF c1 hd(2) fd(1,2) h])
  have "main env [''iface'', ''init'', dev] (process w) = Inr (0, process w1)"
    using w1(1) fd getopt_init_plain [OF fd(3)] by (simp add: handler_defs iface_do_init_def iface_hdr_init_def)
  moreover have "run_command env dev (C_send s d t) w1 = Inr ((1, []), w2)"
    using s(1) at getopt_send [OF fd(3), of "dec_digits s" "dec_digits d"] unfolding word_of_byte [OF n(1)] word_of_byte [OF n(2)]
    by (simp add: handler_defs iface_do_send_def send_opt_def iface_send_def open_stream_def eob_strerror_def)
  moreover have "run_command env dev (C_recv d) w1 = Inr ((1, []), w3)"
    using r(1) at getopt_recv [OF fd(3), of "dec_digits d"] unfolding word_of_byte [OF n(2)]
    by (simp add: handler_defs iface_do_recv_def recv_opt_def iface_recv_def open_stream_def eob_strerror_def)
  ultimately show ?thesis using same_ioD(2) [OF s(2)] same_ioD(2) [OF r(2)] by blast
qed

theorem default_init_refuses_mail_witness:
  "\<exists>w1. main man_env [''iface'', ''init'', ''/tmp/eoblock''] (process man_world) = Inr (0, process w1) \<and>
    (\<exists>w2. run_command man_env ''/tmp/eoblock'' (C_send 0 1 [72, 105]) w1 = Inr ((1, []), w2) \<and> w_disk w2 = w_disk w1)"
proof -
  have "0 < e_open man_env ''/tmp/eoblock''" "operand ''/tmp/eoblock''" by (simp_all add: man_env_def demo_env_def operand_def)
  then show ?thesis using default_init_refuses_mail [of man_world man_env "''/tmp/eoblock''" 0 1 "[72, 105]"] man_world_simps(1) by auto
qed

end
