(* ===== verification/Iface_Test_Props.thy ===== *)
theory Iface_Test_Props
  imports Cli_Mail Avl_Update
begin

text \<open>
  What the self tests of the command line tool show: the one of the AVL tree passes, the message
  tests send and receive as they should, and \<open>iface test\<close> never ends well, because its last test
  closes one device twice.
\<close>

section \<open>The AVL tree\<close>

text \<open>Where the array of nodes and the searched node may lie.\<close>

definition test_frame :: "addr \<Rightarrow> addr \<Rightarrow> bool" where
  "test_frame nodes nsearch \<longleftrightarrow> nodes AND 7 = 0 \<and> 0 < unat nodes \<and> unat nodes + 160 \<le> 2 ^ 64 \<and>
     nsearch \<notin> set (avl_test_nodes nodes)"

lemma unat_in_frame: "test_frame nodes nsearch \<Longrightarrow> k \<le> 120 \<Longrightarrow> unat (nodes + word_of_nat k) = unat nodes + k"
  by (simp add: test_frame_def unat_word_ariths unat_of_nat)

lemma frame_nodes:
  assumes "test_frame nodes nsearch"
  shows "unat (nodes + 40) = unat nodes + 40" "unat (nodes + 80) = unat nodes + 80" "unat (nodes + 120) = unat nodes + 120"
  using unat_in_frame [OF assms, of 40] unat_in_frame [OF assms, of 80] unat_in_frame [OF assms, of 120] by simp_all

lemma frame_distinct:
  assumes "test_frame nodes nsearch"
  shows "distinct (avl_test_nodes nodes)" and "0 \<notin> set (avl_test_nodes nodes)"
  using frame_nodes [OF assms] assms unfolding avl_test_nodes_def test_frame_def by (auto simp: word_unat_eq_iff)

lemma frame_values:
  assumes "test_frame nodes nsearch"
  shows "avl_test_values nodes nsearch nodes = 1" "avl_test_values nodes nsearch (nodes + 40) = 2"
    "avl_test_values nodes nsearch (nodes + 80) = 3" "avl_test_values nodes nsearch (nodes + 120) = 1"
    "avl_test_values nodes nsearch nsearch = 1"
  using frame_distinct(1) [OF assms] assms by (auto simp: avl_test_values_def avl_test_nodes_def test_frame_def)

lemma frame_addable:
  assumes "test_frame nodes nsearch" and "n \<in> set (avl_test_nodes nodes)" and "avl_offset tr = 0"
    and "dom h = set (avl_test_nodes nodes)"
  shows "addable h tr n"
proof -
  have "aligned8 nodes" using assms(1) by (simp add: test_frame_def aligned8_def)
  then have "aligned8 n"
    using assms(2) aligned8_add [of nodes] by (auto simp: avl_test_nodes_def aligned8_def)
  moreover have "h n \<noteq> None" using assms(2,4) by blast
  moreover have "n \<noteq> 0" using assms(2) frame_distinct(2) [OF assms(1)] by auto
  ultimately show ?thesis using assms(3) by (simp add: addable_def AVL_DATA2NODE_def aligned8_def)
qed

text \<open>One turn of the loop: a new value is added, a value that is there has its tag replaced.\<close>

lemma avl_test_new:
  assumes "avl_holds call key h tr ds" and "addable h tr n" and "\<forall>x\<in>set ds. key x \<noteq> key n"
  obtains h' tr' where "avl_test_loop call (n # ns) h tr tags = avl_test_loop call ns h' tr' tags"
    and "avl_holds call key h' tr' (filter (\<lambda>x. key x < key n) ds @ n # filter (\<lambda>x. key n < key x) ds)"
    and "avl_offset tr' = avl_offset tr" and "dom h' = dom h"
proof -
  obtain h' tr' where a: "avl_add call h tr n = Some (Inr (h', tr'))"
    "avl_holds call key h' tr' (filter (\<lambda>x. key x < key n) ds @ n # filter (\<lambda>x. key n < key x) ds)"
    "avl_offset tr' = avl_offset tr" "dom h' = dom h"
    using avl_add_holds [OF assms] by blast
  obtain p where "avl_find call h tr n = Some (Inr (0, Some p))"
    using avl_find_holds [OF assms(1), of n] assms(3) by blast
  then show thesis using a by (intro that [of h' tr']) simp_all
qed

lemma avl_find_key:
  assumes H: "avl_holds call key h tr ds" and d: "d \<in> set ds" "key d = key n"
  shows "avl_find call h tr n = Some (Inr (d, None))" and "d \<noteq> 0"
proof -
  obtain e where e: "e \<in> set ds" "key e = key n" "avl_find call h tr n = Some (Inr (e, None))"
    using avl_find_holds [OF H, of n] d by metis
  have "sorted_wrt (\<lambda>a b. key a < key b) ds" using H by (simp add: avl_holds_iff)
  then have "e = d" using sorted_key_inj e(1,2) d by metis
  then show "avl_find call h tr n = Some (Inr (d, None))" using e(3) by simp
  show "d \<noteq> 0" using H d(1) by (auto simp: avl_holds_def)
qed

text \<open>
  C6. The self test of the AVL tree returns 0 wherever its array of nodes and its search key lie in
  memory: the three values are added, the node with a value that is there only passes on its tag,
  and the lookup finds the node with the new tag.
\<close>

theorem avl_test_passes:
  assumes F: "test_frame nodes nsearch" and c: "cmp \<noteq> 0"
  shows "avl_test cmp nodes nsearch = Some (Inr 0)"
proof -
  let ?key = "avl_test_values nodes nsearch" and ?call = "\<lambda>f :: addr. avl_test_node_cmp (avl_test_values nodes nsearch)"
  let ?h = "avl_test_heap nodes" and ?tags = "avl_test_tags nodes"
  have dom: "dom ?h = set (avl_test_nodes nodes)" by (auto simp: avl_test_heap_def split: if_splits)
  note mem = frame_addable [OF F]
  have in4: "nodes \<in> set (avl_test_nodes nodes)" "nodes + 40 \<in> set (avl_test_nodes nodes)" "nodes + 80 \<in> set (avl_test_nodes nodes)"
    by (simp_all add: avl_test_nodes_def)
  obtain tr where tr: "avl_create cmp 40 0 = Inr tr" "avl_offset tr = 0"
    using c by (simp add: avl_create_def SIZEOF_AVL_NODE_def)
  have H0: "avl_holds ?call ?key ?h tr []"
    by (rule avl_create_holds [OF tr(1)]) (simp add: avl_test_node_cmp_def)
  obtain h1 tr1 where 1: "avl_test_loop ?call [nodes, nodes + 40, nodes + 80, nodes + 120] ?h tr ?tags =
      avl_test_loop ?call [nodes + 40, nodes + 80, nodes + 120] h1 tr1 ?tags"
    "avl_holds ?call ?key h1 tr1 [nodes]" "avl_offset tr1 = 0" "dom h1 = dom ?h"
    by (rule avl_test_new [where ns = "[nodes + 40, nodes + 80, nodes + 120]" and tags = ?tags, OF H0 mem [OF in4(1) tr(2) dom]])
      (use tr(2) in \<open>simp_all del: avl_test_loop.simps\<close>)
  obtain h2 tr2 where 2: "avl_test_loop ?call [nodes + 40, nodes + 80, nodes + 120] h1 tr1 ?tags =
      avl_test_loop ?call [nodes + 80, nodes + 120] h2 tr2 ?tags"
    "avl_holds ?call ?key h2 tr2 [nodes, nodes + 40]" "avl_offset tr2 = 0" "dom h2 = dom ?h"
    by (rule avl_test_new [where ns = "[nodes + 80, nodes + 120]" and tags = ?tags, OF 1(2) mem [OF in4(2) 1(3)]])
      (use 1(3,4) dom frame_values [OF F] in \<open>simp_all del: avl_test_loop.simps\<close>)
  obtain h3 tr3 where 3: "avl_test_loop ?call [nodes + 80, nodes + 120] h2 tr2 ?tags =
      avl_test_loop ?call [nodes + 120] h3 tr3 ?tags"
    "avl_holds ?call ?key h3 tr3 [nodes, nodes + 40, nodes + 80]"
    by (rule avl_test_new [where ns = "[nodes + 120]" and tags = ?tags, OF 2(2) mem [OF in4(3) 2(3)]])
      (use 2(3,4) dom frame_values [OF F] in \<open>simp_all del: avl_test_loop.simps\<close>)
  have f: "avl_find ?call h3 tr3 n = Some (Inr (nodes, None))" "nodes \<noteq> 0" if "?key n = 1" for n
    using avl_find_key [OF 3(2), of nodes n] frame_values(1) [OF F] that by simp_all
  have "avl_test_loop ?call (avl_test_nodes nodes) ?h tr ?tags =
      Some (Inr (h3, tr3, ?tags(nodes := ?tags (nodes + 120))))"
    unfolding avl_test_nodes_def 1 2 3 using f [OF frame_values(4) [OF F]] by simp
  moreover have "?tags (nodes + 120) = ''4''"
    using frame_distinct(1) [OF F] by (auto simp: avl_test_tags_def avl_test_nodes_def)
  ultimately show ?thesis
    using tr(1) f [OF frame_values(5) [OF F]] by (simp add: avl_test_def)
qed

theorem avl_test_passes_witness: "avl_test 1 4096 8192 = Some (Inr 0)"
  by (rule avl_test_passes) (simp_all add: test_frame_def avl_test_nodes_def)

section \<open>The macros\<close>

text \<open>The lines printed for \<open>i\<close> are those of division by 8.\<close>

lemma bit_hacks_line:
  assumes "i < 50"
  shows "bit_hacks_lines 8 (word_of_nat i) =
    [''VALUE='' @ dec_digits i, ''P2ALIGN='' @ dec_digits (i div 8 * 8),
     ''P2ROUNDUP='' @ dec_digits ((i + 7) div 8 * 8), ''P2PHASE='' @ dec_digits (i mod 8)]"
proof -
  have u: "unat (word_of_nat i :: u64) = i" using assms by (simp add: unat_of_nat)
  have "(i + 7) div 8 * 8 \<le> i + 7" by simp
  then have "(i + 7) div 8 * 8 < 57" using assms by linarith
  then have fits: "(unat (word_of_nat i :: u64) + 2 ^ 3 - 1) div 2 ^ 3 * 2 ^ 3 < 2 ^ LENGTH(64)" using u by simp
  have "unat (P2ROUNDUP (word_of_nat i) 8 :: u64) = (i + 7) div 8 * 8"
    using unat_P2ROUNDUP [OF _ fits] u by simp
  then show ?thesis
    using unat_P2ALIGN [of 3 "word_of_nat i :: u64"] unat_P2PHASE [of 3 "word_of_nat i :: u64"] u
    by (simp add: bit_hacks_lines_def)
qed

lemma bit_hacks_passes:
  "bit_hacks_test = Inr (0, concat (map (\<lambda>i.
     [''VALUE='' @ dec_digits i, ''P2ALIGN='' @ dec_digits (i div 8 * 8),
      ''P2ROUNDUP='' @ dec_digits ((i + 7) div 8 * 8), ''P2PHASE='' @ dec_digits (i mod 8)]) [0..<50]))"
proof -
  let ?line = "\<lambda>i. [''VALUE='' @ dec_digits i, ''P2ALIGN='' @ dec_digits (i div 8 * 8),
      ''P2ROUNDUP='' @ dec_digits ((i + 7) div 8 * 8), ''P2PHASE='' @ dec_digits (i mod 8)]"
  have "map (\<lambda>i. bit_hacks_lines 8 (word_of_nat i)) [0..<50] = map ?line [0..<50]"
    by (rule map_cong) (simp_all only: atLeastLessThan_upt [symmetric] atLeastLessThan_iff bit_hacks_line)
  then have out: "concat (map (\<lambda>i. bit_hacks_lines 8 (word_of_nat i)) [0..<50]) = concat (map ?line [0..<50])"
    by (rule arg_cong)
  have "bit_hacks_test = Inr (0, concat (map (\<lambda>i. bit_hacks_lines 8 (word_of_nat i)) [0..<50]))"
    using highbit64_at_8 [of 9] highbit64_at_8 [of 12] highbit64_at_8 [of 14] by (simp add: bit_hacks_test_def Let_def del: upt_rec_numeral)
  then show ?thesis unfolding out .
qed

section \<open>Messages\<close>

lemma length_hello: "Suc (length hello) \<le> pkt_data_size (2 ^ 9)" and zero_hello: "0 \<notin> set hello"
  by (simp_all add: hello_def to_bytes_def pkt_data_size_def layout_simps)

lemma is_hello_ok: "is_hello (Some (hello @ [0])) = Inr True"
  using c_strlen_ok [OF zero_hello, of "[]"] by (simp add: is_hello_def)

text \<open>A message to a node, and its reception there.\<close>

lemma test_sent:
  assumes P: "plain_disk crc w" and b: "blocks self 9 9" and a: "plain_addr (d_addr self)"
  obtains w' where "eob_device_send crc self \<lparr>iov_base = Some (hello @ [0]), iov_len = length hello + 1\<rparr> to w = Inr (EOB_OK, w')"
    and "plain_disk crc w'" and "node_block 9 (hw_node_id to) (w_disk w') = text_block crc (d_addr self) hello"
proof -
  obtain w' where s: "eob_device_send crc self \<lparr>iov_base = Some (hello @ 0 # []), iov_len = length hello + 1\<rparr> to w = Inr (EOB_OK, w')"
    "calm w'" "w_disk w' = overlay (node_off 9 (hw_node_id to)) (text_block crc (d_addr self) hello) (w_disk w)"
    by (rule send_text_ok [OF b a plain_disk_calm [OF P] length_hello])
  from s(1) text_sent [OF P s(2) a length_hello s(3)] show thesis by (rule that)
qed

lemma test_alloc_close:
  assumes P: "plain_disk crc w" and fd: "0 < sys_open dev"
  obtains w1 src where "test_eob_open_alloc_close crc sys_open dev w = Inr (0, w1)"
    and "plain_disk crc w1" and "node_block 9 1 (w_disk w1) = text_block crc src hello" and "hw_node_id src = 1"
proof -
  let ?a = "\<lparr>hw_node_id = 1, hw_nodes_count = 2, hw_virt_blk_shift = 9, hw_phys_blk_shift = 9, hw_pad = junk_bytes 12 w\<rparr>"
  let ?b = "?a\<lparr>hw_pad := drop 12 (junk_bytes 24 w)\<rparr>"
  have a: "plain_addr ?a" by (simp add: plain_addr_def wf_hw_addr_def)
  obtain self w1 where o: "eob_device_open_file sys_open crc ?a dev 0 w = Inr (EOB_OK, Some self, w1)"
    "same_io w w1" "d_addr self = ?a" "blocks self 9 9"
    by (rule open_file_plain [where sys_open = sys_open, OF P a fd])
  have pa: "plain_addr (d_addr self)" using a o(3) by simp
  obtain w2 where s: "eob_device_send crc self \<lparr>iov_base = Some (hello @ [0]), iov_len = length hello + 1\<rparr> ?b w1 = Inr (EOB_OK, w2)"
    "plain_disk crc w2" "node_block 9 (hw_node_id ?b) (w_disk w2) = text_block crc (d_addr self) hello"
    by (rule test_sent [OF plain_disk_io [OF P o(2)] o(4) pa])
  obtain self' w3 where o': "eob_device_open_file sys_open crc ?a dev 0 w2 = Inr (EOB_OK, Some self', w3)"
    "same_io w2 w3" "d_addr self' = ?a" "blocks self' 9 9"
    by (rule open_file_plain [where sys_open = sys_open, OF s(2) a fd])
  have blk: "node_block 9 (hw_node_id (d_addr self')) (w_disk w3) = text_block crc ?a hello"
    using s(3) o(3) o'(3) same_ioD(2) [OF o'(2)] by simp
  obtain w4 where r: "eob_device_recv crc self' w3 =
      Inr (EOB_OK, Some (\<lparr>iov_base = Some (hello @ [0]), iov_len = length (hello @ [0])\<rparr>, ?a), w4)"
    "calm w4" "w_disk w4 = w_disk w3"
    by (rule recv_text_ok [OF o'(4) plain_disk_io [OF s(2) o'(2)] a blk length_hello])
  have "test_eob_open_alloc_close crc sys_open dev w = Inr (0, w4)"
    using o(1) s(1) o'(1) r(1) is_hello_ok
    by (simp add: test_eob_open_alloc_close_def eob_device_close_lib_def Let_def)
  moreover have "plain_disk crc w4"
    using plain_disk_io [OF s(2) o'(2)] r(2,3) by (simp add: plain_disk_def disk_header_def)
  moreover have "node_block 9 1 (w_disk w4) = text_block crc ?a hello" using blk o'(3) r(3) by simp
  ultimately show thesis by (intro that [of w4 ?a]) simp_all
qed

lemma test_send_recv_ub:
  assumes P: "plain_disk crc w" and fd: "0 < sys_open dev"
  shows "test_eob_send_recv crc sys_open dev w = Inl UB"
proof -
  let ?src = "EOB_HW_ADDR_INIT_DEFAULT 0 2" and ?dst = "EOB_HW_ADDR_INIT_DEFAULT 1 2"
  obtain self w1 where o: "eob_device_open_file sys_open crc ?src dev 0 w = Inr (EOB_OK, Some self, w1)"
    "same_io w w1" "d_addr self = ?src" "blocks self 9 9"
    by (rule open_file_plain [where sys_open = sys_open, OF P plain_addr_default fd])
  have a: "plain_addr (d_addr self)" by (simp add: o(3))
  note P1 = plain_disk_io [OF P o(2)]
  obtain w2 where s: "eob_device_send_str crc self (hello @ 0 # []) ?dst w1 = Inr (EOB_OK, w2)" "calm w2"
    "w_disk w2 = overlay (node_off 9 (hw_node_id ?dst)) (text_block crc (d_addr self) hello) (w_disk w1)"
    by (rule send_str_ok [OF o(4) a plain_disk_calm [OF P1] zero_hello length_hello])
  note sent = text_sent [OF P1 s(2) a length_hello s(3)]
  obtain self' w3 where o': "eob_device_open_file sys_open crc ?dst dev 0 w2 = Inr (EOB_OK, Some self', w3)"
    "same_io w2 w3" "d_addr self' = ?dst" "blocks self' 9 9"
    by (rule open_file_plain [where sys_open = sys_open, OF sent(1) plain_addr_default fd])
  have "node_block 9 (hw_node_id (d_addr self')) (w_disk w3) = text_block crc (d_addr self) hello"
    using sent(2) o'(3) same_ioD(2) [OF o'(2)] by simp
  then obtain w4 where "eob_device_recv_str crc self' w3 = Inr (EOB_OK, Some (Some (hello @ [0]), d_addr self), w4)"
    by (rule recv_str_ok [OF o'(4) plain_disk_io [OF sent(1) o'(2)] a _ zero_hello length_hello])
  then show ?thesis
    using o(1) s(1) o'(1) by (simp add: test_eob_send_recv_def eob_device_close_lib_def Let_def)
qed

lemma find_test: "find_command ''test'' = Some \<lparr>cmd_name = ''test'', cmd_fn = iface_do_test, cmd_usage = HELP_TEST\<rparr>"
  by (simp add: find_command_def iface_command_table_def)

text \<open>
  C38. \<open>iface test DEVICE\<close> on a disk with a good header of 512-byte blocks: the message test sends a
  message to node 1, receives it there and returns 0, leaving it in the block; the next test
  sends and receives too, but then closes the sending device, which it has closed and so freed
  before, a second time. The whole run is undefined.
\<close>

theorem iface_test_closes_twice:
  assumes P: "plain_disk (e_crc env) (cl_world c)" and fd: "0 < e_open env dev"
    and scan: "e_scan env = Some devs" "listed dev ''disk'' devs d"
  shows "(\<exists>w1 src. test_eob_open_alloc_close (e_crc env) (e_open env) dev (cl_world c) = Inr (0, w1) \<and>
      plain_disk (e_crc env) w1 \<and> node_block 9 1 (w_disk w1) = text_block (e_crc env) src hello \<and> hw_node_id src = 1) \<and>
    test_eob_send_recv (e_crc env) (e_open env) dev (cl_world c) = Inl UB \<and>
    main env [''iface'', ''test'', dev] c = Inl UB"
proof -
  obtain w0 where m: "malloc_ok (cl_world c) = (True, w0)" "same_io (cl_world c) w0"
    using plain_disk_calm [OF P] by (rule calm_malloc_ok)
  obtain w1 src where t: "test_eob_open_alloc_close (e_crc env) (e_open env) dev w0 = Inr (0, w1)" "plain_disk (e_crc env) w1"
    by (rule test_alloc_close [where sys_open = "e_open env", OF plain_disk_io [OF P m(2)] fd])
  have "main_test (e_crc env) (e_open env) (e_scan env) [''iface'', ''test'', dev] (cl_world c) = Inl UB"
    using m(1) t(1) test_send_recv_ub [where sys_open = "e_open env", OF t(2) fd] scan(1) find_disk_listed [OF scan(2)]
    by (simp add: main_test_def test_find_dev_by_path_def c_strdup_def liboblock_init_def eob_log_init_def Let_def)
  then have "main env [''iface'', ''test'', dev] c = Inl UB"
    by (simp add: main_def find_test iface_do_test_def)
  then show ?thesis using test_alloc_close [where sys_open = "e_open env", OF P fd]
      test_send_recv_ub [where sys_open = "e_open env", OF P fd] by metis
qed

theorem iface_test_closes_twice_witness:
  "main (demo_env\<lparr>e_scan := u_scan demo_disk_env 0\<rparr>) [''iface'', ''test'', ''/dev/sda''] demo_mail_cli = Inl UB"
proof -
  let ?env = "demo_env\<lparr>e_scan := u_scan demo_disk_env 0\<rparr>"
  have "plain_disk (e_crc ?env) (cl_world demo_mail_cli)" "0 < e_open ?env ''/dev/sda''"
    using demo_plain_disk by (simp_all add: demo_env_def demo_mail_cli_def)
  then show ?thesis
    using iface_test_closes_twice [of ?env demo_mail_cli "''/dev/sda''"] demo_scan(1) demo_listed(1) by auto
qed

text \<open>
  \<open>iface test\<close> ends in an abnormal way in every environment: with any arguments, any device and
  any state of the world there is no exit status.
\<close>

lemma iface_test_never_returns: "\<exists>f. main env (a # ''test'' # args) c = Inl f"
proof -
  have "test_eob_send_recv crc sys_open dev w \<noteq> Inr r" for crc sys_open dev w r
    by (auto simp: test_eob_send_recv_def eob_device_close_lib_def bindr_Inr_iff Let_def split: prod.splits)
  then have "main_test crc sys_open scan argv w \<noteq> Inr r" for crc sys_open scan argv w r
    by (auto simp: main_test_def bindr_Inr_iff Let_def split: prod.splits)
  then obtain f where "main_test (e_crc env) (e_open env) (e_scan env) (a # ''test'' # args) (cl_world c) = Inl f"
    by (metis sumE)
  then show ?thesis by (simp add: main_def find_test iface_do_test_def)
qed

end
