(* ===== verification/Spec2Isabelle.thy ===== *)
theory Spec2Isabelle
  imports Eob_Bits_Props Eob_Log Eob_Header_Race Eob_Mail_Errors Avl_Props Vec_Props Vec_Loops Kmod_Reach
    Cli_Defaults Iface_Test_Props
begin

text \<open>
  \<^bold>\<open>eoblock: messages between the nodes of a cluster over a shared block device.\<close>

  Every node of the cluster opens the same disk, partition or file. Its first bytes are a header
  (sizes, version, the table of the nodes, a checksum); behind the 512 header bytes lies one
  virtual block per node, the mailbox of that node. Sending writes a packet (head, data, checksum)
  to the block of the addressed node, receiving reads the own one. The library
  (\<open>src/lib/liboblock.c\<close>) is used by the command line tool \<open>iface\<close> (\<open>src/cmd/iface0/iface.c\<close>);
  the kernel module (\<open>src/modules/kmod\<close>) manages interfaces through files below \<open>/sys\<close>. Ordered
  sets come from an AVL tree (\<open>src/lib/libavl/avl.c\<close>), growable arrays from
  \<open>src/lib/libvec/vec.c\<close> and \<open>src/include/sys/vec.h\<close>.

  \<^bold>\<open>How C is modelled.\<close> The target is LP64 (the packed nodes of the AVL tree also have their
  ILP32 layout), assertions are on. A function that may stop abnormally has a result of type
  \<open>fault + 'a\<close>: \<open>Abort\<close> is a failed assertion, \<open>UB\<close> undefined behaviour (access outside an
  object, a null or freed pointer, overflow of \<open>int\<close>), \<open>Hang\<close> a loop that never ends
  (\<open>Eob_Prelude\<close>). State is passed explicitly. Fixed-width integers are words; \<open>int\<close> arithmetic
  that can overflow goes through \<open>c_int\<close>. Structures are records with their byte images; strings are
  the characters before the null byte, messages lists of bytes. Code outside \<open>src/\<close> is a parameter
  or an oracle: zlib's \<open>crc32\<close> (\<open>crc_fn\<close>), \<open>malloc\<close> and the device's \<open>pread\<close>/\<open>pwrite\<close> (the lists
  of a world, \<open>Eob_World\<close>, with short transfers, errors and writes of other nodes in between),
  \<open>open\<close> and \<open>inet_aton\<close> (\<open>cli_env\<close>), what libudev lists and what \<open>access\<close> and \<open>stat64\<close> answer
  (\<open>disk_env\<close>), the comparison function of a tree (\<open>compar_env\<close>), the prefixes and the return value of
  \<open>vprintk\<close>, and the calls into the kernel (the lists of \<open>kernel\<close>, \<open>Kmod_Device\<close>; \<open>isspace\<close> and
  \<open>kstrtoul\<close>).

  \<^bold>\<open>Theories and code.\<close>

  \<^item> \<open>Eob_Prelude\<close>, \<open>Eob_Text\<close>: faults, little-endian integers, byte buffers; numbers as text.
  \<^item> \<open>Eob_Errors\<close>, \<open>Eob_Bits\<close>, \<open>Eob_Layout\<close>, \<open>Eob_Chksum\<close>: the codes and macros of
    \<open>src/include/eoblock_defs.h\<close>, \<open>src/lib/eob_log.c\<close>, the structures of
    \<open>src/include/eoblock.h\<close> as records with a \<open>codec\<close> (a locale: image and parser are inverse),
    \<open>src/lib/chksum.c\<close>. \<open>Eob_Bits_Props\<close> states what the power-of-two macros compute: the untyped
    ones at the width of their promoted operands, the typed ones at every unsigned type, narrow types
    promoted to \<open>int\<close>.
  \<^item> \<open>Eob_Log\<close>: log lines of the library (\<open>src/lib/eob_log.c\<close>) and log records of the kernel module
    (\<open>src/modules/kmod/eoblock_debug.c\<close>).
  \<^item> \<open>Eob_World\<close>: the device and the allocator, \<open>struct iovec\<close>.
  \<^item> \<open>Eob_Header\<close>, \<open>Eob_Dump\<close>: reading, writing, initialising, changing and printing the header.
    \<open>Eob_Header_Spec\<close> states what a header store promises (a locale, interpreted for plain
    descriptors and for \<open>struct eob_device\<close>), \<open>Eob_Header_Ops\<close> the effect of the operations,
    \<open>Eob_Header_Race\<close> two of them at once.
  \<^item> \<open>Eob_Buff\<close>, \<open>Eob_Device\<close>: \<open>struct eob_buff\<close>, and sending, receiving and opening.
    \<open>Eob_Buff_Spec\<close> and \<open>Eob_Packet_Spec\<close> relate them to blocks and packets, \<open>Eob_Mail\<close> is the
    abstract mailbox (locale \<open>mail\<close>) with its interpretation, \<open>Eob_Recv_Any\<close> a reception in an
    arbitrary world, \<open>Eob_Mail_Errors\<close> and \<open>Eob_Open\<close>
    the error paths and the outcomes of an open. \<open>Eob_Disk\<close> is the search for the disk of a path with
    \<open>eob_device_open_disk\<close> and \<open>eob_device_open\<close>, \<open>Eob_Text_Mail\<close> a text sent through a plain device.
  \<^item> \<open>Avl_Node\<close>, \<open>Avl\<close>: the nodes with their packed parent words, and every function of \<open>avl.c\<close> on
    a heap. \<open>Avl_Tree\<close> to \<open>Avl_Swap\<close> relate heaps to binary trees and follow rotation, insertion,
    removal, search and walks; \<open>Avl_Spec\<close>, \<open>Avl_Set\<close> (locale \<open>key_store\<close>), \<open>Avl_Update\<close> and
    \<open>Avl_Destroy\<close> are the ordered set; \<open>Avl_Props\<close> its properties.
  \<^item> \<open>Vec\<close>, \<open>Vec_Spec\<close>, \<open>Vec_Resize\<close>, \<open>Vec_Props\<close>: the vectors, as blocks of bytes and as lists, with
    27 operations in one refinement; \<open>Vec_Loops\<close> the
    iteration macros with pointers, two vectors, callbacks and string fields.
  \<^item> \<open>Kmod_Device\<close>, \<open>Kmod_Sysfs\<close>: \<open>eoblock_device.c\<close>, \<open>eoblock_main.c\<close> and \<open>eoblock_sysfs.c\<close>;
    \<open>Kmod_Spec\<close> the invariant of the table of interfaces, \<open>Kmod_Props\<close> its properties, \<open>Kmod_Reach\<close> the states
    that the loaded module reaches.
  \<^item> \<open>Cli\<close>: \<open>getopt\<close>, the handlers and \<open>main\<close> of \<open>iface.c\<close>; \<open>Cli_Props\<close> and \<open>Cli_Mail\<close> runs of
    the tool, composed with the library down to the bytes of the device, and what it prints on
    standard output and standard error for the command lines it does not understand. \<open>Cli_Cluster\<close> is the abstract
    volume (node table and mailboxes) and sequences of runs, over \<open>Eob_Header_Plain\<close> and
    \<open>Eob_Header_Bare\<close> (header operations next to messages, on devices with and without a header);
    \<open>Cli_Defaults\<close> the default block sizes. \<open>Iface_Test\<close> is
    \<open>iface_test.c\<close>, which \<open>iface test\<close> runs, \<open>Iface_Test_Props\<close> what comes of it.

  \<^bold>\<open>What is shown.\<close> The tool: every sequence of commands from
  \<open>init\<close> to \<open>deinit\<close> prints and returns what the abstract volume does, the session of the manual
  page for one; with the default block sizes no message gets through. Messages: after any
  sequence of sends a node receives the last message to it, other blocks and the header stay; every
  length and block content is followed to its outcome, and in every world a message that is handed
  out is the one in the node's own block. Header: reads are safe in every world and
  retry torn ones, add, remove and init change what they say, but two additions at once can lose
  one. Opening adopts, refuses or rewrites; a disk is never opened. AVL trees: every history of additions and removals is that of a set, balance and order
  are invariants, walks and updates follow the order, destruction ends and frees every node once.
  Vectors: the operations are those of lists, or fail leaving the vector alone, but for \<open>vec_insert\<close>
  and \<open>vec_resize\<close>, which leave a length that is too large. Kernel module: the
  commands do what they spell; in every state that is reached without a failed open the tables keep
  their invariant and no access faults, except an addition with a name of 16 or more characters
  (which \<open>alloc_netdev\<close> stops on) or a device of 256; unloading leaves interfaces, network devices and
  open files behind. Macros: rounding is that of division, with wrap-around at types of 32 bits or
  more.
  Several properties state what the code does where it does not do what it should: messages
  that run over the packet, a node index beyond the table of nodes, an insertion that reports success without memory, the interface that
  stays listed after it was freed, a self test that closes a device twice, kernel messages that all
  come out at the debug level, exit statuses that are the wrong way round, default sizes that do not fit each other.

  \<^bold>\<open>Bounds.\<close> The header is read at most \<open>max_pass\<close> times, a block device looked for 50 times, as in
  the code: bounded recursion. The loops of the AVL tree follow pointers and are
  \<open>partial_function (option)\<close>; the properties prove that they return on every well-formed tree.
  \<open>po2_loop\<close> ends at the sign bit, \<open>getopt_loop\<close> and \<open>add_iface_params\<close> shorten their input. The
  stack copy \<open>tmp\<close> of \<open>avl_remove\<close> lives at an address its caller passes.

  \<^bold>\<open>Not modelled.\<close> The calls of the log functions within the other functions, except where their
  arguments can end the process, and with them the log lines on standard error, where the
  diagnostics of \<open>getopt\<close> are missing as well; \<open>vec_sort\<close> (\<open>qsort\<close>) and the string
  vectors that are compiled out; the reference counts of block devices; the kernel variant of the AVL assertions;
  \<open>src/eoblock.py\<close>.
\<close>

end
